(* ===== verification/Go_Prelude.thy ===== *)
theory Go_Prelude
  imports Main "HOL-Library.Word" "HOL-Library.AList" "HOL-Library.Char_ord"
    "HOL-Library.List_Lexorder" "HOL-Library.Multiset"
begin

text \<open>
  What the addon manager uses of Go and its standard library, shared by every component:
  panics and state (\<open>outcome\<close>, \<open>gbind\<close>), error values (\<open>goerr\<close>), maps with an
  unspecified iteration order (\<open>gomap\<close>, \<open>gm_range\<close>), the functions of \<open>strings\<close>,
  \<open>strconv\<close> and \<open>fmt\<close> the code calls, and \<open>int64\<close>.

  A Go string is a sequence of bytes, here a \<open>string\<close>. \<open>TrimSpace\<close> and \<open>quote\<close> are
  exact on ASCII text; bytes above 127 are treated as printable and as no white space.
\<close>

named_theorems go_simps \<open>unfolding rules for the Go run-time operations\<close>

section \<open>Panics, state and errors\<close>

text \<open>A call either returns a value or panics; either way the state it reached remains.\<close>

datatype 'a outcome = Ret 'a | Panic string

type_synonym ('s, 'a) gom = "'s \<Rightarrow> 'a outcome \<times> 's"

definition gret :: "'a \<Rightarrow> ('s, 'a) gom" where
  "gret a = (\<lambda>s. (Ret a, s))"

definition gpanic :: "string \<Rightarrow> ('s, 'a) gom" where
  "gpanic m = (\<lambda>s. (Panic m, s))"

definition gbind :: "('s, 'a) gom \<Rightarrow> ('a \<Rightarrow> ('s, 'b) gom) \<Rightarrow> ('s, 'b) gom" where
  "gbind m f = (\<lambda>s. case m s of (Ret a, s') \<Rightarrow> f a s' | (Panic p, s') \<Rightarrow> (Panic p, s'))"

definition gmodify :: "('s \<Rightarrow> 's) \<Rightarrow> ('s, unit) gom" where
  "gmodify f = (\<lambda>s. (Ret (), f s))"

definition gget :: "('s \<Rightarrow> 'a) \<Rightarrow> ('s, 'a) gom" where
  "gget f = (\<lambda>s. (Ret (f s), s))"

text \<open>A deferred \<open>recover\<close>: a panic becomes the zero result, the state stays as it was.\<close>

definition grecover :: "'a \<Rightarrow> ('s, 'a) gom \<Rightarrow> ('s, 'a) gom" where
  "grecover z m = (\<lambda>s. case m s of (Ret a, s') \<Rightarrow> (Ret a, s') | (Panic p, s') \<Rightarrow> (Ret z, s'))"

text \<open>
  An error value: its message, and the API status reason that the \<open>apierrors\<close>
  predicates look for.
\<close>

datatype err_reason = ReasonNotFound | ReasonConflict | ReasonAlreadyExists | ReasonUnknown

datatype goerr = GoErr (reason: err_reason) (Error: string)

definition Errorf :: "string \<Rightarrow> goerr" where
  "Errorf m = GoErr ReasonUnknown m"

text \<open>\<open>fmt.Errorf\<close> with \<open>%w\<close> last: the wrapped error keeps its reason.\<close>

definition Wrapf :: "string \<Rightarrow> goerr \<Rightarrow> goerr" where
  "Wrapf m e = GoErr (reason e) (m @ Error e)"

definition IsNotFound :: "goerr \<Rightarrow> bool" where
  "IsNotFound e \<longleftrightarrow> reason e = ReasonNotFound"

definition IsConflict :: "goerr \<Rightarrow> bool" where
  "IsConflict e \<longleftrightarrow> reason e = ReasonConflict"

definition IsAlreadyExists :: "goerr \<Rightarrow> bool" where
  "IsAlreadyExists e \<longleftrightarrow> reason e = ReasonAlreadyExists"

text \<open>Code without state that may panic or return an error; a loop of it stops at the first.\<close>

definition ebind :: "(goerr + 'a) outcome \<Rightarrow> ('a \<Rightarrow> (goerr + 'b) outcome) \<Rightarrow> (goerr + 'b) outcome" where
  "ebind m f =
     (case m of Panic p \<Rightarrow> Panic p | Ret (Inl e) \<Rightarrow> Ret (Inl e) | Ret (Inr a) \<Rightarrow> f a)"

fun emap :: "('a \<Rightarrow> (goerr + 'b) outcome) \<Rightarrow> 'a list \<Rightarrow> (goerr + 'b list) outcome" where
  "emap f [] = Ret (Inr [])"
| "emap f (x # xs) = ebind (f x) (\<lambda>y. ebind (emap f xs) (\<lambda>ys. Ret (Inr (y # ys))))"

text \<open>A loop over a slice of code with state; a panic ends it.\<close>

primrec gfor :: "('a \<Rightarrow> ('s, unit) gom) \<Rightarrow> 'a list \<Rightarrow> ('s, unit) gom" where
  "gfor f [] = gret ()"
| "gfor f (x # xs) = gbind (f x) (\<lambda>_. gfor f xs)"

text \<open>
  Functions that return an error: \<open>if err := m(); err != nil { return err }\<close> followed by
  \<open>n\<close>, and a loop that returns at its first error.
\<close>

definition ethen :: "('s, goerr option) gom \<Rightarrow> ('s, goerr option) gom \<Rightarrow> ('s, goerr option) gom" where
  "ethen m n = gbind m (\<lambda>err. case err of Some e \<Rightarrow> gret (Some e) | None \<Rightarrow> n)"

primrec efor :: "('a \<Rightarrow> ('s, goerr option) gom) \<Rightarrow> 'a list \<Rightarrow> ('s, goerr option) gom" where
  "efor f [] = gret None"
| "efor f (x # xs) = ethen (f x) (efor f xs)"

lemmas gom_defs [go_simps] =
  gret_def gpanic_def gbind_def gmodify_def gget_def grecover_def

section \<open>Maps\<close>

text \<open>
  A Go map with string keys is an association list with distinct keys; lookup, store and
  delete are those of \<open>AList\<close>. The order in which \<open>range\<close> visits the keys is not
  specified by the language: it is an argument \<open>\<rho>\<close> of every definition that depends on
  it, a function from the key list to the order visited.
\<close>

type_synonym 'v gomap = "(string \<times> 'v) list"
type_synonym order = "string list \<Rightarrow> string list"

definition rng_ok :: "order \<Rightarrow> bool" where
  "rng_ok \<rho> \<longleftrightarrow> (\<forall>ks. mset (\<rho> ks) = mset ks)"

definition gm_ok :: "'v gomap \<Rightarrow> bool" where
  "gm_ok m \<longleftrightarrow> distinct (map fst m)"

definition gm_range :: "order \<Rightarrow> 'v gomap \<Rightarrow> (string \<times> 'v) list" where
  "gm_range \<rho> m = List.map_filter (\<lambda>k. map_option (Pair k) (map_of m k)) (\<rho> (map fst m))"

section \<open>Strings\<close>

definition is_space :: "char \<Rightarrow> bool" where
  "is_space c \<longleftrightarrow> c \<in> {CHR 0x09, CHR 0x0A, CHR 0x0B, CHR 0x0C, CHR 0x0D, CHR 0x20}"

definition TrimSpace :: "string \<Rightarrow> string" where
  "TrimSpace s = rev (dropWhile is_space (rev (dropWhile is_space s)))"

text \<open>\<open>strings.Title\<close> on ASCII text: a letter after a separator becomes upper case.\<close>

definition between :: "char \<Rightarrow> char \<Rightarrow> char \<Rightarrow> bool" where
  "between lo hi c \<longleftrightarrow> (of_char lo :: nat) \<le> of_char c \<and> (of_char c :: nat) \<le> of_char hi"

definition is_separator :: "char \<Rightarrow> bool" where
  "is_separator c \<longleftrightarrow>
     \<not> (between CHR ''0'' CHR ''9'' c \<or> between CHR ''a'' CHR ''z'' c \<or>
        between CHR ''A'' CHR ''Z'' c \<or> c = CHR ''_'')"

definition to_title :: "char \<Rightarrow> char" where
  "to_title c = (if between CHR ''a'' CHR ''z'' c then char_of ((of_char c :: nat) - 32) else c)"

fun title_from :: "bool \<Rightarrow> string \<Rightarrow> string" where
  "title_from sep [] = []"
| "title_from sep (c # cs) = (if sep then to_title c else c) # title_from (is_separator c) cs"

definition Title :: "string \<Rightarrow> string" where
  "Title s = title_from True s"

definition HasPrefix :: "string \<Rightarrow> string \<Rightarrow> bool" where
  "HasPrefix s p \<longleftrightarrow> take (length p) s = p"

definition HasSuffix :: "string \<Rightarrow> string \<Rightarrow> bool" where
  "HasSuffix s p \<longleftrightarrow> length p \<le> length s \<and> drop (length s - length p) s = p"

definition TrimSuffix :: "string \<Rightarrow> string \<Rightarrow> string" where
  "TrimSuffix s p = (if HasSuffix s p then take (length s - length p) s else s)"

fun Join :: "string list \<Rightarrow> string \<Rightarrow> string" where
  "Join [] sep = []"
| "Join [x] sep = x"
| "Join (x # y # xs) sep = x @ sep @ Join (y # xs) sep"

text \<open>
  \<open>strings.Split\<close> for a separator that is not empty: \<open>cur\<close> is the piece read so far.
\<close>

function split_from :: "string \<Rightarrow> string \<Rightarrow> string \<Rightarrow> string list" where
  "split_from sep cur s =
     (if s = [] then [cur]
      else if sep \<noteq> [] \<and> HasPrefix s sep then cur # split_from sep [] (drop (length sep) s)
      else split_from sep (cur @ [hd s]) (tl s))"
  by pat_completeness auto
termination
  by (relation "measure (\<lambda>(sep, cur, s). length s)") (auto simp: neq_Nil_conv)

definition Split :: "string \<Rightarrow> string \<Rightarrow> string list" where
  "Split s sep = split_from sep [] s"

text \<open>Digits, \<open>%d\<close>, \<open>%x\<close> and \<open>%q\<close>.\<close>

definition hexdigit :: "nat \<Rightarrow> char" where
  "hexdigit n = (if n < 16 then ''0123456789abcdef'' ! n else CHR ''?'')"

function digits_in :: "nat \<Rightarrow> nat \<Rightarrow> string" where
  "digits_in b n =
     (if n < b \<or> b < 2 then [hexdigit n] else digits_in b (n div b) @ [hexdigit (n mod b)])"
  by pat_completeness auto
termination
  by (relation "measure snd") auto

definition itoa :: "int \<Rightarrow> string" where
  "itoa i = (if i < 0 then CHR ''-'' # digits_in 10 (nat (- i)) else digits_in 10 (nat i))"

definition quote_char :: "char \<Rightarrow> string" where
  "quote_char c =
     (if c = CHR 0x22 then [CHR 0x5C, CHR 0x22]
      else if c = CHR 0x5C then [CHR 0x5C, CHR 0x5C]
      else if c = CHR 0x07 then [CHR 0x5C, CHR ''a'']
      else if c = CHR 0x08 then [CHR 0x5C, CHR ''b'']
      else if c = CHR 0x0C then [CHR 0x5C, CHR ''f'']
      else if c = CHR 0x0A then [CHR 0x5C, CHR ''n'']
      else if c = CHR 0x0D then [CHR 0x5C, CHR ''r'']
      else if c = CHR 0x09 then [CHR 0x5C, CHR ''t'']
      else if c = CHR 0x0B then [CHR 0x5C, CHR ''v'']
      else if of_char c < (32 :: nat) \<or> c = CHR 0x7F
        then [CHR 0x5C, CHR ''x'', hexdigit (of_char c div 16), hexdigit (of_char c mod 16)]
      else [c])"

definition quote :: "string \<Rightarrow> string" where
  "quote s = CHR 0x22 # concat (map quote_char s) @ [CHR 0x22]"

text \<open>\<open>fmt\<close> prints a map with its keys sorted.\<close>

definition fmt_map :: "('v \<Rightarrow> string) \<Rightarrow> 'v gomap \<Rightarrow> string" where
  "fmt_map f m =
     ''map['' @ Join (map (\<lambda>(k, v). k @ '':'' @ f v) (sort_key fst m)) '' '' @ '']''"

definition fmt_slice :: "('v \<Rightarrow> string) \<Rightarrow> 'v list \<Rightarrow> string" where
  "fmt_slice f xs = ''['' @ Join (map f xs) '' '' @ '']''"

section \<open>Machine integers\<close>

type_synonym int64 = "64 word"
type_synonym uint32 = "32 word"

declare split_from.simps [simp del] and digits_in.simps [simp del]

section \<open>Library lemmas\<close>

subsection \<open>State and panics\<close>

lemma gbind_gret [simp]: "gbind (gret a) f = f a"
  by (simp add: gom_defs)

lemma gbind_gpanic [simp]: "gbind (gpanic p) f = gpanic p"
  by (simp add: gom_defs)

lemma gbind_assoc: "gbind (gbind m f) g = gbind m (\<lambda>x. gbind (f x) g)"
  by (auto simp: gom_defs fun_eq_iff split: outcome.splits prod.splits)

lemma gret_apply [simp]: "gret a s = (Ret a, s)"
  by (simp add: gom_defs)

lemma gpanic_apply [simp]: "gpanic p s = (Panic p, s)"
  by (simp add: gom_defs)

lemma gmodify_apply [simp]: "gmodify f s = (Ret (), f s)"
  by (simp add: gom_defs)

lemma gget_apply [simp]: "gget f s = (Ret (f s), s)"
  by (simp add: gom_defs)

lemma gbind_Ret: "m s = (Ret a, s') \<Longrightarrow> gbind m f s = f a s'"
  by (simp add: gom_defs)

lemma gbind_Panic: "m s = (Panic p, s') \<Longrightarrow> gbind m f s = (Panic p, s')"
  by (simp add: gom_defs)

text \<open>A property of states that both halves of a sequence keep is kept by the sequence.\<close>

definition gpreserves :: "('s \<Rightarrow> bool) \<Rightarrow> ('s, 'a) gom \<Rightarrow> bool" where
  "gpreserves I m \<longleftrightarrow> (\<forall>s. I s \<longrightarrow> I (snd (m s)))"

lemma gpreservesI [intro?]: "(\<And>s. I s \<Longrightarrow> I (snd (m s))) \<Longrightarrow> gpreserves I m"
  by (simp add: gpreserves_def)

lemma gpreservesD: "gpreserves I m \<Longrightarrow> I s \<Longrightarrow> I (snd (m s))"
  by (simp add: gpreserves_def)

lemma gpreserves_gret [intro, simp]: "gpreserves I (gret a)"
  by (simp add: gpreserves_def)

lemma gpreserves_gpanic [intro, simp]: "gpreserves I (gpanic p)"
  by (simp add: gpreserves_def)

lemma gpreserves_gget [intro, simp]: "gpreserves I (gget f)"
  by (simp add: gpreserves_def)

lemma gpreserves_gbind [intro]:
  assumes "gpreserves I m" and "\<And>a. gpreserves I (f a)"
  shows "gpreserves I (gbind m f)"
proof
  fix s assume "I s"
  with assms(1) have "I (snd (m s))" by (rule gpreservesD)
  then show "I (snd (gbind m f s))"
    using assms(2) by (auto simp: gbind_def gpreserves_def split: prod.splits outcome.splits)
qed

lemma gbind_inv:
  assumes "I s" and "\<And>s. I s \<Longrightarrow> I (snd (m s))" and "\<And>a s. I s \<Longrightarrow> I (snd (f a s))"
  shows "I (snd (gbind m f s))"
  using assms(2) [OF assms(1)] assms(3)
  by (auto simp: gbind_def split: prod.splits outcome.splits)

lemma grecover_inv: "I (snd (m s)) \<Longrightarrow> I (snd (grecover z m s))"
  by (auto simp: grecover_def split: prod.splits outcome.splits)

lemma grecover_returns: "\<exists>a. fst (grecover z m s) = Ret a"
  by (auto simp: grecover_def split: prod.splits outcome.splits)

text \<open>
  Total correctness: the code returns, without a panic, and the result and the state it
  reaches satisfy \<open>Q\<close>.
\<close>

definition returns :: "('s, 'a) gom \<Rightarrow> 's \<Rightarrow> ('a \<Rightarrow> 's \<Rightarrow> bool) \<Rightarrow> bool" where
  "returns m s Q \<longleftrightarrow> (case m s of (Ret a, s') \<Rightarrow> Q a s' | (Panic p, s') \<Rightarrow> False)"

lemma returns_simps [simp]:
  "returns (gret a) s Q \<longleftrightarrow> Q a s"
  "returns (gpanic p) s Q \<longleftrightarrow> False"
  "returns (gmodify f) s Q' \<longleftrightarrow> Q' () (f s)"
  "returns (gget g) s Q'' \<longleftrightarrow> Q'' (g s) s"
  by (simp_all add: returns_def gom_defs)

lemma returns_gbind [simp]:
  "returns (gbind m f) s Q \<longleftrightarrow> returns m s (\<lambda>a s'. returns (f a) s' Q)"
  by (auto simp: returns_def gom_defs split: prod.splits outcome.splits)

lemma returns_mono: "returns m s Q \<Longrightarrow> (\<And>a s'. Q a s' \<Longrightarrow> R a s') \<Longrightarrow> returns m s R"
  by (auto simp: returns_def split: prod.splits outcome.splits)

lemma returnsE:
  assumes "returns m s Q"
  obtains a s' where "m s = (Ret a, s')" and "Q a s'"
  using assms by (auto simp: returns_def split: prod.splits outcome.splits)

lemma returns_Ret: "m s = (Ret a, s') \<Longrightarrow> returns m s Q \<longleftrightarrow> Q a s'"
  by (simp add: returns_def)

lemma returns_ethen [simp]:
  "returns (ethen m n) s Q \<longleftrightarrow>
     returns m s (\<lambda>err s'. case err of Some e \<Rightarrow> Q (Some e) s' | None \<Rightarrow> returns n s' Q)"
  by (auto simp: ethen_def returns_def gom_defs split: prod.splits outcome.splits option.splits)

lemma gbind_RetD:
  "gbind m f s = (Ret b, s') \<longleftrightarrow> (\<exists>a t. m s = (Ret a, t) \<and> f a t = (Ret b, s'))"
  by (auto simp: gbind_def split: prod.splits outcome.splits)

lemma ethen_RetNone:
  "ethen m n s = (Ret None, s') \<longleftrightarrow> (\<exists>t. m s = (Ret None, t) \<and> n t = (Ret None, s'))"
  by (auto simp: ethen_def gbind_RetD split: option.splits)

lemma ethen_inv:
  assumes "I s" and "\<And>s. I s \<Longrightarrow> I (snd (m s))" and "\<And>s. I s \<Longrightarrow> I (snd (n s))"
  shows "I (snd (ethen m n s))"
  unfolding ethen_def
proof (rule gbind_inv [of I, OF assms(1,2)])
  fix err t assume "I t"
  then show "I (snd ((case err of Some e \<Rightarrow> gret (Some e) | None \<Rightarrow> n) t))"
    using assms(3) by (cases err) simp_all
qed

lemma efor_inv:
  assumes "I s" and "\<And>x s. I s \<Longrightarrow> I (snd (f x s))"
  shows "I (snd (efor f xs s))"
  using assms(1)
proof (induction xs arbitrary: s)
  case (Cons x xs)
  show ?case unfolding efor.simps by (rule ethen_inv [of I, OF Cons.prems assms(2) Cons.IH])
qed simp

lemma efor_None:
  assumes "\<And>x s. x \<in> set xs \<Longrightarrow> f x s = (Ret None, g x s)"
  shows "efor f xs s = (Ret None, fold g xs s)"
  using assms by (induction xs arbitrary: s) (auto simp: ethen_def gbind_def)

lemma ebind_simps [simp]:
  "ebind (Ret (Inr a)) f = f a" "ebind (Ret (Inl e)) f = Ret (Inl e)" "ebind (Panic p) f = Panic p"
  by (simp_all add: ebind_def)

lemma ebind_Inr:
  "ebind m f = Ret (Inr b) \<longleftrightarrow> (\<exists>a. m = Ret (Inr a) \<and> f a = Ret (Inr b))"
  by (auto simp: ebind_def split: outcome.split sum.split)

lemma ebind_Panic:
  "ebind m f = Panic p \<longleftrightarrow> m = Panic p \<or> (\<exists>a. m = Ret (Inr a) \<and> f a = Panic p)"
  by (auto simp: ebind_def split: outcome.split sum.split)

lemma emap_Inr:
  "emap f xs = Ret (Inr ys) \<longleftrightarrow> list_all2 (\<lambda>x y. f x = Ret (Inr y)) xs ys"
  by (induction xs arbitrary: ys) (auto simp: ebind_Inr list_all2_Cons1)

lemma emap_no_Panic:
  "(\<And>x p. x \<in> set xs \<Longrightarrow> f x \<noteq> Panic p) \<Longrightarrow> emap f xs \<noteq> Panic p"
  by (induction xs) (auto simp: ebind_Panic)

subsection \<open>Maps\<close>

lemma rng_ok_id: "rng_ok (\<lambda>ks. ks)"
  by (simp add: rng_ok_def)

lemma rng_ok_rev: "rng_ok rev"
  by (simp add: rng_ok_def)

lemma rng_ok_set: "rng_ok \<rho> \<Longrightarrow> set (\<rho> ks) = set ks"
  by (metis rng_ok_def set_mset_mset)

lemma rng_ok_distinct: "rng_ok \<rho> \<Longrightarrow> distinct (\<rho> ks) = distinct ks"
  by (metis rng_ok_def mset_eq_imp_distinct_iff)

lemma gm_ok_Nil [simp]: "gm_ok []"
  by (simp add: gm_ok_def)

lemma gm_ok_single [simp]: "gm_ok [x]"
  by (simp add: gm_ok_def)

lemma gm_ok_update [simp]: "gm_ok m \<Longrightarrow> gm_ok (AList.update k v m)"
  by (simp add: gm_ok_def distinct_update)

lemma gm_ok_delete [simp]: "gm_ok m \<Longrightarrow> gm_ok (AList.delete k m)"
  by (simp add: gm_ok_def distinct_delete)

lemma finite_ran_map_of [simp]: "finite (ran (map_of m))"
proof -
  have "ran (map_of m) \<subseteq> snd ` set m" by (force simp: ran_def dest: map_of_SomeD)
  then show ?thesis by (rule finite_subset) simp
qed

lemma gm_ok_map_of: "gm_ok m \<Longrightarrow> map_of m k = Some v \<longleftrightarrow> (k, v) \<in> set m"
  by (simp add: gm_ok_def)

lemma map_of_update [simp]: "map_of (AList.update k v m) = (map_of m)(k \<mapsto> v)"
  by (simp add: update_conv')

lemma map_of_delete [simp]: "map_of (AList.delete k m) = (map_of m)(k := None)"
  by (simp add: delete_conv')

lemma set_gm_range_iff:
  "(k, v) \<in> set (gm_range \<rho> m) \<longleftrightarrow> k \<in> set (\<rho> (map fst m)) \<and> map_of m k = Some v"
  by (auto simp: gm_range_def List.map_filter_def image_iff)

lemma gm_range_map_of:
  assumes "rng_ok \<rho>"
  shows "(k, v) \<in> set (gm_range \<rho> m) \<longleftrightarrow> map_of m k = Some v"
proof -
  have "k \<in> fst ` set m" if "map_of m k = Some v"
    using that by (force dest: map_of_SomeD)
  then show ?thesis
    using rng_ok_set [OF assms, of "map fst m"] by (auto simp: set_gm_range_iff)
qed

lemma gm_range_subset: "(k, v) \<in> set (gm_range \<rho> m) \<Longrightarrow> map_of m k = Some v"
  by (simp add: set_gm_range_iff)

lemma set_gm_range: "rng_ok \<rho> \<Longrightarrow> gm_ok m \<Longrightarrow> set (gm_range \<rho> m) = set m"
  by (auto simp: gm_range_map_of gm_ok_map_of)

lemma gm_range_keys: "rng_ok \<rho> \<Longrightarrow> map fst (gm_range \<rho> m) = \<rho> (map fst m)"
proof -
  assume ok: "rng_ok \<rho>"
  have "map fst (List.map_filter (\<lambda>k. map_option (Pair k) (map_of m k)) ks) = ks"
    if "set ks \<subseteq> fst ` set m" for ks
    using that
  proof (induction ks)
    case (Cons k ks)
    then obtain v where "map_of m k = Some v"
      by (metis insert_subset list.simps(15) map_of_eq_None_iff not_None_eq)
    with Cons show ?case by (simp add: List.map_filter_def)
  qed (simp add: List.map_filter_def)
  then show ?thesis
    using rng_ok_set [OF ok, of "map fst m"] by (simp add: gm_range_def)
qed

lemma distinct_gm_range: "rng_ok \<rho> \<Longrightarrow> gm_ok m \<Longrightarrow> distinct (map fst (gm_range \<rho> m))"
  by (simp add: gm_range_keys rng_ok_distinct gm_ok_def)

lemma mset_gm_range:
  assumes "rng_ok \<rho>" and "gm_ok m"
  shows "mset (gm_range \<rho> m) = mset m"
proof -
  have "distinct (gm_range \<rho> m)"
    using distinct_gm_range [OF assms] by (simp add: distinct_map)
  moreover have "distinct m"
    using assms(2) by (simp add: gm_ok_def distinct_map)
  ultimately show ?thesis
    using set_gm_range [OF assms] by (simp add: set_eq_iff_mset_eq_distinct)
qed

lemma map_of_gm_range [simp]: "rng_ok \<rho> \<Longrightarrow> gm_ok m \<Longrightarrow> map_of (gm_range \<rho> m) = map_of m"
proof
  fix k assume ok: "rng_ok \<rho>" "gm_ok m"
  then have "map_of (gm_range \<rho> m) k = Some v \<longleftrightarrow> map_of m k = Some v" for v
    by (simp add: gm_range_map_of distinct_gm_range)
  then show "map_of (gm_range \<rho> m) k = map_of m k" by (metis not_None_eq)
qed

lemma map_of_rev_distinct: "distinct (map fst m) \<Longrightarrow> map_of (rev m) = map_of m"
  by (rule map_of_eqI) (auto simp: rev_map simp flip: rev_map)

text \<open>Copying a map pair by pair, applying \<open>f\<close> to the values.\<close>

definition gm_copy :: "order \<Rightarrow> ('v \<Rightarrow> 'w) \<Rightarrow> 'v gomap \<Rightarrow> 'w gomap" where
  "gm_copy \<rho> f m = fold (\<lambda>(k, v). AList.update k (f v)) (gm_range \<rho> m) []"

lemma fold_update_map_of:
  "map_of (fold (\<lambda>(k, v). AList.update k (f v)) kvs m) = map_of m ++ (map_option f \<circ> map_of (rev kvs))"
  by (induction kvs arbitrary: m) (auto simp: map_add_def fun_eq_iff split: option.split)

lemma fold_update_gm_ok: "gm_ok m \<Longrightarrow> gm_ok (fold (\<lambda>(k, v). AList.update k (f v)) kvs m)"
  by (induction kvs arbitrary: m) auto

lemma gm_ok_gm_copy [simp]: "gm_ok (gm_copy \<rho> f m)"
  by (simp add: gm_copy_def fold_update_gm_ok)

lemma map_of_gm_copy [simp]:
  "rng_ok \<rho> \<Longrightarrow> gm_ok m \<Longrightarrow> map_of (gm_copy \<rho> f m) = map_option f \<circ> map_of m"
  by (simp add: gm_copy_def fold_update_map_of map_of_rev_distinct distinct_gm_range)

lemma sort_key_mset_cong:
  assumes "gm_ok m" and "mset m = mset m'"
  shows "sort_key fst m = sort_key fst m'"
proof (rule properties_for_sort_key)
  show "mset (sort_key fst m') = mset m" using assms(2) by simp
  show "sorted (map fst (sort_key fst m'))" by (rule sorted_sort_key)
next
  fix x assume "x \<in> set (sort_key fst m')"
  have inj: "inj_on fst (set m)" using assms(1) by (simp add: gm_ok_def distinct_map)
  have d: "distinct m" "distinct m'"
    using assms by (auto simp: gm_ok_def distinct_map dest: mset_eq_imp_distinct_iff)
  have st: "set m = set m'" using assms(2) by (rule mset_eq_setD)
  have key: "filter (\<lambda>y. fst x = fst y) xs = (if x \<in> set xs then [x] else [])"
    if "distinct xs" and "inj_on fst (insert x (set xs))" for xs
    using that by (induction xs) (auto simp: inj_on_def filter_empty_conv)
  from \<open>x \<in> set (sort_key fst m')\<close> st have "x \<in> set m" by simp
  with inj st have "inj_on fst (insert x (set m))" by (simp add: insert_absorb)
  then show "filter (\<lambda>y. fst x = fst y) (sort_key fst m') = filter (\<lambda>y. fst x = fst y) m"
    using key [of m] key [of "sort_key fst m'"] d st by simp
qed

lemma fmt_map_cong: "gm_ok m \<Longrightarrow> mset m = mset m' \<Longrightarrow> fmt_map f m = fmt_map f m'"
  by (simp add: fmt_map_def sort_key_mset_cong)

subsection \<open>Strings\<close>

lemma HasPrefix_append [simp]: "HasPrefix (p @ s) p"
  by (simp add: HasPrefix_def)

lemma HasPrefix_conv: "HasPrefix s p \<longleftrightarrow> (\<exists>r. s = p @ r)"
  unfolding HasPrefix_def by (metis append_eq_conv_conj append_take_drop_id)

lemma TrimSpace_id:
  assumes "\<forall>c \<in> set s. \<not> is_space c"
  shows "TrimSpace s = s"
proof -
  have *: "dropWhile is_space xs = xs" if "\<forall>c \<in> set xs. \<not> is_space c" for xs
    using that by (cases xs) auto
  show ?thesis using * [of s] * [of "rev s"] assms by (simp add: TrimSpace_def)
qed

lemma split_from_Nil [simp]: "split_from sep cur [] = [cur]"
  by (simp add: split_from.simps)

lemma split_from_char [simp]:
  "split_from [c] cur (x # s) =
     (if x = c then cur # split_from [c] [] s else split_from [c] (cur @ [x]) s)"
  by (subst split_from.simps) (simp add: HasPrefix_def)

lemma split_from_char_append:
  "split_from [c] cur (a @ c # b) = split_from [c] cur a @ split_from [c] [] b"
  by (induction a arbitrary: cur) auto

lemma Split_append: "Split (a @ c # b) [c] = Split a [c] @ Split b [c]"
  by (simp add: Split_def split_from_char_append)

lemma split_from_char_free: "c \<notin> set s \<Longrightarrow> split_from [c] cur s = [cur @ s]"
  by (induction s arbitrary: cur) auto

lemma Split_free: "c \<notin> set s \<Longrightarrow> Split s [c] = [s]"
  by (simp add: Split_def split_from_char_free)

lemma split_from_not_Nil: "split_from sep cur s \<noteq> []"
  by (induction sep cur s rule: split_from.induct) (subst split_from.simps, simp)

lemma Split_not_Nil [simp]: "Split s sep \<noteq> []"
  by (simp add: Split_def split_from_not_Nil)

lemma Join_Cons: "xs \<noteq> [] \<Longrightarrow> Join (x # xs) sep = x @ sep @ Join xs sep"
  by (cases xs) auto

text \<open>Joining the pieces with the separator gives the string back.\<close>

lemma Join_split_from: "Join (split_from sep cur s) sep = cur @ s"
proof (induction sep cur s rule: split_from.induct)
  case (1 sep cur s)
  consider "s = []" | "s \<noteq> []" "sep \<noteq> []" "HasPrefix s sep"
    | "s \<noteq> []" "\<not> (sep \<noteq> [] \<and> HasPrefix s sep)" by blast
  then show ?case
  proof cases
    case 2
    then have "sep @ drop (length sep) s = s"
      by (metis HasPrefix_def append_take_drop_id)
    with 2 show ?thesis
      using "1.IH"(1) by (simp add: split_from.simps [of sep cur s] Join_Cons split_from_not_Nil)
  next
    case 3
    then show ?thesis
      using "1.IH"(2) by (auto simp add: split_from.simps [of sep cur s])
  qed simp
qed

lemma Join_Split: "Join (Split s sep) sep = s"
  by (simp add: Split_def Join_split_from)

lemma length_split_from_char: "length (split_from [c] cur s) = Suc (count_list s c)"
  by (induction s arbitrary: cur) auto

lemma length_Split_char: "length (Split s [c]) = Suc (count_list s c)"
  by (simp add: Split_def length_split_from_char)

lemma split_from_char_pieces:
  "c \<notin> set cur \<Longrightarrow> x \<in> set (split_from [c] cur s) \<Longrightarrow> c \<notin> set x"
proof (induction s arbitrary: cur)
  case (Cons a s)
  show ?case using Cons.prems Cons.IH [of "[]"] Cons.IH [of "cur @ [a]"] by (cases "a = c") auto
qed simp

lemma Split_char_pieces: "x \<in> set (Split s [c]) \<Longrightarrow> c \<notin> set x"
  using split_from_char_pieces [of c "[]" x s] by (simp add: Split_def)

lemma Split_Join_char:
  assumes "xs \<noteq> []" and "\<forall>x \<in> set xs. c \<notin> set x"
  shows "Split (Join xs [c]) [c] = xs"
  using assms
proof (induction xs)
  case (Cons x xs)
  then show ?case
    using Split_append [of x c] by (cases "xs = []") (simp_all add: Split_free Join_Cons)
qed simp

subsection \<open>Digits\<close>

lemma digits_in_not_Nil [simp]: "digits_in b n \<noteq> []"
  by (subst digits_in.simps) simp

lemma digits_in_set:
  assumes "2 \<le> b"
  shows "set (digits_in b n) \<subseteq> hexdigit ` {..<b}"
  using assms
proof (induction b n rule: digits_in.induct)
  case (1 b n)
  then show ?case by (subst digits_in.simps) (auto intro: image_eqI)
qed

lemma digits_in_length: "2 \<le> b \<Longrightarrow> n < b ^ Suc k \<Longrightarrow> length (digits_in b n) \<le> Suc k"
proof (induction k arbitrary: n)
  case 0
  then show ?case by (subst digits_in.simps) simp
next
  case (Suc k)
  then have "n div b < b ^ Suc k"
    by (simp add: less_mult_imp_div_less mult.commute)
  with Suc show ?case by (subst digits_in.simps) auto
qed

lemma hexdigit_range:
  assumes "n < 16"
  shows "hexdigit n \<in> set ''0123456789abcdef''"
proof -
  from assms have "n < length ''0123456789abcdef''" by simp
  then have "''0123456789abcdef'' ! n \<in> set ''0123456789abcdef''" by (rule nth_mem)
  with assms show ?thesis by (simp only: hexdigit_def if_True)
qed

end
