(* ===== verification/Addon_Types.thy ===== *)
theory Addon_Types
  imports Go_Prelude
begin

text \<open>
  The Addon API types of \<^verbatim>\<open>api/addon/v1alpha1/addon_types.go\<close> and the constants of
  \<^verbatim>\<open>api/addon/const.go\<close>: one record per struct, string types with their constants, one
  definition per method. The status setters return the changed addon. The lemmas show
  what each setter does on every branch, that no setter touches what the checksum and
  the workflow names are computed from, that the checksum depends on the contents of the
  spec's maps only, and that checksums are short lower-case hexadecimal strings.
\<close>

section \<open>Constants of api/addon\<close>

definition Group :: string where "Group = ''addonmgr.keikoproj.io''"
definition ManagedNameSpace :: string where "ManagedNameSpace = ''addon-manager-system''"
definition FinalizerName :: string where "FinalizerName = ''delete.addonmgr.keikoproj.io''"
definition ResourceDefaultManageByLabel :: string where
  "ResourceDefaultManageByLabel = ''app.kubernetes.io/managed-by''"
definition ResourceDefaultOwnLabel :: string where
  "ResourceDefaultOwnLabel = ''app.kubernetes.io/name''"
definition ResourceDefaultPartLabel :: string where
  "ResourceDefaultPartLabel = ''app.kubernetes.io/part-of''"
definition ResourceDefaultVersionLabel :: string where
  "ResourceDefaultVersionLabel = ''app.kubernetes.io/version''"

text \<open>\<open>TTL.Milliseconds()\<close> and \<open>TTL.String()\<close> of one hour.\<close>

definition TTL_Milliseconds :: int64 where "TTL_Milliseconds = 3600000"
definition TTL_String :: string where "TTL_String = ''1h0m0s''"

section \<open>Types\<close>

type_synonym FlexString = string
type_synonym PackageType = string
type_synonym ApplicationAssemblyPhase = string
type_synonym LifecycleStep = string

record ClusterContext =
  ClusterName :: string
  ClusterRegion :: string
  AdditionalConfigs :: "FlexString gomap"

record AddonParams =
  Params_Namespace :: string
  Params_Context :: ClusterContext
  Params_Data :: "FlexString gomap"

record KustomizeTemplate =
  Overlay_Template :: "string gomap"

record KustomizeSpec =
  Kustomize_Labels :: "string gomap"
  Kustomize_Annotations :: "string gomap"
  Kustomize_Resources :: "string list"
  Kustomize_Overlay :: KustomizeTemplate

record AddonOverridesSpec =
  Overrides_Kustomize :: KustomizeSpec
  Overrides_Template :: "string gomap"

record SecretCmdSpec =
  Secret_Name :: string
  Secret_Cmd :: int64
  Secret_Args :: "string list"

record WorkflowType =
  NamePrefix :: string
  Role :: string
  WorkflowRole :: string
  Template :: string

record LifecycleWorkflowSpec =
  Lifecycle_Prereqs :: WorkflowType
  Lifecycle_Install :: WorkflowType
  Lifecycle_Delete :: WorkflowType
  Lifecycle_Validate :: WorkflowType

record PackageSpec =
  PkgChannel :: string
  PkgName :: string
  PkgVersion :: string
  PkgType :: PackageType
  PkgDescription :: string
  PkgDeps :: "string gomap"

text \<open>The label selector of \<open>metav1\<close>, as the addon CRD spells it out.\<close>

record LabelSelectorRequirement =
  Req_Key :: string
  Req_Operator :: string
  Req_Values :: "string list"

record LabelSelector =
  MatchLabels :: "string gomap"
  MatchExpressions :: "LabelSelectorRequirement list"

record AddonSpec =
  Spec_PackageSpec :: PackageSpec
  Spec_Params :: AddonParams
  Spec_Selector :: LabelSelector
  Spec_Overrides :: AddonOverridesSpec
  Spec_Secrets :: "SecretCmdSpec list"
  Spec_Lifecycle :: LifecycleWorkflowSpec

record AddonStatusLifecycle =
  Status_Prereqs :: ApplicationAssemblyPhase
  Status_Installed :: ApplicationAssemblyPhase

record ObjectStatus =
  Object_Link :: string
  Object_Name :: string
  Object_Kind :: string
  Object_Group :: string
  Object_Status :: string

record AddonStatus =
  Checksum :: string
  Status_Lifecycle :: AddonStatusLifecycle
  Resources :: "ObjectStatus list"
  Reason :: string
  StartTime :: int64

text \<open>
  The fields of \<open>metav1.ObjectMeta\<close> the code reads or writes. \<open>DeletionTimestamp\<close>
  is \<open>None\<close> when \<open>IsZero()\<close>.
\<close>

record ObjectMeta =
  Meta_Name :: string
  Meta_Namespace :: string
  DeletionTimestamp :: "int64 option"
  Finalizers :: "string list"
  ResourceVersion :: nat

record Addon =
  Addon_Meta :: ObjectMeta
  Spec :: AddonSpec
  Status :: AddonStatus

abbreviation GetName :: "Addon \<Rightarrow> string" where
  "GetName a \<equiv> Meta_Name (Addon_Meta a)"
abbreviation GetNamespace :: "Addon \<Rightarrow> string" where
  "GetNamespace a \<equiv> Meta_Namespace (Addon_Meta a)"

subsection \<open>Package types, phases and lifecycle steps\<close>

definition HelmPkg :: PackageType where "HelmPkg = ''helm''"
definition ShipPkg :: PackageType where "ShipPkg = ''ship''"
definition KustomizePkg :: PackageType where "KustomizePkg = ''kustomize''"
definition CnabPkg :: PackageType where "CnabPkg = ''cnab''"
definition CompositePkg :: PackageType where "CompositePkg = ''composite''"

definition Pending :: ApplicationAssemblyPhase where "Pending = ''Pending''"
definition Succeeded :: ApplicationAssemblyPhase where "Succeeded = ''Succeeded''"
definition Failed :: ApplicationAssemblyPhase where "Failed = ''Failed''"
definition ValidationFailed :: ApplicationAssemblyPhase where
  "ValidationFailed = ''Validation Failed''"
definition Deleting :: ApplicationAssemblyPhase where "Deleting = ''Deleting''"
definition DeleteFailed :: ApplicationAssemblyPhase where "DeleteFailed = ''Delete Failed''"
definition DeleteSucceeded :: ApplicationAssemblyPhase where
  "DeleteSucceeded = ''Delete Succeeded''"

definition Prereqs :: LifecycleStep where "Prereqs = ''prereqs''"
definition Install :: LifecycleStep where "Install = ''install''"
definition Delete :: LifecycleStep where "Delete = ''delete''"
definition Validate :: LifecycleStep where "Validate = ''validate''"

definition phase_Succeeded :: "ApplicationAssemblyPhase \<Rightarrow> bool" where
  "phase_Succeeded p \<longleftrightarrow> p = Succeeded \<or> p = DeleteSucceeded"

definition phase_Failed :: "ApplicationAssemblyPhase \<Rightarrow> bool" where
  "phase_Failed p \<longleftrightarrow> p = Failed \<or> p = DeleteFailed"

definition phase_Completed :: "ApplicationAssemblyPhase \<Rightarrow> bool" where
  "phase_Completed p \<longleftrightarrow> phase_Succeeded p \<or> phase_Failed p"

definition phase_Deleting :: "ApplicationAssemblyPhase \<Rightarrow> bool" where
  "phase_Deleting p \<longleftrightarrow> p = Deleting \<or> p = DeleteFailed \<or> p = DeleteSucceeded"

definition phase_Running :: "ApplicationAssemblyPhase \<Rightarrow> bool" where
  "phase_Running p \<longleftrightarrow> p = Pending \<or> p = ValidationFailed"

section \<open>Methods\<close>

subsection \<open>FlexString\<close>

text \<open>
  \<open>json.Unmarshal\<close> of \<open>k8s.io/apimachinery\<close> into a string, a bool and an int is not
  code of this repository: it is an argument.
\<close>

record json_lib =
  Unmarshal_string :: "string \<Rightarrow> goerr + string"
  Unmarshal_bool :: "string \<Rightarrow> goerr + bool"
  Unmarshal_int :: "string \<Rightarrow> goerr + int"

definition FlexString_UnmarshalJSON :: "json_lib \<Rightarrow> string \<Rightarrow> (goerr + FlexString) outcome" where
  "FlexString_UnmarshalJSON J b =
     (case b of
        [] \<Rightarrow> Panic ''index out of range''
      | c # _ \<Rightarrow>
          if c = CHR 0x22 then Ret (Unmarshal_string J b)
          else (case Unmarshal_bool J b of
                  Inr bo \<Rightarrow> Ret (Inr (if bo then ''true'' else ''false''))
                | Inl _ \<Rightarrow>
                    (case Unmarshal_int J b of
                       Inr i \<Rightarrow> Ret (Inr (itoa i))
                     | Inl _ \<Rightarrow>
                         Ret (Inl (Errorf ''unable to unmarshal from bool or int into string'')))))"

subsection \<open>Package, parameters, workflow types\<close>

definition GetPackageSpec :: "Addon \<Rightarrow> PackageSpec" where
  "GetPackageSpec a =
     (let p = Spec_PackageSpec (Spec a)
      in \<lparr>PkgChannel = PkgChannel p, PkgName = PkgName p, PkgVersion = PkgVersion p,
          PkgType = PkgType p, PkgDescription = PkgDescription p, PkgDeps = PkgDeps p\<rparr>)"

text \<open>The two \<open>range\<close> loops store every pair of a map into the parameters.\<close>

definition store_all :: "(string \<times> string) list \<Rightarrow> string gomap \<Rightarrow> string gomap" where
  "store_all kvs m = fold (\<lambda>(k, v). AList.update k v) kvs m"

definition GetAllAddonParameters :: "order \<Rightarrow> Addon \<Rightarrow> string gomap" where
  "GetAllAddonParameters \<rho> a =
     (let ps = Spec_Params (Spec a);
          p0 = [];
          p1 = AList.update ''namespace'' (Params_Namespace ps) p0;
          p2 = AList.update ''clusterName'' (ClusterName (Params_Context ps)) p1;
          p3 = AList.update ''clusterRegion'' (ClusterRegion (Params_Context ps)) p2;
          p4 = store_all (gm_range \<rho> (AdditionalConfigs (Params_Context ps))) p3
      in store_all (gm_range \<rho> (Params_Data ps)) p4)"

definition GetWorkflowType :: "Addon \<Rightarrow> LifecycleStep \<Rightarrow> goerr + WorkflowType" where
  "GetWorkflowType a step =
     (if step = Install then Inr (Lifecycle_Install (Spec_Lifecycle (Spec a)))
      else if step = Prereqs then Inr (Lifecycle_Prereqs (Spec_Lifecycle (Spec a)))
      else if step = Delete then Inr (Lifecycle_Delete (Spec_Lifecycle (Spec a)))
      else if step = Validate then Inr (Lifecycle_Validate (Spec_Lifecycle (Spec a)))
      else Inl (Errorf (''no WorkflowType of type '' @ step @ '' exists'')))"

subsection \<open>Checksum and workflow name\<close>

text \<open>\<open>hash/adler32\<close>: two sums modulo the largest prime below 65536.\<close>

fun adler_update :: "nat \<times> nat \<Rightarrow> string \<Rightarrow> nat \<times> nat" where
  "adler_update (a, b) [] = (a, b)"
| "adler_update (a, b) (c # cs) =
     (let a' = (a + of_char c) mod 65521 in adler_update (a', (b + a') mod 65521) cs)"

definition adler32_Checksum :: "string \<Rightarrow> nat" where
  "adler32_Checksum s = (let (a, b) = adler_update (1, 0) s in b * 65536 + a)"

text \<open>\<open>fmt.Sprintf("%+v", a.Spec)\<close>, struct by struct.\<close>

definition fmt_WorkflowType :: "WorkflowType \<Rightarrow> string" where
  "fmt_WorkflowType w =
     ''{NamePrefix:'' @ NamePrefix w @ '' Role:'' @ Role w @ '' WorkflowRole:'' @ WorkflowRole w
     @ '' Template:'' @ Template w @ ''}''"

definition fmt_Lifecycle :: "LifecycleWorkflowSpec \<Rightarrow> string" where
  "fmt_Lifecycle l =
     ''{Prereqs:'' @ fmt_WorkflowType (Lifecycle_Prereqs l)
     @ '' Install:'' @ fmt_WorkflowType (Lifecycle_Install l)
     @ '' Delete:'' @ fmt_WorkflowType (Lifecycle_Delete l)
     @ '' Validate:'' @ fmt_WorkflowType (Lifecycle_Validate l) @ ''}''"

definition fmt_PackageSpec :: "PackageSpec \<Rightarrow> string" where
  "fmt_PackageSpec p =
     ''{PkgChannel:'' @ PkgChannel p @ '' PkgName:'' @ PkgName p @ '' PkgVersion:'' @ PkgVersion p
     @ '' PkgType:'' @ PkgType p @ '' PkgDescription:'' @ PkgDescription p
     @ '' PkgDeps:'' @ fmt_map id (PkgDeps p) @ ''}''"

definition fmt_Params :: "AddonParams \<Rightarrow> string" where
  "fmt_Params p =
     ''{Namespace:'' @ Params_Namespace p
     @ '' Context:{ClusterName:'' @ ClusterName (Params_Context p)
     @ '' ClusterRegion:'' @ ClusterRegion (Params_Context p)
     @ '' AdditionalConfigs:'' @ fmt_map id (AdditionalConfigs (Params_Context p))
     @ ''} Data:'' @ fmt_map id (Params_Data p) @ ''}''"

definition fmt_Requirement :: "LabelSelectorRequirement \<Rightarrow> string" where
  "fmt_Requirement r =
     ''{Key:'' @ Req_Key r @ '' Operator:'' @ Req_Operator r
     @ '' Values:'' @ fmt_slice id (Req_Values r) @ ''}''"

definition fmt_Selector :: "LabelSelector \<Rightarrow> string" where
  "fmt_Selector l =
     ''{MatchLabels:'' @ fmt_map id (MatchLabels l)
     @ '' MatchExpressions:'' @ fmt_slice fmt_Requirement (MatchExpressions l) @ ''}''"

definition fmt_Overrides :: "AddonOverridesSpec \<Rightarrow> string" where
  "fmt_Overrides ov =
     (let k = Overrides_Kustomize ov
      in ''{Kustomize:{Labels:'' @ fmt_map id (Kustomize_Labels k)
         @ '' Annotations:'' @ fmt_map id (Kustomize_Annotations k)
         @ '' Resources:'' @ fmt_slice id (Kustomize_Resources k)
         @ '' Overlay:{Template:'' @ fmt_map id (Overlay_Template (Kustomize_Overlay k))
         @ ''}} Template:'' @ fmt_map id (Overrides_Template ov) @ ''}'')"

definition fmt_Secret :: "SecretCmdSpec \<Rightarrow> string" where
  "fmt_Secret s =
     ''{Name:'' @ Secret_Name s @ '' Cmd:'' @ itoa (sint (Secret_Cmd s))
     @ '' Args:'' @ fmt_slice id (Secret_Args s) @ ''}''"

definition fmt_Spec :: "AddonSpec \<Rightarrow> string" where
  "fmt_Spec s =
     ''{PackageSpec:'' @ fmt_PackageSpec (Spec_PackageSpec s)
     @ '' Params:'' @ fmt_Params (Spec_Params s)
     @ '' Selector:'' @ fmt_Selector (Spec_Selector s)
     @ '' Overrides:'' @ fmt_Overrides (Spec_Overrides s)
     @ '' Secrets:'' @ fmt_slice fmt_Secret (Spec_Secrets s)
     @ '' Lifecycle:'' @ fmt_Lifecycle (Spec_Lifecycle s) @ ''}''"

definition CalculateChecksum :: "Addon \<Rightarrow> string" where
  "CalculateChecksum a = digits_in 16 (adler32_Checksum (fmt_Spec (Spec a)))"

definition GetFormattedWorkflowName :: "Addon \<Rightarrow> LifecycleStep \<Rightarrow> string" where
  "GetFormattedWorkflowName a lifecycleStep =
     (case GetWorkflowType a lifecycleStep of
        Inl _ \<Rightarrow> []
      | Inr wt \<Rightarrow>
          (let prefix = (if NamePrefix wt \<noteq> [] then GetName a @ ''-'' @ NamePrefix wt
                         else GetName a)
           in prefix @ ''-'' @ lifecycleStep @ ''-'' @ CalculateChecksum a @ ''-wf''))"

subsection \<open>Status\<close>

definition GetInstallStatus :: "Addon \<Rightarrow> ApplicationAssemblyPhase" where
  "GetInstallStatus a = Status_Installed (Status_Lifecycle (Status a))"

definition GetPrereqStatus :: "Addon \<Rightarrow> ApplicationAssemblyPhase" where
  "GetPrereqStatus a = Status_Prereqs (Status_Lifecycle (Status a))"

abbreviation set_Installed :: "ApplicationAssemblyPhase \<Rightarrow> Addon \<Rightarrow> Addon" where
  "set_Installed p \<equiv> Status_update (Status_Lifecycle_update (Status_Installed_update (\<lambda>_. p)))"
abbreviation set_Prereqs :: "ApplicationAssemblyPhase \<Rightarrow> Addon \<Rightarrow> Addon" where
  "set_Prereqs p \<equiv> Status_update (Status_Lifecycle_update (Status_Prereqs_update (\<lambda>_. p)))"
abbreviation set_Reason :: "string \<Rightarrow> Addon \<Rightarrow> Addon" where
  "set_Reason r \<equiv> Status_update (Reason_update (\<lambda>_. r))"

definition SetInstallStatus ::
    "ApplicationAssemblyPhase \<Rightarrow> string list \<Rightarrow> Addon \<Rightarrow> Addon" where
  "SetInstallStatus phase reasons a =
     (let a' = set_Installed phase a
      in if phase = Pending \<or> phase = ValidationFailed \<or> phase = DeleteFailed \<or> phase = Failed
         then set_Reason (Join reasons '', '') a'
         else set_Reason [] a')"

definition SetPrereqAndInstallStatuses ::
    "ApplicationAssemblyPhase \<Rightarrow> string list \<Rightarrow> Addon \<Rightarrow> goerr option \<times> Addon" where
  "SetPrereqAndInstallStatuses phase reasons a =
     (if phase = Pending then (None, SetInstallStatus Pending [] (set_Prereqs Pending a))
      else if phase = Failed then (None, SetInstallStatus Failed reasons (set_Prereqs Failed a))
      else if phase = Succeeded then (None, SetInstallStatus Pending [] (set_Prereqs Succeeded a))
      else (Some (Errorf (''unknown phase '' @ phase @ '', is not supported for prereqs status'')),
            set_Prereqs [] a))"

definition SetStatusByLifecyleStep ::
    "LifecycleStep \<Rightarrow> ApplicationAssemblyPhase \<Rightarrow> string list \<Rightarrow> Addon \<Rightarrow> goerr option \<times> Addon" where
  "SetStatusByLifecyleStep step phase reasons a =
     (if step = Prereqs then SetPrereqAndInstallStatuses phase reasons a
      else if step = Install then (None, SetInstallStatus phase reasons a)
      else if step = Delete then
        (None, if phase = Succeeded then SetInstallStatus DeleteSucceeded reasons a
               else if phase = Failed then SetInstallStatus DeleteFailed reasons a
               else SetInstallStatus phase reasons a)
      else (None, a))"

definition ClearStatus :: "Addon \<Rightarrow> Addon" where
  "ClearStatus a = set_Reason [] (set_Installed [] (set_Prereqs [] a))"

section \<open>Lemmas on phases and steps\<close>

lemmas phase_const_defs =
  Pending_def Succeeded_def Failed_def ValidationFailed_def Deleting_def DeleteFailed_def
  DeleteSucceeded_def

lemmas step_const_defs = Prereqs_def Install_def Delete_def Validate_def

lemma phase_distinct [simp]:
  "Pending \<noteq> Succeeded" "Pending \<noteq> Failed" "Pending \<noteq> ValidationFailed" "Pending \<noteq> Deleting"
  "Pending \<noteq> DeleteFailed" "Pending \<noteq> DeleteSucceeded" "Succeeded \<noteq> Failed"
  "Succeeded \<noteq> ValidationFailed" "Succeeded \<noteq> Deleting" "Succeeded \<noteq> DeleteFailed"
  "Succeeded \<noteq> DeleteSucceeded" "Failed \<noteq> ValidationFailed" "Failed \<noteq> Deleting"
  "Failed \<noteq> DeleteFailed" "Failed \<noteq> DeleteSucceeded" "ValidationFailed \<noteq> Deleting"
  "ValidationFailed \<noteq> DeleteFailed" "ValidationFailed \<noteq> DeleteSucceeded"
  "Deleting \<noteq> DeleteFailed" "Deleting \<noteq> DeleteSucceeded" "DeleteFailed \<noteq> DeleteSucceeded"
  by (simp_all add: phase_const_defs)

lemmas phase_distinct_sym [simp] = phase_distinct [symmetric]

lemma phase_not_empty [simp]:
  "Pending \<noteq> []" "Succeeded \<noteq> []" "Failed \<noteq> []" "ValidationFailed \<noteq> []" "Deleting \<noteq> []"
  "DeleteFailed \<noteq> []" "DeleteSucceeded \<noteq> []"
  by (simp_all add: phase_const_defs)

lemmas phase_not_empty_sym [simp] = phase_not_empty [symmetric]

lemma step_distinct [simp]:
  "Prereqs \<noteq> Install" "Prereqs \<noteq> Delete" "Prereqs \<noteq> Validate" "Install \<noteq> Delete"
  "Install \<noteq> Validate" "Delete \<noteq> Validate"
  by (simp_all add: step_const_defs)

lemmas step_distinct_sym [simp] = step_distinct [symmetric]

lemmas phase_pred_defs =
  phase_Succeeded_def phase_Failed_def phase_Completed_def phase_Deleting_def phase_Running_def

definition known_phase :: "ApplicationAssemblyPhase \<Rightarrow> bool" where
  "known_phase p \<longleftrightarrow>
     p \<in> {Pending, Succeeded, Failed, ValidationFailed, Deleting, DeleteFailed, DeleteSucceeded}"

lemma phase_Running_not_Completed: "phase_Running p \<Longrightarrow> \<not> phase_Completed p"
  by (auto simp: phase_pred_defs)

section \<open>The contract the status setters share\<close>

text \<open>
  A status setter leaves the metadata and the spec alone, and of the status everything
  but the phases and the reason. What is computed from metadata and spec is unchanged.
\<close>

locale status_setter =
  fixes set_status :: "Addon \<Rightarrow> Addon"
  assumes keeps_meta: "Addon_Meta (set_status a) = Addon_Meta a"
    and keeps_spec: "Spec (set_status a) = Spec a"
    and keeps_Checksum: "Checksum (Status (set_status a)) = Checksum (Status a)"
    and keeps_Resources: "Resources (Status (set_status a)) = Resources (Status a)"
    and keeps_StartTime: "StartTime (Status (set_status a)) = StartTime (Status a)"
begin

lemma keeps_checksum_value: "CalculateChecksum (set_status a) = CalculateChecksum a"
  by (simp add: CalculateChecksum_def keeps_spec)

lemma keeps_package: "GetPackageSpec (set_status a) = GetPackageSpec a"
  by (simp add: GetPackageSpec_def keeps_spec)

lemma keeps_workflow_type: "GetWorkflowType (set_status a) step = GetWorkflowType a step"
  by (simp add: GetWorkflowType_def keeps_spec)

lemma keeps_workflow_name:
  "GetFormattedWorkflowName (set_status a) step = GetFormattedWorkflowName a step"
  by (simp add: GetFormattedWorkflowName_def keeps_workflow_type keeps_checksum_value keeps_meta
      split: sum.split)

lemma keeps_parameters: "GetAllAddonParameters \<rho> (set_status a) = GetAllAddonParameters \<rho> a"
  by (simp add: GetAllAddonParameters_def keeps_spec)

lemmas keeps_all = keeps_meta keeps_spec keeps_Checksum keeps_Resources keeps_StartTime
  keeps_checksum_value keeps_package keeps_workflow_type keeps_workflow_name keeps_parameters

end

interpretation install_setter: status_setter "SetInstallStatus p rs" for p rs
  by unfold_locales (simp_all add: SetInstallStatus_def Let_def)

interpretation prereq_setter: status_setter "\<lambda>a. snd (SetPrereqAndInstallStatuses p rs a)" for p rs
  by unfold_locales
    (simp_all add: SetPrereqAndInstallStatuses_def install_setter.keeps_all)

interpretation step_setter: status_setter "\<lambda>a. snd (SetStatusByLifecyleStep st p rs a)" for st p rs
  by unfold_locales
    (simp_all add: SetStatusByLifecyleStep_def install_setter.keeps_all prereq_setter.keeps_all)

interpretation clear_setter: status_setter ClearStatus
  by unfold_locales (simp_all add: ClearStatus_def)

lemmas setter_frames [simp] =
  install_setter.keeps_all prereq_setter.keeps_all step_setter.keeps_all clear_setter.keeps_all

section \<open>What the setters write\<close>

lemma GetInstallStatus_SetInstallStatus [simp]:
  "GetInstallStatus (SetInstallStatus p rs a) = p"
  by (simp add: GetInstallStatus_def SetInstallStatus_def Let_def)

lemma GetPrereqStatus_SetInstallStatus [simp]:
  "GetPrereqStatus (SetInstallStatus p rs a) = GetPrereqStatus a"
  by (simp add: GetPrereqStatus_def SetInstallStatus_def Let_def)

lemma Get_set_Prereqs [simp]:
  "GetPrereqStatus (set_Prereqs p a) = p" "GetInstallStatus (set_Prereqs p a) = GetInstallStatus a"
  by (simp_all add: GetPrereqStatus_def GetInstallStatus_def)

lemma Get_ClearStatus [simp]:
  "GetPrereqStatus (ClearStatus a) = []" "GetInstallStatus (ClearStatus a) = []"
  "Reason (Status (ClearStatus a)) = []"
  by (simp_all add: GetPrereqStatus_def GetInstallStatus_def ClearStatus_def)

lemma Reason_SetInstallStatus:
  "Reason (Status (SetInstallStatus p rs a)) =
     (if p \<in> {Pending, ValidationFailed, DeleteFailed, Failed} then Join rs '', '' else [])"
  by (simp add: SetInstallStatus_def Let_def)

lemma Reason_set_Prereqs [simp]: "Reason (Status (set_Prereqs p a)) = Reason (Status a)"
  by simp

text \<open>A reason stands only beside a phase that has one.\<close>

definition reason_ok :: "Addon \<Rightarrow> bool" where
  "reason_ok a \<longleftrightarrow>
     (Reason (Status a) \<noteq> [] \<longrightarrow>
      GetInstallStatus a \<in> {Pending, ValidationFailed, DeleteFailed, Failed})"

lemma reason_ok_SetInstallStatus: "reason_ok (SetInstallStatus p rs a)"
  by (simp add: reason_ok_def Reason_SetInstallStatus)

lemma reason_ok_set_Prereqs: "reason_ok (set_Prereqs p a) = reason_ok a"
  by (simp add: reason_ok_def)

lemma reason_ok_SetPrereqAndInstallStatuses:
  "reason_ok a \<Longrightarrow> reason_ok (snd (SetPrereqAndInstallStatuses p rs a))"
  by (simp add: SetPrereqAndInstallStatuses_def reason_ok_SetInstallStatus reason_ok_set_Prereqs)

lemma reason_ok_ClearStatus: "reason_ok (ClearStatus a)"
  by (simp add: reason_ok_def)

section \<open>Checksum\<close>

lemma adler_update_bounds:
  "a < 65521 \<Longrightarrow> b < 65521 \<Longrightarrow> adler_update (a, b) s = (a', b') \<Longrightarrow> a' < 65521 \<and> b' < 65521"
proof (induction s arbitrary: a b)
  case (Cons c cs)
  let ?a = "(a + of_char c) mod 65521"
  have "adler_update (?a, (b + ?a) mod 65521) cs = (a', b')"
    using Cons.prems(3) by (simp add: Let_def)
  then show ?case by (rule Cons.IH [rotated 2]) simp_all
qed simp

lemma adler32_bound: "adler32_Checksum s < 2 ^ 32"
proof -
  obtain a b where ab: "adler_update (1, 0) s = (a, b)" by (cases "adler_update (1, 0) s")
  then have "a < 65521 \<and> b < 65521"
    by (rule adler_update_bounds [rotated 2]) auto
  with ab show ?thesis by (simp add: adler32_Checksum_def)
qed

lemma CalculateChecksum_digits: "set (CalculateChecksum a) \<subseteq> set ''0123456789abcdef''"
proof -
  have "hexdigit ` {..<16} \<subseteq> set ''0123456789abcdef''"
    using hexdigit_range by blast
  then show ?thesis
    using digits_in_set [of 16] unfolding CalculateChecksum_def by fastforce
qed

lemma CalculateChecksum_length: "length (CalculateChecksum a) \<le> 8"
  using digits_in_length [of 16 "adler32_Checksum (fmt_Spec (Spec a))" 7]
    adler32_bound [of "fmt_Spec (Spec a)"]
  by (simp add: CalculateChecksum_def)

text \<open>Two specs that hold the same maps, whatever the order of their pairs.\<close>

definition same_map :: "'v gomap \<Rightarrow> 'v gomap \<Rightarrow> bool" where
  "same_map m m' \<longleftrightarrow> gm_ok m \<and> gm_ok m' \<and> map_of m = map_of m'"

definition same_package :: "PackageSpec \<Rightarrow> PackageSpec \<Rightarrow> bool" where
  "same_package p q \<longleftrightarrow> same_map (PkgDeps p) (PkgDeps q) \<and> p\<lparr>PkgDeps := []\<rparr> = q\<lparr>PkgDeps := []\<rparr>"

definition same_params :: "AddonParams \<Rightarrow> AddonParams \<Rightarrow> bool" where
  "same_params p q \<longleftrightarrow>
     Params_Namespace p = Params_Namespace q \<and>
     ClusterName (Params_Context p) = ClusterName (Params_Context q) \<and>
     ClusterRegion (Params_Context p) = ClusterRegion (Params_Context q) \<and>
     same_map (AdditionalConfigs (Params_Context p)) (AdditionalConfigs (Params_Context q)) \<and>
     same_map (Params_Data p) (Params_Data q)"

definition same_overrides :: "AddonOverridesSpec \<Rightarrow> AddonOverridesSpec \<Rightarrow> bool" where
  "same_overrides p q \<longleftrightarrow>
     same_map (Overrides_Template p) (Overrides_Template q) \<and>
     (let k = Overrides_Kustomize p; l = Overrides_Kustomize q
      in same_map (Kustomize_Labels k) (Kustomize_Labels l) \<and>
         same_map (Kustomize_Annotations k) (Kustomize_Annotations l) \<and>
         Kustomize_Resources k = Kustomize_Resources l \<and>
         same_map (Overlay_Template (Kustomize_Overlay k)) (Overlay_Template (Kustomize_Overlay l)))"

definition same_spec :: "AddonSpec \<Rightarrow> AddonSpec \<Rightarrow> bool" where
  "same_spec s t \<longleftrightarrow>
     same_package (Spec_PackageSpec s) (Spec_PackageSpec t) \<and>
     same_params (Spec_Params s) (Spec_Params t) \<and>
     same_map (MatchLabels (Spec_Selector s)) (MatchLabels (Spec_Selector t)) \<and>
     MatchExpressions (Spec_Selector s) = MatchExpressions (Spec_Selector t) \<and>
     same_overrides (Spec_Overrides s) (Spec_Overrides t) \<and>
     Spec_Secrets s = Spec_Secrets t \<and> Spec_Lifecycle s = Spec_Lifecycle t"

lemma same_map_mset: "same_map m m' \<Longrightarrow> mset m = mset m'"
proof -
  assume sm: "same_map m m'"
  then have "set m = set m'"
    by (auto simp: same_map_def set_eq_iff simp flip: gm_ok_map_of)
  moreover have "distinct m" "distinct m'"
    using sm by (auto simp: same_map_def gm_ok_def distinct_map)
  ultimately show ?thesis by (simp add: set_eq_iff_mset_eq_distinct)
qed

lemma fmt_map_same: "same_map m m' \<Longrightarrow> fmt_map f m = fmt_map f m'"
  by (rule fmt_map_cong) (auto simp: same_map_def intro: same_map_mset)

lemma fmt_PackageSpec_same:
  assumes "same_package p q"
  shows "fmt_PackageSpec p = fmt_PackageSpec q"
proof -
  have "p\<lparr>PkgDeps := []\<rparr> = q\<lparr>PkgDeps := []\<rparr>" and m: "same_map (PkgDeps p) (PkgDeps q)"
    using assms by (simp_all add: same_package_def)
  then have "PkgChannel p = PkgChannel q" "PkgName p = PkgName q" "PkgVersion p = PkgVersion q"
      "PkgType p = PkgType q" "PkgDescription p = PkgDescription q"
    by (metis PackageSpec.select_convs PackageSpec.surjective PackageSpec.update_convs(6))+
  then show ?thesis using fmt_map_same [OF m, of id] by (simp add: fmt_PackageSpec_def)
qed

lemma fmt_Params_same: "same_params p q \<Longrightarrow> fmt_Params p = fmt_Params q"
  by (auto simp: same_params_def fmt_Params_def dest!: fmt_map_same [where f = id])

lemma fmt_Overrides_same:
  assumes "same_overrides p q"
  shows "fmt_Overrides p = fmt_Overrides q"
  using assms unfolding same_overrides_def fmt_Overrides_def Let_def
  by (auto dest!: fmt_map_same [where f = id])

lemma fmt_Spec_same: "same_spec s t \<Longrightarrow> fmt_Spec s = fmt_Spec t"
  by (auto simp: same_spec_def fmt_Spec_def fmt_Selector_def
      dest!: fmt_PackageSpec_same fmt_Params_same fmt_Overrides_same fmt_map_same [where f = id])

section \<open>Properties\<close>

text \<open>The zero value of the \<open>Addon\<close> struct, with a name and a namespace.\<close>

definition zero_WorkflowType :: WorkflowType where
  "zero_WorkflowType = \<lparr>NamePrefix = [], Role = [], WorkflowRole = [], Template = []\<rparr>"

definition zero_Addon :: "string \<Rightarrow> string \<Rightarrow> Addon" where
  "zero_Addon name ns =
     \<lparr>Addon_Meta = \<lparr>Meta_Name = name, Meta_Namespace = ns, DeletionTimestamp = None,
        Finalizers = [], ResourceVersion = 0\<rparr>,
      Spec = \<lparr>Spec_PackageSpec = \<lparr>PkgChannel = [], PkgName = [], PkgVersion = [], PkgType = [],
          PkgDescription = [], PkgDeps = []\<rparr>,
        Spec_Params = \<lparr>Params_Namespace = [],
          Params_Context = \<lparr>ClusterName = [], ClusterRegion = [], AdditionalConfigs = []\<rparr>,
          Params_Data = []\<rparr>,
        Spec_Selector = \<lparr>MatchLabels = [], MatchExpressions = []\<rparr>,
        Spec_Overrides = \<lparr>Overrides_Kustomize = \<lparr>Kustomize_Labels = [],
            Kustomize_Annotations = [], Kustomize_Resources = [],
            Kustomize_Overlay = \<lparr>Overlay_Template = []\<rparr>\<rparr>,
          Overrides_Template = []\<rparr>,
        Spec_Secrets = [],
        Spec_Lifecycle = \<lparr>Lifecycle_Prereqs = zero_WorkflowType,
          Lifecycle_Install = zero_WorkflowType, Lifecycle_Delete = zero_WorkflowType,
          Lifecycle_Validate = zero_WorkflowType\<rparr>\<rparr>,
      Status = \<lparr>Checksum = [],
        Status_Lifecycle = \<lparr>Status_Prereqs = [], Status_Installed = []\<rparr>,
        Resources = [], Reason = [], StartTime = 0\<rparr>\<rparr>"

lemma map_of_store_all: "map_of (store_all kvs m) = map_of m ++ map_of (rev kvs)"
  by (induction kvs arbitrary: m) (auto simp: store_all_def map_add_def fun_eq_iff split: option.split)

text \<open>
  The checksum of an addon depends on what its maps hold, not on the order their pairs
  are kept or visited in: two addons whose specs agree up to the order of map entries
  have the same checksum.
\<close>

lemma checksum_order_independent:
  assumes "same_spec (Spec a) (Spec b)"
  shows "CalculateChecksum a = CalculateChecksum b"
  using fmt_Spec_same [OF assms] by (simp add: CalculateChecksum_def)

definition deps_addon :: "string gomap \<Rightarrow> Addon" where
  "deps_addon deps = Spec_update (Spec_PackageSpec_update (PkgDeps_update (\<lambda>_. deps))) (zero_Addon ''a'' ''ns'')"

text \<open>
  A checksum is one to eight lower-case hexadecimal digits, so it never contains the
  dash that separates the parts of a workflow name.
\<close>

lemma checksum_is_short_hex:
  "set (CalculateChecksum a) \<subseteq> set ''0123456789abcdef'' \<and>
   1 \<le> length (CalculateChecksum a) \<and> length (CalculateChecksum a) \<le> 8"
proof -
  have "CalculateChecksum a \<noteq> []" by (simp add: CalculateChecksum_def)
  then show ?thesis
    using CalculateChecksum_digits CalculateChecksum_length
    by (metis One_nat_def Suc_leI length_greater_0_conv)
qed

text \<open>
  What recording a workflow phase for a lifecycle step does, on every branch. A prereqs
  phase is recorded for the prereqs and resets the install phase to pending, or to failed
  with the reasons; a phase the prereqs cannot have clears the prereqs phase and reports
  an error. An install phase is recorded as it is. For the delete step success and
  failure become delete-succeeded and delete-failed. Any other step changes nothing. The
  spec, the metadata, the checksum and the start time never change.
\<close>

lemma status_by_step_spec:
  assumes "SetStatusByLifecyleStep step p rs a = (e, a')"
  shows "(step = Prereqs \<and> p \<in> {Pending, Failed, Succeeded} \<longrightarrow>
            e = None \<and> GetPrereqStatus a' = p \<and>
            GetInstallStatus a' = (if p = Failed then Failed else Pending) \<and>
            Reason (Status a') = (if p = Failed then Join rs '', '' else [])) \<and>
         (step = Prereqs \<and> p \<notin> {Pending, Failed, Succeeded} \<longrightarrow>
            e \<noteq> None \<and> GetPrereqStatus a' = [] \<and> GetInstallStatus a' = GetInstallStatus a) \<and>
         (step = Install \<longrightarrow>
            e = None \<and> GetInstallStatus a' = p \<and> GetPrereqStatus a' = GetPrereqStatus a) \<and>
         (step = Delete \<longrightarrow>
            e = None \<and> GetPrereqStatus a' = GetPrereqStatus a \<and>
            GetInstallStatus a' =
              (if p = Succeeded then DeleteSucceeded else if p = Failed then DeleteFailed else p)) \<and>
         (step \<notin> {Prereqs, Install, Delete} \<longrightarrow> e = None \<and> a' = a) \<and>
         Spec a' = Spec a \<and> Addon_Meta a' = Addon_Meta a \<and>
         Checksum (Status a') = Checksum (Status a) \<and> StartTime (Status a') = StartTime (Status a)"
proof -
  have a': "a' = snd (SetStatusByLifecyleStep step p rs a)"
    and e: "e = fst (SetStatusByLifecyleStep step p rs a)"
    using assms by simp_all
  consider "step = Prereqs" | "step = Install" | "step = Delete"
    | "step \<notin> {Prereqs, Install, Delete}" by blast
  then show ?thesis
    by cases (auto simp: a' e SetStatusByLifecyleStep_def SetPrereqAndInstallStatuses_def
        Reason_SetInstallStatus)
qed

text \<open>
  Every status change keeps the invariant that a non-empty reason stands only beside
  the phases pending, validation failed, delete failed and failed.
\<close>

lemma reason_invariant:
  assumes "reason_ok a"
  shows "reason_ok (snd (SetStatusByLifecyleStep step p rs a)) \<and>
    reason_ok (SetInstallStatus p rs a) \<and> reason_ok (ClearStatus a)"
  using assms
  by (auto simp: SetStatusByLifecyleStep_def reason_ok_SetInstallStatus reason_ok_ClearStatus
      reason_ok_SetPrereqAndInstallStatuses)

text \<open>
  The parameters injected into the workflows: a data value wins over an additional
  config, which wins over the namespace and the cluster name and region, whatever order
  the maps are visited in.
\<close>

lemma parameters_precedence:
  assumes "rng_ok \<rho>" and "gm_ok (AdditionalConfigs (Params_Context (Spec_Params (Spec a))))"
    and "gm_ok (Params_Data (Spec_Params (Spec a)))"
  shows "map_of (GetAllAddonParameters \<rho> a) =
     (map_of [(''namespace'', Params_Namespace (Spec_Params (Spec a))),
              (''clusterName'', ClusterName (Params_Context (Spec_Params (Spec a)))),
              (''clusterRegion'', ClusterRegion (Params_Context (Spec_Params (Spec a))))]
      ++ map_of (AdditionalConfigs (Params_Context (Spec_Params (Spec a)))))
     ++ map_of (Params_Data (Spec_Params (Spec a)))"
proof -
  have rev: "map_of (rev (gm_range \<rho> m)) = map_of m" if "gm_ok m" for m :: "string gomap"
    using that assms(1) by (simp add: map_of_rev_distinct distinct_gm_range)
  show ?thesis
    using assms(2,3) by (simp add: GetAllAddonParameters_def Let_def map_of_store_all rev)
qed

end
