(* ===== verification/Version_Cache.thy ===== *)
theory Version_Cache
  imports Addon_Types
begin

text \<open>
  The version cache of \<^verbatim>\<open>pkg/addon/addon_version_cache.go\<close>: a map from package names to
  maps from package versions to \<open>Version\<close> records. Each operation holds the cache's lock
  for its whole body (\<open>GetVersion\<close> and \<open>HasVersionName\<close> work on a copy taken under the
  lock), so an operation is one definition on the map. The library
  \<open>github.com/Masterminds/semver\<close> is an argument.

  The locale \<open>version_cache\<close> is the contract of the \<open>VersionCacheClient\<close> interface over an
  abstract map of entries; it is interpreted on the definitions below. The lemmas show
  the refinement for every sequence of operations, the key invariant, what a lookup with
  a semantic version constraint may return and that the search by addon name is sound
  and complete for every iteration order.
\<close>

section \<open>Data\<close>

record Version =
  Version_Name :: string
  Version_Namespace :: string
  Version_PackageSpec :: PackageSpec
  PkgPhase :: ApplicationAssemblyPhase

abbreviation vPkgName :: "Version \<Rightarrow> string" where
  "vPkgName v \<equiv> PkgName (Version_PackageSpec v)"
abbreviation vPkgVersion :: "Version \<Rightarrow> string" where
  "vPkgVersion v \<equiv> PkgVersion (Version_PackageSpec v)"

type_synonym cached = "Version gomap gomap"

record ('c, 'sv) semver_lib =
  NewConstraint :: "string \<Rightarrow> 'c option"
  NewVersion :: "string \<Rightarrow> 'sv option"
  Check :: "'c \<Rightarrow> 'sv \<Rightarrow> bool"

section \<open>Operations\<close>

definition NewAddonVersionCacheClient :: cached where
  "NewAddonVersionCacheClient = []"

definition AddVersion :: "Version \<Rightarrow> cached \<Rightarrow> cached" where
  "AddVersion v c =
     (let c' = (case map_of c (vPkgName v) of
                  None \<Rightarrow> AList.update (vPkgName v) [] c
                | Some _ \<Rightarrow> c)
      in case map_of c' (vPkgName v) of
           None \<Rightarrow> c'
         | Some mm \<Rightarrow> AList.update (vPkgName v) (AList.update (vPkgVersion v) v mm) c')"

definition copyVersionMap :: "order \<Rightarrow> Version gomap \<Rightarrow> Version gomap" where
  "copyVersionMap \<rho> m = fold (\<lambda>(key, val). AList.update key val) (gm_range \<rho> m) []"

definition GetVersions :: "order \<Rightarrow> cached \<Rightarrow> string \<Rightarrow> Version gomap option" where
  "GetVersions \<rho> c pkgName =
     (case map_of c pkgName of None \<Rightarrow> None | Some m \<Rightarrow> Some (copyVersionMap \<rho> m))"

fun resolve_loop :: "('c, 'sv) semver_lib \<Rightarrow> 'c \<Rightarrow> (string \<times> Version) list \<Rightarrow> Version option" where
  "resolve_loop L ct [] = None"
| "resolve_loop L ct ((key, v) # rest) =
     (case NewVersion L key of
        None \<Rightarrow> resolve_loop L ct rest
      | Some sv \<Rightarrow> if Check L ct sv then Some v else resolve_loop L ct rest)"

definition resolveVersion ::
    "order \<Rightarrow> ('c, 'sv) semver_lib \<Rightarrow> Version gomap \<Rightarrow> string \<Rightarrow> Version option" where
  "resolveVersion \<rho> L m pkgVersion =
     (case NewConstraint L pkgVersion of
        None \<Rightarrow> None
      | Some ct \<Rightarrow> resolve_loop L ct (gm_range \<rho> m))"

definition GetVersion ::
    "order \<Rightarrow> ('c, 'sv) semver_lib \<Rightarrow> cached \<Rightarrow> string \<Rightarrow> string \<Rightarrow> Version option" where
  "GetVersion \<rho> L c pkgName pkgVersion =
     (case GetVersions \<rho> c pkgName of
        None \<Rightarrow> None
      | Some vmap \<Rightarrow>
          (case map_of vmap pkgVersion of
             None \<Rightarrow> resolveVersion \<rho> L vmap pkgVersion
           | Some v \<Rightarrow> Some v))"

definition RemoveVersion :: "string \<Rightarrow> string \<Rightarrow> cached \<Rightarrow> cached" where
  "RemoveVersion pkgName pkgVersion c =
     (case map_of c pkgName of
        None \<Rightarrow> c
      | Some m \<Rightarrow>
          (case map_of m pkgVersion of
             None \<Rightarrow> c
           | Some _ \<Rightarrow> AList.update pkgName (AList.delete pkgVersion m) c))"

definition RemoveVersions :: "string \<Rightarrow> cached \<Rightarrow> cached" where
  "RemoveVersions pkgName c =
     (case map_of c pkgName of None \<Rightarrow> c | Some _ \<Rightarrow> AList.delete pkgName c)"

definition deepCopy :: "order \<Rightarrow> cached \<Rightarrow> cached" where
  "deepCopy \<rho> c =
     fold (\<lambda>(key, val). AList.update key (copyVersionMap \<rho> val)) (gm_range \<rho> c) []"

definition GetAllVersions :: "order \<Rightarrow> cached \<Rightarrow> cached" where
  "GetAllVersions \<rho> c = deepCopy \<rho> c"

fun find_name :: "string \<Rightarrow> (string \<times> Version) list \<Rightarrow> Version option" where
  "find_name name [] = None"
| "find_name name ((_, version) # rest) =
     (if Version_Name version = name then Some version else find_name name rest)"

fun find_name_all :: "order \<Rightarrow> string \<Rightarrow> (string \<times> Version gomap) list \<Rightarrow> Version option" where
  "find_name_all \<rho> name [] = None"
| "find_name_all \<rho> name ((_, vmap) # rest) =
     (case find_name name (gm_range \<rho> vmap) of
        Some v \<Rightarrow> Some v
      | None \<Rightarrow> find_name_all \<rho> name rest)"

text \<open>\<open>(true, v)\<close> is \<open>Some v\<close>, \<open>(false, nil)\<close> is \<open>None\<close>.\<close>

definition HasVersionName :: "order \<Rightarrow> cached \<Rightarrow> string \<Rightarrow> Version option" where
  "HasVersionName \<rho> c name = find_name_all \<rho> name (gm_range \<rho> (GetAllVersions \<rho> c))"

section \<open>The contract of the cache\<close>

text \<open>The state-changing operations, as data.\<close>

datatype cache_op = OpAdd Version | OpRemove string string | OpRemoveAll string

fun cache_step ::
    "(Version \<Rightarrow> 'c \<Rightarrow> 'c) \<Rightarrow> (string \<Rightarrow> string \<Rightarrow> 'c \<Rightarrow> 'c) \<Rightarrow> (string \<Rightarrow> 'c \<Rightarrow> 'c) \<Rightarrow> cache_op \<Rightarrow> 'c \<Rightarrow> 'c"
  where
  "cache_step add rm rmall (OpAdd v) c = add v c"
| "cache_step add rm rmall (OpRemove p q) c = rm p q c"
| "cache_step add rm rmall (OpRemoveAll p) c = rmall p c"

text \<open>The abstract cache: a map from package name and version to the entry.\<close>

type_synonym entries = "string \<times> string \<rightharpoonup> Version"

definition abs_add :: "Version \<Rightarrow> entries \<Rightarrow> entries" where
  "abs_add v m = m((vPkgName v, vPkgVersion v) \<mapsto> v)"

definition abs_remove :: "string \<Rightarrow> string \<Rightarrow> entries \<Rightarrow> entries" where
  "abs_remove p q m = m((p, q) := None)"

definition abs_remove_all :: "string \<Rightarrow> entries \<Rightarrow> entries" where
  "abs_remove_all p m = (\<lambda>(p', q). if p' = p then None else m (p', q))"

abbreviation abs_step :: "cache_op \<Rightarrow> entries \<Rightarrow> entries" where
  "abs_step \<equiv> cache_step abs_add abs_remove abs_remove_all"

definition keyed :: "entries \<Rightarrow> bool" where
  "keyed m \<longleftrightarrow> (\<forall>p q v. m (p, q) = Some v \<longrightarrow> vPkgName v = p \<and> vPkgVersion v = q)"

lemma keyed_empty: "keyed Map.empty"
  by (simp add: keyed_def)

lemma keyed_abs_step: "keyed m \<Longrightarrow> keyed (abs_step op m)"
  by (cases op) (auto simp: keyed_def abs_add_def abs_remove_def abs_remove_all_def split: if_splits)

locale version_cache =
  fixes new :: 'c
    and add :: "Version \<Rightarrow> 'c \<Rightarrow> 'c"
    and remove :: "string \<Rightarrow> string \<Rightarrow> 'c \<Rightarrow> 'c"
    and remove_all :: "string \<Rightarrow> 'c \<Rightarrow> 'c"
    and entry :: "'c \<Rightarrow> entries"
    and ok :: "'c \<Rightarrow> bool"
  assumes ok_new: "ok new"
    and ok_add: "ok c \<Longrightarrow> ok (add v c)"
    and ok_remove: "ok c \<Longrightarrow> ok (remove p q c)"
    and ok_remove_all: "ok c \<Longrightarrow> ok (remove_all p c)"
    and entry_new: "entry new = Map.empty"
    and entry_add: "ok c \<Longrightarrow> entry (add v c) = abs_add v (entry c)"
    and entry_remove: "ok c \<Longrightarrow> entry (remove p q c) = abs_remove p q (entry c)"
    and entry_remove_all: "ok c \<Longrightarrow> entry (remove_all p c) = abs_remove_all p (entry c)"
begin

lemma ok_step: "ok c \<Longrightarrow> ok (cache_step add remove remove_all op c)"
  by (cases op) (simp_all add: ok_add ok_remove ok_remove_all)

lemma entry_step:
  "ok c \<Longrightarrow> entry (cache_step add remove remove_all op c) = abs_step op (entry c)"
  by (cases op) (simp_all add: entry_add entry_remove entry_remove_all)

lemma ok_run: "ok c \<Longrightarrow> ok (fold (cache_step add remove remove_all) ops c)"
  by (induction ops arbitrary: c) (simp_all add: ok_step)

lemma entry_run:
  "ok c \<Longrightarrow> entry (fold (cache_step add remove remove_all) ops c) = fold abs_step ops (entry c)"
  by (induction ops arbitrary: c) (simp_all add: ok_step entry_step)

lemma keyed_run: "keyed (entry (fold (cache_step add remove remove_all) ops new))"
proof -
  have "keyed (fold abs_step ops m)" if "keyed m" for m
    using that by (induction ops arbitrary: m) (simp_all add: keyed_abs_step)
  then show ?thesis by (simp add: entry_run ok_new entry_new keyed_empty)
qed

lemma add_then_lookup: "ok c \<Longrightarrow> entry (add v c) (vPkgName v, vPkgVersion v) = Some v"
  by (simp add: entry_add abs_add_def)

lemma remove_then_lookup: "ok c \<Longrightarrow> entry (remove p q c) (p, q) = None"
  by (simp add: entry_remove abs_remove_def)

end

section \<open>The map of maps implements the contract\<close>

definition cache_ok :: "cached \<Rightarrow> bool" where
  "cache_ok c \<longleftrightarrow> gm_ok c \<and> (\<forall>p m. map_of c p = Some m \<longrightarrow> gm_ok m)"

definition entry_of :: "cached \<Rightarrow> entries" where
  "entry_of c = (\<lambda>(p, q). case map_of c p of None \<Rightarrow> None | Some m \<Rightarrow> map_of m q)"

lemma cache_ok_inner: "cache_ok c \<Longrightarrow> map_of c p = Some m \<Longrightarrow> gm_ok m"
  by (simp add: cache_ok_def)

lemma cache_ok_update: "cache_ok c \<Longrightarrow> gm_ok m \<Longrightarrow> cache_ok (AList.update p m c)"
  by (simp add: cache_ok_def)

interpretation cache: version_cache NewAddonVersionCacheClient AddVersion RemoveVersion
  RemoveVersions entry_of cache_ok
proof unfold_locales
  show "cache_ok NewAddonVersionCacheClient"
    by (simp add: cache_ok_def NewAddonVersionCacheClient_def)
  show "entry_of NewAddonVersionCacheClient = Map.empty"
    by (auto simp: entry_of_def NewAddonVersionCacheClient_def)
next
  fix c v assume ok: "cache_ok c"
  then show "cache_ok (AddVersion v c)"
    by (auto simp: AddVersion_def cache_ok_update cache_ok_inner split: option.split)
  show "entry_of (AddVersion v c) = abs_add v (entry_of c)"
    by (auto simp: AddVersion_def entry_of_def abs_add_def fun_eq_iff split: option.split)
next
  fix c p q assume ok: "cache_ok c"
  then show "cache_ok (RemoveVersion p q c)"
    by (auto simp: RemoveVersion_def cache_ok_update cache_ok_inner split: option.split)
  show "entry_of (RemoveVersion p q c) = abs_remove p q (entry_of c)"
    by (auto simp: RemoveVersion_def entry_of_def abs_remove_def fun_eq_iff split: option.split)
next
  fix c p assume ok: "cache_ok c"
  then show "cache_ok (RemoveVersions p c)"
    by (auto simp: RemoveVersions_def cache_ok_def split: option.split)
  show "entry_of (RemoveVersions p c) = abs_remove_all p (entry_of c)"
    by (auto simp: RemoveVersions_def entry_of_def abs_remove_all_def fun_eq_iff split: option.split)
qed

section \<open>Lookups\<close>

lemma copyVersionMap_gm_copy: "copyVersionMap \<rho> m = gm_copy \<rho> id m"
  by (simp add: copyVersionMap_def gm_copy_def)

lemma deepCopy_gm_copy: "deepCopy \<rho> c = gm_copy \<rho> (copyVersionMap \<rho>) c"
  by (simp add: deepCopy_def gm_copy_def)

lemma copyVersionMap_ok [simp]:
  "gm_ok (copyVersionMap \<rho> m)"
  "rng_ok \<rho> \<Longrightarrow> gm_ok m \<Longrightarrow> map_of (copyVersionMap \<rho> m) = map_of m"
  by (simp_all add: copyVersionMap_gm_copy option.map_id0)

lemma GetVersions_Some:
  "GetVersions \<rho> c p = Some m' \<Longrightarrow>
     \<exists>m. map_of c p = Some m \<and> m' = copyVersionMap \<rho> m"
  by (auto simp: GetVersions_def split: option.splits)

lemma GetVersions_None: "GetVersions \<rho> c p = None \<longleftrightarrow> map_of c p = None"
  by (auto simp: GetVersions_def split: option.splits)

definition hits :: "('c, 'sv) semver_lib \<Rightarrow> 'c \<Rightarrow> string \<Rightarrow> bool" where
  "hits L ct key = (case NewVersion L key of None \<Rightarrow> False | Some sv \<Rightarrow> Check L ct sv)"

lemma resolve_loop_find:
  "resolve_loop L ct kvs = map_option snd (List.find (\<lambda>kv. hits L ct (fst kv)) kvs)"
  by (induction L ct kvs rule: resolve_loop.induct) (auto simp: hits_def split: option.splits)

lemma find_name_find:
  "find_name n kvs = map_option snd (List.find (\<lambda>kv. Version_Name (snd kv) = n) kvs)"
  by (induction n kvs rule: find_name.induct) auto

lemma find_name_append:
  "find_name n (xs @ ys) = (case find_name n xs of Some v \<Rightarrow> Some v | None \<Rightarrow> find_name n ys)"
  by (induction n xs rule: find_name.induct) auto

lemma find_name_all_concat:
  "find_name_all \<rho> n kvs = find_name n (concat (map (gm_range \<rho> \<circ> snd) kvs))"
  by (induction \<rho> n kvs rule: find_name_all.induct) (auto simp: find_name_append split: option.split)

lemma find_eq_Some: "List.find P xs = Some x \<Longrightarrow> x \<in> set xs \<and> P x"
  by (auto simp: find_Some_iff)

text \<open>A version key satisfies a requirement when it is equal to it or matches it as a constraint.\<close>

definition satisfies :: "('c, 'sv) semver_lib \<Rightarrow> string \<Rightarrow> string \<Rightarrow> bool" where
  "satisfies L req key \<longleftrightarrow>
     (case NewConstraint L req of None \<Rightarrow> False | Some ct \<Rightarrow> hits L ct key)"

lemma resolveVersion_Some:
  assumes "resolveVersion \<rho> L m req = Some v"
  shows "\<exists>key. map_of m key = Some v \<and> satisfies L req key"
proof -
  from assms obtain ct where ct: "NewConstraint L req = Some ct"
      and loop: "resolve_loop L ct (gm_range \<rho> m) = Some v"
    by (auto simp: resolveVersion_def split: option.splits)
  from loop obtain key where "List.find (\<lambda>kv. hits L ct (fst kv)) (gm_range \<rho> m) = Some (key, v)"
    by (auto simp: resolve_loop_find)
  then have "(key, v) \<in> set (gm_range \<rho> m)" "hits L ct key"
    by (auto dest!: find_eq_Some)
  with ct show ?thesis by (auto simp: satisfies_def dest: gm_range_subset)
qed

lemma resolveVersion_None:
  assumes "rng_ok \<rho>"
  shows "resolveVersion \<rho> L m req = None \<longleftrightarrow> (\<forall>key \<in> dom (map_of m). \<not> satisfies L req key)"
proof (cases "NewConstraint L req")
  case (Some ct)
  then have "resolveVersion \<rho> L m req = None \<longleftrightarrow> (\<forall>kv \<in> set (gm_range \<rho> m). \<not> hits L ct (fst kv))"
    by (auto simp: resolveVersion_def resolve_loop_find find_None_iff)
  also have "\<dots> \<longleftrightarrow> (\<forall>key v. (key, v) \<in> set (gm_range \<rho> m) \<longrightarrow> \<not> hits L ct key)"
    by auto
  also have "\<dots> \<longleftrightarrow> (\<forall>key \<in> dom (map_of m). \<not> hits L ct key)"
    by (auto simp: gm_range_map_of [OF assms])
  finally show ?thesis using Some by (simp add: satisfies_def)
qed (simp add: resolveVersion_def satisfies_def)

lemma GetVersion_exact:
  assumes "rng_ok \<rho>" and "cache_ok c" and "entry_of c (p, q) = Some v"
  shows "GetVersion \<rho> L c p q = Some v"
  using assms
  by (auto simp: GetVersion_def GetVersions_def entry_of_def cache_ok_inner split: option.splits)

lemma GetVersion_entry:
  assumes "rng_ok \<rho>" and "cache_ok c" and "GetVersion \<rho> L c p q = Some v"
  shows "\<exists>key. entry_of c (p, key) = Some v \<and> (key = q \<or> entry_of c (p, q) = None \<and> satisfies L q key)"
proof -
  from assms(3) obtain m where m: "map_of c p = Some m"
      and get: "(case map_of (copyVersionMap \<rho> m) q of
        None \<Rightarrow> resolveVersion \<rho> L (copyVersionMap \<rho> m) q | Some v \<Rightarrow> Some v) = Some v"
    by (auto simp: GetVersion_def GetVersions_def split: option.splits)
  have same: "map_of (copyVersionMap \<rho> m) = map_of m"
    using assms(1) cache_ok_inner [OF assms(2) m] by simp
  show ?thesis
  proof (cases "map_of m q")
    case None
    then have "resolveVersion \<rho> L (copyVersionMap \<rho> m) q = Some v" using get same by simp
    from resolveVersion_Some [OF this] None m same show ?thesis
      by (auto simp: entry_of_def)
  next
    case (Some v')
    with get same m show ?thesis by (auto simp: entry_of_def)
  qed
qed

lemma GetVersion_None:
  assumes "rng_ok \<rho>" and "cache_ok c"
  shows "GetVersion \<rho> L c p q = None \<longleftrightarrow>
    entry_of c (p, q) = None \<and> (\<forall>key v. entry_of c (p, key) = Some v \<longrightarrow> \<not> satisfies L q key)"
proof (cases "map_of c p")
  case None
  then show ?thesis by (simp add: GetVersion_def GetVersions_def entry_of_def)
next
  case (Some m)
  have same: "map_of (copyVersionMap \<rho> m) = map_of m"
    using assms(1) cache_ok_inner [OF assms(2) Some] by simp
  show ?thesis
    using Some same
    by (auto simp: GetVersion_def GetVersions_def entry_of_def resolveVersion_None [OF assms(1)]
        dom_def split: option.splits)
qed

text \<open>The search by addon name.\<close>

lemma range_all_versions:
  assumes "rng_ok \<rho>" and "cache_ok c"
  shows "(q, v) \<in> set (concat (map (gm_range \<rho> \<circ> snd) (gm_range \<rho> (GetAllVersions \<rho> c)))) \<longleftrightarrow>
    (\<exists>p. entry_of c (p, q) = Some v)"
proof -
  have outer: "(p, m) \<in> set (gm_range \<rho> (GetAllVersions \<rho> c)) \<longleftrightarrow>
      (\<exists>m'. map_of c p = Some m' \<and> m = copyVersionMap \<rho> m')" for p m
    using assms(2)
    by (auto simp: GetAllVersions_def deepCopy_gm_copy gm_range_map_of [OF assms(1)] assms(1)
        cache_ok_def)
  have inner: "(q, v) \<in> set (gm_range \<rho> (copyVersionMap \<rho> m')) \<longleftrightarrow> map_of m' q = Some v"
    if "map_of c p = Some m'" for p m'
    using cache_ok_inner [OF assms(2) that] by (simp add: gm_range_map_of [OF assms(1)] assms(1))
  have "(q, v) \<in> set (concat (map (gm_range \<rho> \<circ> snd) (gm_range \<rho> (GetAllVersions \<rho> c)))) \<longleftrightarrow>
      (\<exists>p m. (p, m) \<in> set (gm_range \<rho> (GetAllVersions \<rho> c)) \<and> (q, v) \<in> set (gm_range \<rho> m))"
    by force
  also have "\<dots> \<longleftrightarrow> (\<exists>p m'. map_of c p = Some m' \<and> map_of m' q = Some v)"
    unfolding outer using inner by blast
  also have "\<dots> \<longleftrightarrow> (\<exists>p. entry_of c (p, q) = Some v)"
    by (auto simp: entry_of_def split: option.splits)
  finally show ?thesis .
qed

lemma HasVersionName_Some:
  assumes "rng_ok \<rho>" and "cache_ok c" and "HasVersionName \<rho> c n = Some v"
  shows "(\<exists>p q. entry_of c (p, q) = Some v) \<and> Version_Name v = n"
proof -
  let ?all = "concat (map (gm_range \<rho> \<circ> snd) (gm_range \<rho> (GetAllVersions \<rho> c)))"
  obtain q where "List.find (\<lambda>kv. Version_Name (snd kv) = n) ?all = Some (q, v)"
    using assms(3) by (auto simp: HasVersionName_def find_name_all_concat find_name_find)
  from find_eq_Some [OF this] show ?thesis
    using range_all_versions [OF assms(1,2), of q v] by auto
qed

lemma HasVersionName_None:
  assumes "rng_ok \<rho>" and "cache_ok c"
  shows "HasVersionName \<rho> c n = None \<longleftrightarrow>
    (\<forall>p q v. entry_of c (p, q) = Some v \<longrightarrow> Version_Name v \<noteq> n)"
proof -
  let ?all = "concat (map (gm_range \<rho> \<circ> snd) (gm_range \<rho> (GetAllVersions \<rho> c)))"
  have "HasVersionName \<rho> c n = None \<longleftrightarrow> (\<forall>q v. (q, v) \<in> set ?all \<longrightarrow> Version_Name v \<noteq> n)"
    unfolding HasVersionName_def find_name_all_concat find_name_find option.map_disc_iff
      find_None_iff by auto
  then show ?thesis unfolding range_all_versions [OF assms] by blast
qed

section \<open>Properties\<close>

definition cache_run :: "cache_op list \<Rightarrow> cached" where
  "cache_run ops = fold (cache_step AddVersion RemoveVersion RemoveVersions) ops NewAddonVersionCacheClient"

lemma cache_run_ok: "cache_ok (cache_run ops)"
  unfolding cache_run_def by (rule cache.ok_run [OF cache.ok_new])

lemma cache_run_keyed: "keyed (entry_of (cache_run ops))"
  unfolding cache_run_def by (rule cache.keyed_run)

text \<open>
  C10: After any sequence of additions and removals on a new cache, the nested maps hold
  exactly the entries of the same sequence run on one flat map from package name and
  version to the entry, and every entry stands under its own package name and version.
\<close>

theorem cache_refines_map:
  "entry_of (cache_run ops) = fold (cache_step abs_add abs_remove abs_remove_all) ops Map.empty \<and>
   keyed (entry_of (cache_run ops)) \<and> cache_ok (cache_run ops)"
proof (intro conjI)
  show "entry_of (cache_run ops) = fold (cache_step abs_add abs_remove abs_remove_all) ops Map.empty"
    using cache.entry_run [OF cache.ok_new, of ops] by (simp add: cache_run_def cache.entry_new)
qed (rule cache_run_keyed cache_run_ok)+

text \<open>
  C36: What a lookup of a package version answers, whatever order maps are visited in. An
  exact entry is returned if there is one; otherwise the answer is some entry of that
  package whose version satisfies the request as a semantic version constraint; and
  there is no answer only if no entry of the package qualifies.
\<close>

theorem GetVersion_correct:
  assumes "rng_ok \<rho>" and "cache_ok c" and "keyed (entry_of c)"
  shows "case GetVersion \<rho> L c p q of
      Some v \<Rightarrow> entry_of c (p, vPkgVersion v) = Some v \<and> vPkgName v = p \<and>
        (vPkgVersion v = q \<or> entry_of c (p, q) = None \<and> satisfies L q (vPkgVersion v))
    | None \<Rightarrow> entry_of c (p, q) = None \<and>
        (\<forall>key v. entry_of c (p, key) = Some v \<longrightarrow> \<not> satisfies L q key)"
proof (cases "GetVersion \<rho> L c p q")
  case None
  then show ?thesis using GetVersion_None [OF assms(1,2), of L p q] by simp
next
  case (Some v)
  then obtain key where key: "entry_of c (p, key) = Some v"
      and "key = q \<or> entry_of c (p, q) = None \<and> satisfies L q key"
    using GetVersion_entry [OF assms(1,2)] by blast
  moreover have "vPkgName v = p" "vPkgVersion v = key"
    using key assms(3) by (auto simp: keyed_def)
  ultimately show ?thesis using Some by simp
qed

definition any_semver :: "(unit, string) semver_lib" where
  "any_semver = \<lparr>NewConstraint = (\<lambda>s. if s = ''*'' then Some () else None),
     NewVersion = Some, Check = (\<lambda>_ _. True)\<rparr>"

definition sample_version :: "string \<Rightarrow> string \<Rightarrow> string \<Rightarrow> string gomap \<Rightarrow> ApplicationAssemblyPhase \<Rightarrow> Version" where
  "sample_version name pkg ver deps phase =
     \<lparr>Version_Name = name, Version_Namespace = ''ns'',
      Version_PackageSpec = \<lparr>PkgChannel = [], PkgName = pkg, PkgVersion = ver, PkgType = CompositePkg,
        PkgDescription = [], PkgDeps = deps\<rparr>,
      PkgPhase = phase\<rparr>"

theorem GetVersion_correct_witness:
  "GetVersion rev any_semver (cache_run [OpAdd (sample_version ''a'' ''p'' ''1.0'' [] Succeeded)]) ''p'' ''*''
     = Some (sample_version ''a'' ''p'' ''1.0'' [] Succeeded)"
proof -
  let ?c = "cache_run [OpAdd (sample_version ''a'' ''p'' ''1.0'' [] Succeeded)]"
  have e: "entry_of ?c (p, q) = (if p = ''p'' \<and> q = ''1.0''
      then Some (sample_version ''a'' ''p'' ''1.0'' [] Succeeded) else None)" for p q
    by (simp add: cache_run_def NewAddonVersionCacheClient_def AddVersion_def entry_of_def
        sample_version_def)
  have "satisfies any_semver ''*'' ''1.0''"
    by (simp add: satisfies_def hits_def any_semver_def)
  with GetVersion_correct [OF rng_ok_rev cache_run_ok cache_run_keyed,
      of "[OpAdd (sample_version ''a'' ''p'' ''1.0'' [] Succeeded)]" "''p''" "''*''" any_semver] e
  show ?thesis by (auto split: option.splits if_splits)
qed

text \<open>
  The search of the cache by addon name finds an entry of that name whenever there is
  one, only such entries, and nothing otherwise, for every iteration order.
\<close>

lemma HasVersionName_correct:
  assumes "rng_ok \<rho>" and "cache_ok c"
  shows "(\<forall>v. HasVersionName \<rho> c n = Some v \<longrightarrow>
            (\<exists>p q. entry_of c (p, q) = Some v) \<and> Version_Name v = n) \<and>
         (HasVersionName \<rho> c n = None \<longleftrightarrow>
            (\<forall>p q v. entry_of c (p, q) = Some v \<longrightarrow> Version_Name v \<noteq> n))"
  using HasVersionName_Some [OF assms] HasVersionName_None [OF assms] by blast

end
