(* ===== verification/Common.thy ===== *)
theory Common
  imports Addon_Types
begin

text \<open>
  The helpers of \<^verbatim>\<open>pkg/common\<close> (\<^verbatim>\<open>helpers.go\<close>, \<^verbatim>\<open>schemas.go\<close>): string slices, the time to
  live, the translation of Argo workflow phases, the parser of workflow names and the
  resource identifiers. The lemmas show that the parser inverts the workflow names that
  \<open>GetFormattedWorkflowName\<close> makes, when a start time counts as expired on 64-bit
  arithmetic, and how every workflow phase is translated.
\<close>

section \<open>String slices\<close>

fun ContainsString :: "string list \<Rightarrow> string \<Rightarrow> bool" where
  "ContainsString [] s = False"
| "ContainsString (item # items) s = (if item = s then True else ContainsString items s)"

fun RemoveString :: "string list \<Rightarrow> string \<Rightarrow> string list" where
  "RemoveString [] s = []"
| "RemoveString (item # items) s =
     (if item = s then RemoveString items s else item # RemoveString items s)"

lemma ContainsString_iff [simp]: "ContainsString xs s \<longleftrightarrow> s \<in> set xs"
  by (induction xs) auto

lemma RemoveString_filter: "RemoveString xs s = filter (\<lambda>x. x \<noteq> s) xs"
  by (induction xs) auto

section \<open>Time to live\<close>

text \<open>\<open>GetCurrentTimestamp()\<close>, the clock in milliseconds, is the argument \<open>now\<close>.\<close>

definition IsExpired :: "int64 \<Rightarrow> int64 \<Rightarrow> int64 \<Rightarrow> bool" where
  "IsExpired now startTime ttlTime = (if sint ttlTime \<le> sint (now - startTime) then True else False)"

section \<open>Conversion from unstructured objects\<close>

text \<open>
  The converter of \<open>apimachinery\<close> and \<open>encoding/json\<close> on these types are arguments: the
  conversion itself, marshalling the object, and unmarshalling into the typed value.
\<close>

definition FromUnstructuredObj ::
    "('u \<Rightarrow> goerr + 'v) \<Rightarrow> ('u \<Rightarrow> goerr + string) \<Rightarrow> (string \<Rightarrow> goerr + 'v) \<Rightarrow> 'u \<Rightarrow> goerr + 'v" where
  "FromUnstructuredObj conv marshal unmarshal un =
     (case conv un of
        Inr v \<Rightarrow> Inr v
      | Inl e \<Rightarrow>
          if Error e = ''cannot convert int64 to v1alpha1.AnyString''
          then (case marshal un of Inl e' \<Rightarrow> Inl e' | Inr data \<Rightarrow> unmarshal data)
          else Inl e)"

definition addon_FromUnstructured ::
    "('u \<Rightarrow> goerr + Addon) \<Rightarrow> ('u \<Rightarrow> goerr + string) \<Rightarrow> (string \<Rightarrow> goerr + Addon) \<Rightarrow> 'u \<Rightarrow> goerr + Addon" where
  "addon_FromUnstructured conv marshal unmarshal un = FromUnstructuredObj conv marshal unmarshal un"

text \<open>The converter and the setters of \<open>unstructured\<close> are arguments.\<close>

definition ToUnstructured ::
    "('f \<Rightarrow> goerr + 'u) \<Rightarrow> (string \<Rightarrow> 'u \<Rightarrow> 'u) \<Rightarrow> (string \<Rightarrow> 'u \<Rightarrow> 'u) \<Rightarrow> 'f \<Rightarrow> goerr + 'u" where
  "ToUnstructured conv SetKind SetAPIVersion wf1 =
     (case conv wf1 of
        Inl err \<Rightarrow> Inl err
      | Inr ob \<Rightarrow> Inr (SetAPIVersion ''argoproj.io/v1alpha1'' (SetKind ''Workflow'' ob)))"

text \<open>The constructors of clients, given what \<open>NewForConfig\<close> answers; a nil client is \<open>None\<close>.\<close>

definition NewWFClient :: "goerr + 'c \<Rightarrow> 'c option" where
  "NewWFClient r = (case r of Inl err \<Rightarrow> None | Inr cli \<Rightarrow> Some cli)"

definition NewAddonClient :: "goerr + 'c \<Rightarrow> 'c option" where
  "NewAddonClient r = (case r of Inl err \<Rightarrow> None | Inr cli \<Rightarrow> Some cli)"

section \<open>Workflow phases and names\<close>

text \<open>
  The phases of an Argo workflow by the names of their constants; \<open>WorkflowUnknown\<close> is
  the empty phase, \<open>WorkflowOther\<close> any other string.
\<close>

datatype WorkflowPhase =
    WorkflowUnknown | WorkflowPending | WorkflowRunning | WorkflowSucceeded | WorkflowFailed
  | WorkflowError | WorkflowOther string

definition ConvertWorkflowPhaseToAddonPhase ::
    "LifecycleStep \<Rightarrow> WorkflowPhase \<Rightarrow> ApplicationAssemblyPhase" where
  "ConvertWorkflowPhaseToAddonPhase lifecycle phase =
     (if phase = WorkflowPending \<or> phase = WorkflowRunning then
        (if lifecycle = Delete then Deleting else Pending)
      else if phase = WorkflowSucceeded then
        (if lifecycle = Delete then DeleteSucceeded else Succeeded)
      else if phase = WorkflowFailed \<or> phase = WorkflowError then
        (if lifecycle = Delete then DeleteFailed else Failed)
      else [])"

definition ExtractChecksumAndLifecycleStep :: "string \<Rightarrow> goerr + (string \<times> LifecycleStep)" where
  "ExtractChecksumAndLifecycleStep addonWorkflowName =
     (let wfParts = Split addonWorkflowName ''-''; n = length wfParts
      in if n < 4 \<or> TrimSpace (wfParts ! (n - 1)) \<noteq> ''wf''
         then Inl (Errorf (''invalid workflow name '' @ addonWorkflowName))
         else
           (let checksum = TrimSpace (wfParts ! (n - 2));
                part = TrimSpace (wfParts ! (n - 3))
            in if part = ''prereqs'' then Inr (checksum, Prereqs)
               else if part = ''install'' then Inr (checksum, Install)
               else if part = ''validate'' then Inr (checksum, Validate)
               else if part = ''delete'' then Inr (checksum, Delete)
               else Inl (Errorf (''invalid lifecycle in workflow name '' @ addonWorkflowName))))"

section \<open>Resource identifiers\<close>

record GroupVersionResource =
  GVR_Group :: string
  GVR_Version :: string
  GVR_Resource :: string

definition AddonGVR :: GroupVersionResource where
  "AddonGVR = \<lparr>GVR_Group = ''addonmgr.keikoproj.io'', GVR_Version = ''v1alpha1'',
               GVR_Resource = ''addons''\<rparr>"

definition CRDGVR :: GroupVersionResource where
  "CRDGVR = \<lparr>GVR_Group = ''apiextensions.k8s.io'', GVR_Version = ''v1'',
             GVR_Resource = ''customresourcedefinitions''\<rparr>"

definition SecretGVR :: GroupVersionResource where
  "SecretGVR = \<lparr>GVR_Group = [], GVR_Version = ''v1'', GVR_Resource = ''secrets''\<rparr>"

definition WorkflowGVR :: GroupVersionResource where
  "WorkflowGVR = \<lparr>GVR_Group = ''argoproj.io'', GVR_Version = ''v1alpha1'',
                  GVR_Resource = ''workflows''\<rparr>"

section \<open>Lemmas on workflow names\<close>

lemma space_free:
  "\<forall>c \<in> set ''0123456789abcdef''. \<not> is_space c" "\<forall>c \<in> set ''wf''. \<not> is_space c"
  by (simp_all add: is_space_def)

definition lifecycle_steps :: "LifecycleStep set" where
  "lifecycle_steps = {Prereqs, Install, Delete, Validate}"

lemma step_no_dash: "step \<in> lifecycle_steps \<Longrightarrow> CHR ''-'' \<notin> set step"
  by (auto simp: lifecycle_steps_def step_const_defs)

lemma step_TrimSpace: "step \<in> lifecycle_steps \<Longrightarrow> TrimSpace step = step"
  by (rule TrimSpace_id) (auto simp: lifecycle_steps_def step_const_defs is_space_def)

lemma checksum_no_dash: "CHR ''-'' \<notin> set (CalculateChecksum a)"
  using CalculateChecksum_digits [of a] by auto

lemma checksum_TrimSpace: "TrimSpace (CalculateChecksum a) = CalculateChecksum a"
  by (rule TrimSpace_id) (use CalculateChecksum_digits [of a] space_free(1) in blast)

lemma Split_workflow_name:
  assumes "CHR ''-'' \<notin> set step" and "CHR ''-'' \<notin> set chk"
  shows "Split (prefix @ ''-'' @ step @ ''-'' @ chk @ ''-wf'') ''-'' =
           Split prefix ''-'' @ [step, chk, ''wf'']"
  using assms by (simp add: Split_append Split_free)

lemma workflow_name_form:
  assumes "step \<in> lifecycle_steps"
  obtains prefix where "GetFormattedWorkflowName a step =
    prefix @ ''-'' @ step @ ''-'' @ CalculateChecksum a @ ''-wf''"
proof -
  from assms obtain wt where "GetWorkflowType a step = Inr wt"
    by (auto simp: lifecycle_steps_def GetWorkflowType_def)
  then show thesis
    using that by (auto simp: GetFormattedWorkflowName_def Let_def split: if_splits)
qed

lemma Extract_parts:
  assumes "Split name ''-'' = xs @ [step, chk, ''wf'']" and "xs \<noteq> []"
    and "step \<in> lifecycle_steps" and "TrimSpace chk = chk"
  shows "ExtractChecksumAndLifecycleStep name = Inr (chk, step)"
proof -
  let ?ps = "xs @ [step, chk, ''wf'']"
  have n: "length ?ps = length xs + 3" "\<not> length xs + 3 < 4"
    using assms(2) by (cases xs; simp)+
  have wf: "TrimSpace (?ps ! (length xs + 3 - 1)) = ''wf''"
    using TrimSpace_id [OF space_free(2)] by (simp add: nth_append)
  have chk: "TrimSpace (?ps ! (length xs + 3 - 2)) = chk"
    using assms(4) by (simp add: nth_append)
  have st: "TrimSpace (?ps ! (length xs + 3 - 3)) = step"
    using step_TrimSpace [OF assms(3)] by (simp add: nth_append)
  have "ExtractChecksumAndLifecycleStep name =
     (if step = ''prereqs'' then Inr (chk, Prereqs)
      else if step = ''install'' then Inr (chk, Install)
      else if step = ''validate'' then Inr (chk, Validate)
      else if step = ''delete'' then Inr (chk, Delete)
      else Inl (Errorf (''invalid lifecycle in workflow name '' @ name)))"
    unfolding ExtractChecksumAndLifecycleStep_def Let_def assms(1) n(1) wf chk st
    using n(2) by (simp only: simp_thms if_False)
  then show ?thesis
    using assms(3) by (auto simp: lifecycle_steps_def step_const_defs)
qed

lemma extract_workflow_name:
  assumes "step \<in> lifecycle_steps"
  shows "ExtractChecksumAndLifecycleStep (GetFormattedWorkflowName a step) =
    Inr (CalculateChecksum a, step)"
proof -
  obtain prefix where name: "GetFormattedWorkflowName a step =
      prefix @ ''-'' @ step @ ''-'' @ CalculateChecksum a @ ''-wf''"
    using workflow_name_form [OF assms] by blast
  show ?thesis
    unfolding name
    by (rule Extract_parts [OF Split_workflow_name])
      (simp_all add: assms step_no_dash checksum_no_dash checksum_TrimSpace)
qed

section \<open>Expiry\<close>

text \<open>
  With a clock and a start time that are not negative the 64-bit subtraction does not wrap.
\<close>

lemma IsExpired_nonneg:
  assumes "0 \<le> sint now" and "0 \<le> sint startTime"
  shows "IsExpired now startTime ttl \<longleftrightarrow> sint startTime + sint ttl \<le> sint now"
proof -
  have "sint now < 2 ^ 63" "sint startTime < 2 ^ 63"
    using sint_lt [of now] sint_lt [of startTime] by simp_all
  then have "- (2 ^ 63) \<le> sint now - sint startTime" "sint now - sint startTime < 2 ^ 63"
    using assms by simp_all
  then have "sint (now - startTime) = sint now - sint startTime"
    by (simp add: sint_word_ariths signed_take_bit_int_eq_self)
  then show ?thesis by (auto simp: IsExpired_def)
qed

section \<open>Properties\<close>

text \<open>
  C9: Parsing the name that is generated for a lifecycle workflow gives back the checksum of
  the addon and the lifecycle step, for any addon name and any name prefix, dashes
  included.
\<close>

theorem workflow_name_roundtrip:
  assumes "step \<in> lifecycle_steps"
  shows "ExtractChecksumAndLifecycleStep (GetFormattedWorkflowName a step) =
    Inr (CalculateChecksum a, step)"
  by (rule extract_workflow_name [OF assms])

theorem workflow_name_roundtrip_witness:
  "ExtractChecksumAndLifecycleStep (GetFormattedWorkflowName (zero_Addon ''my-addon'' ''ns'') Install)
     = Inr (CalculateChecksum (zero_Addon ''my-addon'' ''ns''), Install)"
  by (rule workflow_name_roundtrip) (simp add: lifecycle_steps_def)

text \<open>
  Every workflow phase has exactly one meaning for the addon: the translation is a
  completed phase exactly for succeeded, failed and errored workflows, it is empty
  exactly for the phases that say nothing, and it is a deleting phase exactly when the
  step is the delete step and the phase says something.
\<close>

lemma phase_translation:
  "(phase_Completed (ConvertWorkflowPhaseToAddonPhase step p) \<longleftrightarrow>
      p \<in> {WorkflowSucceeded, WorkflowFailed, WorkflowError}) \<and>
   (phase_Succeeded (ConvertWorkflowPhaseToAddonPhase step p) \<longleftrightarrow> p = WorkflowSucceeded) \<and>
   (ConvertWorkflowPhaseToAddonPhase step p = [] \<longleftrightarrow>
      p \<notin> {WorkflowPending, WorkflowRunning, WorkflowSucceeded, WorkflowFailed, WorkflowError}) \<and>
   (phase_Deleting (ConvertWorkflowPhaseToAddonPhase step p) \<longleftrightarrow>
      step = Delete \<and> ConvertWorkflowPhaseToAddonPhase step p \<noteq> [])"
  by (cases p) (auto simp: ConvertWorkflowPhaseToAddonPhase_def phase_pred_defs)

end
