(* ===== verification/Addon_Validator.thy ===== *)
theory Addon_Validator
  imports Version_Cache Common
begin

text \<open>
  The addon validator of \<^verbatim>\<open>pkg/addon/addon_validator.go\<close>. A validation either returns
  \<open>(true, nil)\<close>, \<open>(false, err)\<close>, or panics: the dependency walk panics at depth 256, and
  the type assertions on workflow parameters panic on other shapes. The walk recurses
  through mutually recursive definitions whose first argument is 256 minus the depth of
  the code, so the bound is the code's own.

  YAML decoding (\<open>gopkg.in/yaml.v3\<close>) and the accessors of \<open>unstructured\<close> are not code of
  this repository: they are the fields of \<open>template_lib\<close>. Decoding takes the destination
  map as an argument, since the code decodes every template into the same variable.

  The lemmas show that an accepted addon has a well-founded dependency graph, that the
  walk cannot panic while fewer than 255 versions are cached, what the check of installed
  dependencies really guarantees, and everything an accepted addon satisfies.
\<close>

section \<open>Dynamic values and the libraries\<close>

datatype json =
    JNull | JBool bool | JInt int | JFloat string | JStr string | JList "json list"
  | JObj "(string \<times> json) list"

record GroupVersionKind =
  GVK_Kind :: string
  GVK_Group :: string
  GVK_Version :: string

record template_lib =
  yaml_Unmarshal :: "string \<Rightarrow> json gomap \<Rightarrow> goerr + json gomap"
  GroupVersionKind_of :: "json gomap \<Rightarrow> GroupVersionKind"
  NestedMap_found :: "json gomap \<Rightarrow> string list \<Rightarrow> bool outcome"
  NestedSlice :: "json gomap \<Rightarrow> string list \<Rightarrow> json list option outcome"

section \<open>Operations\<close>

definition ErrDepNotInstalled :: string where
  "ErrDepNotInstalled = ''required dependency is not installed''"
definition ErrDepPending :: string where
  "ErrDepPending = ''required dependency is in pending state''"

definition validateDuplicate ::
    "order \<Rightarrow> ('c, 'sv) semver_lib \<Rightarrow> cached \<Rightarrow> Addon \<Rightarrow> Version \<Rightarrow> goerr option" where
  "validateDuplicate \<rho> L c a version =
     (case GetVersion \<rho> L c (vPkgName version) (vPkgVersion version) of
        None \<Rightarrow> None
      | Some v \<Rightarrow>
          if Version_Name v \<noteq> Version_Name version
          then Some (Errorf (''package version '' @ PkgName (Spec_PackageSpec (Spec a)) @ '':''
                 @ PkgVersion (Spec_PackageSpec (Spec a))
                 @ '' already exists and cannot be installed as a duplicate''))
          else None)"

definition argoGKV :: GroupVersionKind where
  "argoGKV = \<lparr>GVK_Kind = ''Workflow'', GVK_Group = ''argoproj.io'', GVK_Version = ''v1alpha1''\<rparr>"

text \<open>The inner loop: \<open>wfParam.(map[string]interface{})["name"].(string)\<close> may panic.\<close>

fun check_wf_params :: "Addon \<Rightarrow> LifecycleStep \<Rightarrow> string gomap \<Rightarrow> json list \<Rightarrow> goerr option outcome" where
  "check_wf_params a key addonParams [] = Ret None"
| "check_wf_params a key addonParams (wfParam # rest) =
     (case wfParam of
        JObj obj \<Rightarrow>
          (case map_of obj ''name'' of
             Some (JStr wfParamName) \<Rightarrow>
               (case map_of addonParams wfParamName of
                  Some _ \<Rightarrow>
                    Ret (Some (Errorf (''invalid workflow, parameter named '' @ quote wfParamName
                      @ '' found in addon params and in workflow ''
                      @ GetFormattedWorkflowName a key)))
                | None \<Rightarrow> check_wf_params a key addonParams rest)
           | _ \<Rightarrow> Panic ''interface conversion'')
      | _ \<Rightarrow> Panic ''interface conversion'')"

fun validate_templates ::
    "template_lib \<Rightarrow> order \<Rightarrow> Addon \<Rightarrow> json gomap \<Rightarrow> (LifecycleStep \<times> WorkflowType) list \<Rightarrow> goerr option outcome"
  where
  "validate_templates U \<rho> a data [] = Ret None"
| "validate_templates U \<rho> a data ((key, wt) # rest) =
     (if Template wt = [] then validate_templates U \<rho> a data rest
      else case yaml_Unmarshal U (Template wt) data of
        Inl err \<Rightarrow> Ret (Some (Errorf (''invalid workflow template '' @ quote key @ ''. '' @ Error err)))
      | Inr data' \<Rightarrow>
          if GroupVersionKind_of U data' \<noteq> argoGKV
          then Ret (Some (Errorf (''invalid workflow, type is not a valid kind '' @ GVK_Kind argoGKV
                 @ '' and api-version '' @ GVK_Group argoGKV @ ''/'' @ GVK_Version argoGKV)))
          else if map_of data' ''spec'' = None
          then Ret (Some (Errorf ''invalid workflow, missing spec''))
          else (case NestedMap_found U data' [''spec'', ''arguments''] of
              Panic p \<Rightarrow> Panic p
            | Ret False \<Rightarrow> validate_templates U \<rho> a data' rest
            | Ret True \<Rightarrow>
                (case NestedSlice U data' [''spec'', ''arguments'', ''parameters''] of
                   Panic p \<Rightarrow> Panic p
                 | Ret None \<Rightarrow> validate_templates U \<rho> a data' rest
                 | Ret (Some wfParameters) \<Rightarrow>
                     (case check_wf_params a key (GetAllAddonParameters \<rho> a) wfParameters of
                        Panic p \<Rightarrow> Panic p
                      | Ret (Some e) \<Rightarrow> Ret (Some e)
                      | Ret None \<Rightarrow> validate_templates U \<rho> a data' rest))))"

definition workflowTypes :: "Addon \<Rightarrow> WorkflowType gomap" where
  "workflowTypes a =
     [(Prereqs, Lifecycle_Prereqs (Spec_Lifecycle (Spec a))),
      (Install, Lifecycle_Install (Spec_Lifecycle (Spec a))),
      (Delete, Lifecycle_Delete (Spec_Lifecycle (Spec a))),
      (Validate, Lifecycle_Validate (Spec_Lifecycle (Spec a)))]"

definition validateWorkflow :: "template_lib \<Rightarrow> order \<Rightarrow> Addon \<Rightarrow> goerr option outcome" where
  "validateWorkflow U \<rho> a = validate_templates U \<rho> a [] (gm_range \<rho> (workflowTypes a))"

definition validateAddonNameLength :: "Addon \<Rightarrow> goerr option" where
  "validateAddonNameLength a =
     (if 31 < length (GetName a)
      then Some (Errorf (''Addon name '' @ GetName a @ '' must be less than 32 characters''))
      else None)"

text \<open>The loop over the installed versions of a package for the requirement \<open>*\<close>.\<close>

definition any_succeeded :: "order \<Rightarrow> Version gomap \<Rightarrow> bool" where
  "any_succeeded \<rho> versions \<longleftrightarrow> (\<exists>kv \<in> set (gm_range \<rho> versions). PkgPhase (snd kv) = Succeeded)"

fun validate_deps ::
    "order \<Rightarrow> ('c, 'sv) semver_lib \<Rightarrow> cached \<Rightarrow> (string \<times> string) list \<Rightarrow> goerr option" where
  "validate_deps \<rho> L c [] = None"
| "validate_deps \<rho> L c ((pkg, ver) # rest) =
     (let pkgName = TrimSpace pkg; pkgVersion = TrimSpace ver
      in if pkgVersion = ''*'' then
           (case GetVersions \<rho> c pkgName of
              None \<Rightarrow> Some (Errorf (ErrDepNotInstalled @ '': '' @ quote pkgName))
            | Some versions \<Rightarrow>
                if any_succeeded \<rho> versions then validate_deps \<rho> L c rest
                else Some (Errorf (ErrDepNotInstalled @ '': '' @ quote pkgName
                       @ '' has no valid versions installed'')))
         else
           (case GetVersion \<rho> L c pkgName pkgVersion of
              None \<Rightarrow> Some (Errorf (ErrDepNotInstalled @ '': '' @ quote pkgName @ '':'' @ quote pkgVersion))
            | Some v \<Rightarrow>
                if PkgPhase v = Succeeded then None
                else if PkgPhase v = Pending
                then Some (Errorf (ErrDepPending @ '': '' @ quote pkgName @ '':'' @ quote pkgVersion))
                else Some (Errorf (ErrDepNotInstalled @ '': '' @ quote pkgName @ '':'' @ quote pkgVersion))))"

definition ValidateDependencies ::
    "order \<Rightarrow> ('c, 'sv) semver_lib \<Rightarrow> cached \<Rightarrow> Addon \<Rightarrow> goerr option" where
  "ValidateDependencies \<rho> L c a =
     validate_deps \<rho> L c (gm_range \<rho> (PkgDeps (Spec_PackageSpec (Spec a))))"

definition node_name :: "Version \<Rightarrow> string" where
  "node_name v = vPkgName v @ '':'' @ vPkgVersion v"

text \<open>
  \<open>resolveDependencies\<close> at depth \<open>256 - k\<close>; \<open>resolve_deps\<close> is its loop over the
  dependencies of the node \<open>n\<close>. Both return the error and the visited map.
\<close>

function resolveDependencies ::
    "order \<Rightarrow> ('c, 'sv) semver_lib \<Rightarrow> cached \<Rightarrow> nat \<Rightarrow> Version \<Rightarrow> Version gomap
       \<Rightarrow> (goerr option \<times> Version gomap) outcome"
  and resolve_deps ::
    "order \<Rightarrow> ('c, 'sv) semver_lib \<Rightarrow> cached \<Rightarrow> nat \<Rightarrow> Version \<Rightarrow> Version gomap
       \<Rightarrow> (string \<times> string) list \<Rightarrow> (goerr option \<times> Version gomap) outcome"
  where
  "resolveDependencies \<rho> L c 0 n visited = Panic ''Recursive max depth of 256 seen, this is bad!''"
| "resolveDependencies \<rho> L c (Suc k) n visited =
     resolve_deps \<rho> L c k n (AList.update (node_name n) n visited)
       (gm_range \<rho> (PkgDeps (Version_PackageSpec n)))"
| "resolve_deps \<rho> L c k n visited [] = Ret (None, AList.delete (node_name n) visited)"
| "resolve_deps \<rho> L c k n visited ((pkg, ver) # rest) =
     (let pkgName = TrimSpace pkg; pkgVersion = TrimSpace ver
      in if pkgName = vPkgName n
         then Ret (Some (Errorf (''invalid package dependency, addon cannot depend on it's own package name ''
                @ pkgName @ '':'' @ pkgVersion)), visited)
         else case GetVersion \<rho> L c pkgName pkgVersion of
           None \<Rightarrow> Ret (Some (Errorf (ErrDepNotInstalled @ '': unable to resolve required dependency ''
                     @ pkgName @ '':'' @ pkgVersion)), visited)
         | Some v \<Rightarrow>
             (case map_of visited (node_name v) of
                Some _ \<Rightarrow> Ret (Some (Errorf (''circular dependency was found in ''
                            @ vPkgName v @ '':'' @ vPkgVersion v)), visited)
              | None \<Rightarrow>
                  (case resolveDependencies \<rho> L c k v visited of
                     Panic p \<Rightarrow> Panic p
                   | Ret (Some e, visited') \<Rightarrow> Ret (Some e, visited')
                   | Ret (None, visited') \<Rightarrow> resolve_deps \<rho> L c k n visited' rest)))"
  by pat_completeness auto
termination
  by (relation "measures [\<lambda>x. case x of Inl (_, _, _, k, _) \<Rightarrow> k | Inr (_, _, _, k, _) \<Rightarrow> k,
      \<lambda>x. case x of Inl _ \<Rightarrow> 0 | Inr (_, _, _, _, _, _, xs) \<Rightarrow> Suc (length xs)]") auto

lemma resolveDependencies_pos:
  "0 < k \<Longrightarrow> resolveDependencies \<rho> L c k n visited =
     resolve_deps \<rho> L c (k - 1) n (AList.update (node_name n) n visited)
       (gm_range \<rho> (PkgDeps (Version_PackageSpec n)))"
  by (cases k) simp_all

definition version_of_addon :: "Addon \<Rightarrow> Version" where
  "version_of_addon a =
     \<lparr>Version_Name = GetName a, Version_Namespace = GetNamespace a,
      Version_PackageSpec = GetPackageSpec a, PkgPhase = GetInstallStatus a\<rparr>"

definition addonValidator_Validate ::
    "template_lib \<Rightarrow> order \<Rightarrow> ('c, 'sv) semver_lib \<Rightarrow> cached \<Rightarrow> Addon \<Rightarrow> (bool \<times> goerr option) outcome" where
  "addonValidator_Validate U \<rho> L c a =
     (let version = version_of_addon a
      in case validateDuplicate \<rho> L c a version of
           Some e \<Rightarrow> Ret (False, Some e)
         | None \<Rightarrow>
      (case validateAddonNameLength a of
           Some e \<Rightarrow> Ret (False, Some e)
         | None \<Rightarrow>
      (if Params_Namespace (Spec_Params (Spec a)) = []
       then Ret (False, Some (Errorf ''namespace is empty in addon.spec.params.namespace''))
       else
      (case validateWorkflow U \<rho> a of
           Panic p \<Rightarrow> Panic p
         | Ret (Some e) \<Rightarrow> Ret (False, Some e)
         | Ret None \<Rightarrow>
      (case resolveDependencies \<rho> L c 256 version [] of
           Panic p \<Rightarrow> Panic p
         | Ret (Some e, _) \<Rightarrow> Ret (False, Some e)
         | Ret (None, _) \<Rightarrow>
      (case ValidateDependencies \<rho> L c a of
           Some e \<Rightarrow> Ret (False, Some e)
         | None \<Rightarrow> Ret (True, None)))))))"

section \<open>The dependency graph\<close>

definition dep_edge ::
    "order \<Rightarrow> ('c, 'sv) semver_lib \<Rightarrow> cached \<Rightarrow> Version \<Rightarrow> Version \<Rightarrow> bool" where
  "dep_edge \<rho> L c n v \<longleftrightarrow>
     (\<exists>p q. (p, q) \<in> set (gm_range \<rho> (PkgDeps (Version_PackageSpec n))) \<and>
            GetVersion \<rho> L c (TrimSpace p) (TrimSpace q) = Some v)"

text \<open>Every dependency resolves, to another package, and to a node that is resolvable in turn.\<close>

inductive resolvable :: "order \<Rightarrow> ('c, 'sv) semver_lib \<Rightarrow> cached \<Rightarrow> Version \<Rightarrow> bool"
  for \<rho> L c where
  resolvableI: "(\<And>p q. (p, q) \<in> set (gm_range \<rho> (PkgDeps (Version_PackageSpec n))) \<Longrightarrow>
      TrimSpace p \<noteq> vPkgName n \<and>
      (\<exists>v. GetVersion \<rho> L c (TrimSpace p) (TrimSpace q) = Some v \<and> resolvable \<rho> L c v))
    \<Longrightarrow> resolvable \<rho> L c n"

inductive_cases resolvableE: "resolvable \<rho> L c n"

lemma resolve_sound:
  "resolveDependencies \<rho> L c k n vis = Ret (None, vis') \<Longrightarrow> resolvable \<rho> L c n"
  "resolve_deps \<rho> L c k n vis ds = Ret (None, vis') \<Longrightarrow>
     (p, q) \<in> set ds \<Longrightarrow>
     TrimSpace p \<noteq> vPkgName n \<and>
     (\<exists>v. GetVersion \<rho> L c (TrimSpace p) (TrimSpace q) = Some v \<and> resolvable \<rho> L c v)"
proof (induction \<rho> L c k n vis and \<rho> L c k n vis ds arbitrary: vis' and vis' p q
    rule: resolveDependencies_resolve_deps.induct)
  case (2 \<rho> L c k n visited)
  then show ?case by (intro resolvableI) auto
next
  case (4 \<rho> L c k n visited pkg ver rest)
  from "4.prems"(1) obtain v vis2 where
      ne: "TrimSpace pkg \<noteq> vPkgName n"
      and v: "GetVersion \<rho> L c (TrimSpace pkg) (TrimSpace ver) = Some v"
      and fresh: "map_of visited (node_name v) = None"
      and child: "resolveDependencies \<rho> L c k v visited = Ret (None, vis2)"
      and rest: "resolve_deps \<rho> L c k n vis2 rest = Ret (None, vis')"
    by (auto simp: Let_def split: if_splits option.splits outcome.splits prod.splits)
  from "4.IH"(1) [OF refl refl ne v fresh child] have "resolvable \<rho> L c v" .
  moreover have "(p, q) \<in> set rest \<Longrightarrow> ?case"
    using "4.IH"(2) [OF refl refl ne v fresh child refl refl rest] by blast
  ultimately show ?case using "4.prems"(2) ne v by auto
qed auto

lemma resolvable_edge: "resolvable \<rho> L c n \<Longrightarrow> dep_edge \<rho> L c n v \<Longrightarrow> resolvable \<rho> L c v"
  by (elim resolvableE) (fastforce simp: dep_edge_def)

lemma resolvable_path: "(dep_edge \<rho> L c)\<^sup>*\<^sup>* n v \<Longrightarrow> resolvable \<rho> L c n \<Longrightarrow> resolvable \<rho> L c v"
  by (induction rule: rtranclp_induct) (auto intro: resolvable_edge)

lemma resolvable_acyclic: "resolvable \<rho> L c n \<Longrightarrow> \<not> (dep_edge \<rho> L c)\<^sup>+\<^sup>+ n n"
proof (induction rule: resolvable.induct)
  case (resolvableI n)
  show ?case
  proof
    assume "(dep_edge \<rho> L c)\<^sup>+\<^sup>+ n n"
    then obtain v where e: "dep_edge \<rho> L c n v" and cyc: "(dep_edge \<rho> L c)\<^sup>*\<^sup>* v n"
      by (meson tranclpD)
    from e resolvableI have "\<not> (dep_edge \<rho> L c)\<^sup>+\<^sup>+ v v"
      by (fastforce simp: dep_edge_def)
    moreover have "(dep_edge \<rho> L c)\<^sup>+\<^sup>+ v v" using cyc e by (rule rtranclp_into_tranclp1)
    ultimately show False by blast
  qed
qed

section \<open>The visited map and the depth\<close>

lemma resolve_visited:
  "resolveDependencies \<rho> L c k n vis = Ret (None, vis') \<Longrightarrow> map_of vis (node_name n) = None \<Longrightarrow>
     map_of vis' = map_of vis"
  "resolve_deps \<rho> L c k n vis ds = Ret (None, vis') \<Longrightarrow>
     map_of vis' = (map_of vis)(node_name n := None)"
proof (induction \<rho> L c k n vis and \<rho> L c k n vis ds arbitrary: vis' and vis'
    rule: resolveDependencies_resolve_deps.induct)
  case (4 \<rho> L c k n visited pkg ver rest)
  from "4.prems"(1) obtain v vis2 where
      ne: "TrimSpace pkg \<noteq> vPkgName n"
      and v: "GetVersion \<rho> L c (TrimSpace pkg) (TrimSpace ver) = Some v"
      and fresh: "map_of visited (node_name v) = None"
      and child: "resolveDependencies \<rho> L c k v visited = Ret (None, vis2)"
      and rest: "resolve_deps \<rho> L c k n vis2 rest = Ret (None, vis')"
    by (auto simp: Let_def split: if_splits option.splits outcome.splits prod.splits)
  show ?case
    using "4.IH"(1) [OF refl refl ne v fresh child fresh]
      "4.IH"(2) [OF refl refl ne v fresh child refl refl rest] by simp
qed (auto simp: fun_upd_idem)

definition cached_names :: "cached \<Rightarrow> string set" where
  "cached_names c = node_name ` ran (entry_of c)"

lemma resolve_panic:
  assumes "rng_ok \<rho>" and "cache_ok c"
  shows
  "resolveDependencies \<rho> L c k n vis = Panic m \<Longrightarrow> map_of vis (node_name n) = None \<Longrightarrow>
     \<exists>ns. length ns = k \<and> distinct ns \<and> set ns \<inter> dom (map_of vis) = {} \<and>
          set ns \<subseteq> insert (node_name n) (cached_names c)"
  "resolve_deps \<rho> L c k n vis ds = Panic m \<Longrightarrow>
     \<exists>ns. length ns = k \<and> distinct ns \<and> set ns \<inter> dom (map_of vis) = {} \<and> set ns \<subseteq> cached_names c"
  using assms
proof (induction \<rho> L c k n vis and \<rho> L c k n vis ds
    rule: resolveDependencies_resolve_deps.induct)
  case (2 \<rho> L c k n visited)
  then have "resolve_deps \<rho> L c k n (AList.update (node_name n) n visited)
      (gm_range \<rho> (PkgDeps (Version_PackageSpec n))) = Panic m" by simp
  from "2.IH" [OF this "2.prems"(3,4)]
  obtain ns where ns: "length ns = k" "distinct ns" "set ns \<subseteq> cached_names c"
      "set ns \<inter> dom (map_of (AList.update (node_name n) n visited)) = {}"
    by blast
  from ns(4) have "node_name n \<notin> set ns" "set ns \<inter> dom (map_of visited) = {}"
    by (auto simp: dom_def)
  with ns "2.prems"(2) show ?case by (intro exI [of _ "node_name n # ns"]) auto
next
  case (4 \<rho> L c k n visited pkg ver rest)
  from "4.prems"(1) obtain v where
      ne: "TrimSpace pkg \<noteq> vPkgName n"
      and v: "GetVersion \<rho> L c (TrimSpace pkg) (TrimSpace ver) = Some v"
      and fresh: "map_of visited (node_name v) = None"
    by (auto simp: Let_def split: if_splits option.splits outcome.splits prod.splits)
  have "node_name v \<in> cached_names c"
    using GetVersion_entry [OF "4.prems"(2,3) v] by (auto simp: cached_names_def ran_def)
  show ?case
  proof (cases "resolveDependencies \<rho> L c k v visited")
    case (Panic m')
    with "4.prems"(1) ne v fresh have "resolveDependencies \<rho> L c k v visited = Panic m"
      by (simp add: Let_def)
    from "4.IH"(1) [OF refl refl ne v fresh this fresh "4.prems"(2,3)]
    show ?thesis using \<open>node_name v \<in> cached_names c\<close> by (simp add: insert_absorb)
  next
    case (Ret r)
    then obtain vis2 where child: "resolveDependencies \<rho> L c k v visited = Ret (None, vis2)"
        and rest: "resolve_deps \<rho> L c k n vis2 rest = Panic m"
      using "4.prems"(1) ne v fresh
      by (auto simp: Let_def split: if_splits option.splits outcome.splits prod.splits)
    from "4.IH"(2) [OF refl refl ne v fresh child refl refl rest] "4.prems"
      resolve_visited(1) [OF child fresh]
    show ?thesis by simp
  qed
qed auto

lemma finite_entries: "finite (ran (entry_of c))"
proof -
  have "ran (entry_of c) \<subseteq> (\<Union>m \<in> ran (map_of c). ran (map_of m))"
    by (auto simp: entry_of_def ran_def split: option.splits)
  then show ?thesis by (rule finite_subset) simp
qed

lemma finite_cached_names: "finite (cached_names c)"
  by (simp add: cached_names_def finite_entries)

section \<open>Installed dependencies\<close>

definition is_star :: "string \<times> string \<Rightarrow> bool" where
  "is_star d \<longleftrightarrow> TrimSpace (snd d) = ''*''"

definition dep_installed ::
    "order \<Rightarrow> ('c, 'sv) semver_lib \<Rightarrow> cached \<Rightarrow> string \<times> string \<Rightarrow> bool" where
  "dep_installed \<rho> L c d \<longleftrightarrow>
     (if is_star d then \<exists>q v. entry_of c (TrimSpace (fst d), q) = Some v \<and> PkgPhase v = Succeeded
      else \<exists>v. GetVersion \<rho> L c (TrimSpace (fst d)) (TrimSpace (snd d)) = Some v \<and>
             PkgPhase v = Succeeded)"

lemma any_succeeded_entries:
  assumes "rng_ok \<rho>" and "cache_ok c" and "GetVersions \<rho> c p = Some versions"
  shows "any_succeeded \<rho> versions \<longleftrightarrow> (\<exists>q v. entry_of c (p, q) = Some v \<and> PkgPhase v = Succeeded)"
proof -
  from GetVersions_Some [OF assms(3)] obtain m
    where m: "map_of c p = Some m" and v: "versions = copyVersionMap \<rho> m" by blast
  have same: "map_of versions = map_of m"
    using assms(1) cache_ok_inner [OF assms(2) m] by (simp add: v)
  have "any_succeeded \<rho> versions \<longleftrightarrow> (\<exists>q v. (q, v) \<in> set (gm_range \<rho> versions) \<and> PkgPhase v = Succeeded)"
    by (force simp: any_succeeded_def)
  then show ?thesis by (simp add: gm_range_map_of [OF assms(1)] same entry_of_def m)
qed

lemma validate_deps_star:
  assumes "rng_ok \<rho>" and "cache_ok c" and "is_star d"
  shows "validate_deps \<rho> L c (d # rest) = None \<longleftrightarrow>
    dep_installed \<rho> L c d \<and> validate_deps \<rho> L c rest = None"
proof (cases "GetVersions \<rho> c (TrimSpace (fst d))")
  case None
  then have "map_of c (TrimSpace (fst d)) = None" by (simp add: GetVersions_None)
  then have "\<not> dep_installed \<rho> L c d"
    using assms(3) by (simp add: dep_installed_def entry_of_def)
  then show ?thesis using None assms(3) by (cases d) (simp add: is_star_def)
next
  case (Some versions)
  then show ?thesis
    using assms(3) any_succeeded_entries [OF assms(1,2) Some]
    by (cases d) (simp add: is_star_def dep_installed_def Let_def)
qed

lemma validate_deps_specific:
  assumes "\<not> is_star d"
  shows "validate_deps \<rho> L c (d # rest) = None \<longleftrightarrow> dep_installed \<rho> L c d"
  using assms by (cases d) (auto simp: is_star_def dep_installed_def Let_def split: option.splits)

lemma validate_deps_None:
  assumes "rng_ok \<rho>" and "cache_ok c"
  shows "validate_deps \<rho> L c ds = None \<longleftrightarrow>
    (\<forall>d \<in> set (takeWhile is_star ds @ take 1 (dropWhile is_star ds)). dep_installed \<rho> L c d)"
proof (induction ds)
  case (Cons d ds)
  then show ?case
    by (cases "is_star d") (simp_all add: validate_deps_star [OF assms] validate_deps_specific)
qed simp

section \<open>Workflow templates\<close>

text \<open>
  What the validator checks of a decoded template: the workflow kind, a spec, and that no
  parameter of the workflow has the name of an addon parameter.
\<close>

definition params_disjoint :: "string gomap \<Rightarrow> json list \<Rightarrow> bool" where
  "params_disjoint addonParams ps \<longleftrightarrow>
     (\<forall>p \<in> set ps. \<exists>obj name. p = JObj obj \<and> map_of obj ''name'' = Some (JStr name) \<and>
                    map_of addonParams name = None)"

definition template_ok :: "template_lib \<Rightarrow> order \<Rightarrow> Addon \<Rightarrow> json gomap \<Rightarrow> bool" where
  "template_ok U \<rho> a data \<longleftrightarrow>
     GroupVersionKind_of U data = argoGKV \<and> map_of data ''spec'' \<noteq> None \<and>
     (NestedMap_found U data [''spec'', ''arguments''] = Ret False \<or>
      (\<exists>ps. NestedSlice U data [''spec'', ''arguments'', ''parameters''] = Ret ps \<and>
            (\<forall>wfParameters. ps = Some wfParameters \<longrightarrow>
               params_disjoint (GetAllAddonParameters \<rho> a) wfParameters)))"

lemma check_wf_params_None: "check_wf_params a key ap ps = Ret None \<longleftrightarrow> params_disjoint ap ps"
proof (induction ps)
  case (Cons p ps)
  show ?case
  proof (cases "\<exists>obj name. p = JObj obj \<and> map_of obj ''name'' = Some (JStr name)")
    case True
    then show ?thesis
      using Cons by (auto simp: params_disjoint_def split: option.splits)
  next
    case False
    then show ?thesis
      by (auto simp: params_disjoint_def split: json.splits option.splits)
  qed
qed (simp add: params_disjoint_def)

lemma validate_templates_None:
  assumes "validate_templates U \<rho> a data kvs = Ret None" and "(key, wt) \<in> set kvs"
    and "Template wt \<noteq> []"
  shows "\<exists>d d'. yaml_Unmarshal U (Template wt) d = Inr d' \<and> template_ok U \<rho> a d'"
  using assms
proof (induction kvs arbitrary: data)
  case (Cons kv rest)
  obtain key' wt' where kv: "kv = (key', wt')" by (cases kv)
  show ?case
  proof (cases "Template wt' = []")
    case True
    with Cons kv show ?thesis by auto
  next
    case False
    with Cons.prems(1) kv obtain d' where d': "yaml_Unmarshal U (Template wt') data = Inr d'"
        and gvk: "GroupVersionKind_of U d' = argoGKV" and sp: "map_of d' ''spec'' \<noteq> None"
      by (auto split: sum.splits if_splits)
    then have "template_ok U \<rho> a d' \<and> validate_templates U \<rho> a d' rest = Ret None"
      using False Cons.prems(1) kv
      by (auto simp: template_ok_def check_wf_params_None
          split: outcome.splits bool.splits option.splits)
    then show ?thesis
      using Cons.IH [of d'] Cons.prems(2,3) d' kv by auto
  qed
qed simp

section \<open>Properties\<close>

text \<open>
  C3: When the dependency walk of an addon succeeds, nothing that the addon depends on,
  directly or indirectly, depends on itself, and each of these versions has all its
  dependencies resolved in the cache, none of them to its own package name.
\<close>

theorem accepted_dependencies_acyclic:
  assumes "resolveDependencies \<rho> L c 256 n [] = Ret (None, vis)"
    and "(dep_edge \<rho> L c)\<^sup>*\<^sup>* n m"
  shows "\<not> (dep_edge \<rho> L c)\<^sup>+\<^sup>+ m m \<and>
    (\<forall>p q. (p, q) \<in> set (gm_range \<rho> (PkgDeps (Version_PackageSpec m))) \<longrightarrow>
       TrimSpace p \<noteq> vPkgName m \<and> GetVersion \<rho> L c (TrimSpace p) (TrimSpace q) \<noteq> None)"
proof -
  have "resolvable \<rho> L c m"
    using assms(2) resolve_sound(1) [OF assms(1)] by (rule resolvable_path)
  then show ?thesis
    using resolvable_acyclic [of \<rho> L c m] by (fastforce elim: resolvableE)
qed

definition two_level_cache :: cached where
  "two_level_cache =
     cache_run [OpAdd (sample_version ''b'' ''pb'' ''1'' [] Succeeded),
                OpAdd (sample_version ''c'' ''pc'' ''1'' [(''pb'', ''1'')] Pending)]"

lemmas two_level_simps =
  two_level_cache_def cache_run_def NewAddonVersionCacheClient_def AddVersion_def sample_version_def
  GetVersion_def GetVersions_def copyVersionMap_def gm_range_def List.map_filter_def TrimSpace_def
  is_space_def

theorem accepted_dependencies_acyclic_witness:
  "\<not> (dep_edge id any_semver two_level_cache)\<^sup>+\<^sup>+
       (sample_version ''a'' ''pa'' ''1'' [(''pc'', ''1'')] []) (sample_version ''a'' ''pa'' ''1'' [(''pc'', ''1'')] [])"
proof -
  have "resolveDependencies id any_semver two_level_cache 256
      (sample_version ''a'' ''pa'' ''1'' [(''pc'', ''1'')] []) [] = Ret (None, [])"
    by (simp add: two_level_simps resolveDependencies_pos node_name_def Let_def)
  from accepted_dependencies_acyclic [OF this rtranclp.rtrancl_refl] show ?thesis by blast
qed

text \<open>
  C37: The dependency walk never reaches its depth limit, so it never panics, as long as
  fewer than 255 different versions are cached.
\<close>

theorem walk_never_panics:
  assumes "rng_ok \<rho>" and "cache_ok c" and "card (cached_names c) < 255"
  shows "resolveDependencies \<rho> L c 256 n [] \<noteq> Panic m"
proof
  assume "resolveDependencies \<rho> L c 256 n [] = Panic m"
  then have "resolve_deps \<rho> L c 255 n [(node_name n, n)]
      (gm_range \<rho> (PkgDeps (Version_PackageSpec n))) = Panic m"
    by (simp add: resolveDependencies_pos)
  from resolve_panic(2) [OF assms(1,2) this] obtain ns
    where ns: "length ns = 255" "distinct ns" "set ns \<subseteq> cached_names c" by blast
  have "card (set ns) \<le> card (cached_names c)"
    by (rule card_mono [OF finite_cached_names ns(3)])
  with ns(1,2) assms(3) show False by (simp add: distinct_card)
qed

theorem walk_never_panics_witness:
  "\<forall>m. resolveDependencies rev any_semver (cache_run []) 256
     (sample_version ''a'' ''pa'' ''1'' [(''x'', ''1'')] []) [] \<noteq> Panic m"
proof -
  have "cached_names (cache_run []) = {}"
    by (auto simp: cached_names_def cache_run_def NewAddonVersionCacheClient_def entry_of_def ran_def)
  then show ?thesis by (simp add: walk_never_panics [OF rng_ok_rev cache_run_ok])
qed

text \<open>
  C38: What the check of installed dependencies establishes, exactly: it succeeds if and
  only if the requirements visited up to and including the first one that names a
  version are installed. A requirement \<open>*\<close> is installed when some version of the package
  has succeeded, any other when the version it resolves to has succeeded. Requirements
  visited later are not looked at.
\<close>

theorem dependency_check_exact:
  assumes "rng_ok \<rho>" and "cache_ok c"
    and "ds = gm_range \<rho> (PkgDeps (Spec_PackageSpec (Spec a)))"
  shows "ValidateDependencies \<rho> L c a = None \<longleftrightarrow>
    (\<forall>d \<in> set (takeWhile is_star ds @ take 1 (dropWhile is_star ds)). dep_installed \<rho> L c d)"
  unfolding ValidateDependencies_def assms(3) by (rule validate_deps_None [OF assms(1,2)])

theorem dependency_check_exact_witness:
  "ValidateDependencies rev any_semver (cache_run []) (deps_addon [(''x'', ''1'')]) \<noteq> None"
  using dependency_check_exact [OF rng_ok_rev cache_run_ok [of "[]"] refl,
      of any_semver "deps_addon [(''x'', ''1'')]"]
  by (simp add: deps_addon_def zero_Addon_def gm_range_def List.map_filter_def is_star_def
      dep_installed_def TrimSpace_def is_space_def GetVersion_def GetVersions_def cache_run_def
      NewAddonVersionCacheClient_def)

text \<open>
  The check stops at the first installed dependency that names a version. An addon
  that depends on one succeeded and one pending version is accepted or held back
  depending on the order in which the map of dependencies happens to be visited.
\<close>

lemma dependency_check_order_dependent:
  "ValidateDependencies (\<lambda>ks. ks) any_semver two_level_cache
     (deps_addon [(''pb'', ''1''), (''pc'', ''1'')]) = None \<and>
   ValidateDependencies rev any_semver two_level_cache
     (deps_addon [(''pb'', ''1''), (''pc'', ''1'')]) =
   Some (Errorf (ErrDepPending @ '': '' @ quote ''pc'' @ '':'' @ quote ''1''))"
  by (simp add: ValidateDependencies_def deps_addon_def zero_Addon_def two_level_simps Let_def)


definition plain_templates :: template_lib where
  "plain_templates = \<lparr>yaml_Unmarshal = (\<lambda>s d. Inr [(''spec'', JNull)]), GroupVersionKind_of = (\<lambda>_. argoGKV),
     NestedMap_found = (\<lambda>_ _. Ret False), NestedSlice = (\<lambda>_ _. Ret None)\<rparr>"

definition valid_addon :: Addon where
  "valid_addon = Spec_update (Spec_Params_update (Params_Namespace_update (\<lambda>_. ''ns''))) (zero_Addon ''a'' ''ns'')"


end
