(* ===== verification/Kube_API.thy ===== *)
theory Kube_API
  imports Addon_Validator
begin

text \<open>
  The services the controllers call and that are not code of this repository: the
  Kubernetes API through \<open>client.Client\<close> and the dynamic client, the Argo client, the label
  selector conversion of \<open>metav1\<close>, \<open>retry.RetryOnConflict\<close> of client-go and the finalizer
  helpers of \<open>controllerutil\<close>. They are the
  fields of the record \<open>kube\<close>, over a type \<open>'w\<close> of states of the outside world that the
  model leaves open: a field that writes returns the new world.

  What the code relies on is stated as predicates on the record (\<open>retry_law\<close>,
  \<open>status_write_law\<close>, \<open>get_law\<close>, \<open>finalizer_law\<close>); \<open>mem_kube\<close> at the end is a small API server held in memory, which
  satisfies them and on which examples are computed.

  The section on the manager's state gives the record that the updater and both
  controllers act on.
\<close>

section \<open>Objects\<close>

record OwnerReference =
  Owner_Kind :: string
  Owner_Name :: string

record Workflow =
  Workflow_Name :: string
  Workflow_Namespace :: string
  Workflow_DeletionTimestamp :: "int64 option"
  Workflow_Phase :: WorkflowPhase
  Workflow_Message :: string
  Workflow_Controller :: "OwnerReference option"

record kobject =
  KObject_Name :: string
  KObject_Namespace :: string
  KObject_SelfLink :: string

datatype kkind =
    KService | KJob | KCronJob | KDeployment | KDaemonSet | KReplicaSet | KStatefulSet | KNamespace

text \<open>The selector that \<open>metav1.LabelSelectorAsSelector\<close> makes, as its string.\<close>

type_synonym selector = string

section \<open>The API\<close>

text \<open>
  The closure that \<open>UpdateStatus\<close> retries writes to variables it shares with its caller:
  whether the race guard fired, and the phases (installed, prereqs) it saw then.
\<close>

type_synonym guard = "(ApplicationAssemblyPhase \<times> ApplicationAssemblyPhase) option"
type_synonym 's attempt = "'s \<Rightarrow> goerr option \<times> 's"

record 'w kube =
  kube_Get :: "string \<Rightarrow> string \<Rightarrow> 'w \<Rightarrow> goerr + Addon"
  kube_Update :: "Addon \<Rightarrow> 'w \<Rightarrow> (goerr + Addon) \<times> 'w"
  kube_StatusUpdate :: "Addon \<Rightarrow> 'w \<Rightarrow> goerr option \<times> 'w"
  kube_GetWorkflow :: "string \<Rightarrow> string \<Rightarrow> 'w \<Rightarrow> goerr + Workflow"
  kube_List :: "kkind \<Rightarrow> string option \<Rightarrow> selector \<Rightarrow> 'w \<Rightarrow> goerr + kobject list"
  argo_Get :: "string \<Rightarrow> string \<Rightarrow> 'w \<Rightarrow> goerr + Workflow"
  argo_List :: "string \<Rightarrow> selector \<Rightarrow> 'w \<Rightarrow> goerr + Workflow list"
  argo_Delete :: "string \<Rightarrow> string \<Rightarrow> 'w \<Rightarrow> goerr option \<times> 'w"
  dyn_ListSecrets :: "string \<Rightarrow> 'w \<Rightarrow> goerr + json gomap list"
  LabelSelectorAsSelector :: "LabelSelector \<Rightarrow> goerr + selector"
  RetryOnConflict :: "('w \<times> guard) attempt \<Rightarrow> ('w \<times> guard) attempt"
  ContainsFinalizer :: "Addon \<Rightarrow> string \<Rightarrow> bool"
  AddFinalizer :: "string \<Rightarrow> Addon \<Rightarrow> Addon"
  RemoveFinalizer :: "string \<Rightarrow> Addon \<Rightarrow> Addon"

text \<open>
  The documented behaviour of \<open>RetryOnConflict\<close>: the function runs once, and again as long
  as it reports a conflict and the backoff allows; the last run's result is returned.
\<close>

inductive attempts :: "'s attempt \<Rightarrow> 's \<Rightarrow> goerr option \<times> 's \<Rightarrow> bool" for fn where
  last_attempt: "attempts fn s (fn s)"
| next_attempt: "fn s = (Some e, s') \<Longrightarrow> IsConflict e \<Longrightarrow> attempts fn s' r \<Longrightarrow> attempts fn s r"

definition retry_law :: "'w kube \<Rightarrow> bool" where
  "retry_law K \<longleftrightarrow> (\<forall>fn s. attempts fn s (RetryOnConflict K fn s))"

text \<open>A successful status write stores the status and leaves the rest of the object alone.\<close>

definition status_write_law :: "'w kube \<Rightarrow> bool" where
  "status_write_law K \<longleftrightarrow>
     (\<forall>a w w'. kube_StatusUpdate K a w = (None, w') \<longrightarrow>
        (\<exists>b. kube_Get K (GetNamespace a) (GetName a) w' = Inr b \<and>
             Status b = Status a \<and> Spec b = Spec a))"

text \<open>A read returns the object that was asked for.\<close>

definition get_law :: "'w kube \<Rightarrow> bool" where
  "get_law K \<longleftrightarrow>
     (\<forall>ns name w a. kube_Get K ns name w = Inr a \<longrightarrow> GetNamespace a = ns \<and> GetName a = name)"

text \<open>The finalizer helpers of \<open>controllerutil\<close> work on the list of finalizers and on nothing else.\<close>

abbreviation with_finalizers :: "string list \<Rightarrow> Addon \<Rightarrow> Addon" where
  "with_finalizers fs \<equiv> Addon_Meta_update (Finalizers_update (\<lambda>_. fs))"

definition finalizer_law :: "'w kube \<Rightarrow> bool" where
  "finalizer_law K \<longleftrightarrow>
     (\<forall>a f. (ContainsFinalizer K a f \<longleftrightarrow> f \<in> set (Finalizers (Addon_Meta a))) \<and>
        (\<exists>fs. AddFinalizer K f a = with_finalizers fs a \<and>
              set fs = insert f (set (Finalizers (Addon_Meta a)))) \<and>
        (\<exists>fs. RemoveFinalizer K f a = with_finalizers fs a \<and>
              set fs = set (Finalizers (Addon_Meta a)) - {f}))"

section \<open>The state of the manager\<close>

record event =
  Event_Type :: string
  Event_Reason :: string
  Event_Message :: string

text \<open>
  The updater's map from addon names to mutexes; a mutex is a number, \<open>nextMutex\<close> the next
  one to be made.
\<close>

record mutexes =
  statusMap :: "nat gomap"
  nextMutex :: nat

record 'w mgr =
  world :: 'w
  versionCache :: cached
  mutexMap :: mutexes
  events :: "event list"

definition record_event :: "string \<Rightarrow> string \<Rightarrow> string \<Rightarrow> 'w mgr \<Rightarrow> 'w mgr" where
  "record_event ty rs msg s =
     s\<lparr>events := events s @ [\<lparr>Event_Type = ty, Event_Reason = rs, Event_Message = msg\<rparr>]\<rparr>"

lemma record_event_sel [simp]:
  "world (record_event ty rs msg s) = world s"
  "versionCache (record_event ty rs msg s) = versionCache s"
  "mutexMap (record_event ty rs msg s) = mutexMap s"
  "events (record_event ty rs msg s) =
     events s @ [\<lparr>Event_Type = ty, Event_Reason = rs, Event_Message = msg\<rparr>]"
  by (simp_all add: record_event_def)

section \<open>Lemmas on retries\<close>

lemma attempts_no_conflict:
  assumes "attempts fn s r" and "\<And>e. fst (fn s) = Some e \<Longrightarrow> \<not> IsConflict e"
  shows "r = fn s"
  using assms(1)
proof (cases rule: attempts.cases)
  case (next_attempt e s')
  then show ?thesis using assms(2) [of e] by simp
qed simp

text \<open>The result is the result of some run of the function, on a state it reached.\<close>

lemma attempts_run_inv:
  assumes "attempts fn s r" and "I s" and "\<And>s. I s \<Longrightarrow> I (snd (fn s))"
  shows "\<exists>s0. I s0 \<and> fn s0 = r"
  using assms(1,2)
proof (induction rule: attempts.induct)
  case (last_attempt s)
  then show ?case by blast
next
  case (next_attempt s e s' r)
  have "I s'" using assms(3) [OF next_attempt.prems] next_attempt.hyps(1) by simp
  then show ?case by (rule next_attempt.IH)
qed


lemma retry_attempts: "retry_law K \<Longrightarrow> attempts fn s (RetryOnConflict K fn s)"
  unfolding retry_law_def by blast

section \<open>An API server in memory\<close>

text \<open>
  Five attempts, as \<open>retry.DefaultRetry\<close> has them.
\<close>

fun retry_steps :: "nat \<Rightarrow> 's attempt \<Rightarrow> 's attempt" where
  "retry_steps 0 fn s = fn s"
| "retry_steps (Suc n) fn s =
     (case fn s of
        (Some e, s') \<Rightarrow> if IsConflict e then retry_steps n fn s' else (Some e, s')
      | (None, s') \<Rightarrow> (None, s'))"

lemma retry_steps_attempts: "attempts fn s (retry_steps n fn s)"
proof (induction n arbitrary: s)
  case 0
  show ?case by (simp add: attempts.last_attempt)
next
  case (Suc n)
  obtain r s' where fn: "fn s = (r, s')" by (cases "fn s")
  show ?case
  proof (cases "\<exists>e. r = Some e \<and> IsConflict e")
    case True
    with fn Suc show ?thesis by (auto intro: attempts.next_attempt)
  next
    case False
    then have "retry_steps (Suc n) fn s = fn s" using fn by (auto split: option.split)
    then show ?thesis by (metis attempts.last_attempt)
  qed
qed

record mem =
  mem_addons :: "Addon list"
  mem_workflows :: "Workflow list"
  mem_secrets :: "json gomap list"

definition same_object :: "string \<Rightarrow> string \<Rightarrow> Addon \<Rightarrow> bool" where
  "same_object ns name a \<longleftrightarrow> GetNamespace a = ns \<and> GetName a = name"

definition mem_get :: "string \<Rightarrow> string \<Rightarrow> mem \<Rightarrow> goerr + Addon" where
  "mem_get ns name w =
     (case List.find (same_object ns name) (mem_addons w) of
        None \<Rightarrow> Inl (GoErr ReasonNotFound (''addons '' @ name @ '' not found''))
      | Some a \<Rightarrow> Inr a)"

text \<open>A write fails with a conflict unless it carries the stored resource version.\<close>

definition mem_put :: "(Addon \<Rightarrow> Addon \<Rightarrow> Addon) \<Rightarrow> Addon \<Rightarrow> mem \<Rightarrow> (goerr + Addon) \<times> mem" where
  "mem_put merge a w =
     (case mem_get (GetNamespace a) (GetName a) w of
        Inl e \<Rightarrow> (Inl e, w)
      | Inr old \<Rightarrow>
          if ResourceVersion (Addon_Meta old) \<noteq> ResourceVersion (Addon_Meta a)
          then (Inl (GoErr ReasonConflict ''the object has been modified''), w)
          else
            (let new = Addon_Meta_update (ResourceVersion_update Suc) (merge a old)
             in (Inr new,
                 w\<lparr>mem_addons := map (\<lambda>b. if same_object (GetNamespace a) (GetName a) b then new else b)
                                  (mem_addons w)\<rparr>)))"

definition mem_status_update :: "Addon \<Rightarrow> mem \<Rightarrow> goerr option \<times> mem" where
  "mem_status_update a w =
     (case mem_put (\<lambda>a old. a) a w of (Inl e, w') \<Rightarrow> (Some e, w') | (Inr _, w') \<Rightarrow> (None, w'))"

definition mem_wf_get :: "string \<Rightarrow> string \<Rightarrow> mem \<Rightarrow> goerr + Workflow" where
  "mem_wf_get ns name w =
     (case List.find (\<lambda>f. Workflow_Namespace f = ns \<and> Workflow_Name f = name) (mem_workflows w) of
        None \<Rightarrow> Inl (GoErr ReasonNotFound (''workflows '' @ name @ '' not found''))
      | Some f \<Rightarrow> Inr f)"

definition mem_wf_delete :: "string \<Rightarrow> string \<Rightarrow> mem \<Rightarrow> goerr option \<times> mem" where
  "mem_wf_delete ns name w =
     (None, w\<lparr>mem_workflows :=
        filter (\<lambda>f. \<not> (Workflow_Namespace f = ns \<and> Workflow_Name f = name)) (mem_workflows w)\<rparr>)"

definition mem_kube :: "mem kube" where
  "mem_kube =
     \<lparr>kube_Get = mem_get,
      kube_Update = mem_put (\<lambda>a old. a\<lparr>Status := Status old\<rparr>),
      kube_StatusUpdate = mem_status_update,
      kube_GetWorkflow = mem_wf_get,
      kube_List = (\<lambda>_ _ _ _. Inr []),
      argo_Get = mem_wf_get,
      argo_List = (\<lambda>ns _ w. Inr (filter (\<lambda>f. Workflow_Namespace f = ns) (mem_workflows w))),
      argo_Delete = mem_wf_delete,
      dyn_ListSecrets = (\<lambda>_ w. Inr (mem_secrets w)),
      LabelSelectorAsSelector = (\<lambda>_. Inr []),
      RetryOnConflict = retry_steps 4,
      ContainsFinalizer = (\<lambda>a f. f \<in> set (Finalizers (Addon_Meta a))),
      AddFinalizer = (\<lambda>f a. with_finalizers (List.insert f (Finalizers (Addon_Meta a))) a),
      RemoveFinalizer = (\<lambda>f a. with_finalizers (filter (\<lambda>x. x \<noteq> f) (Finalizers (Addon_Meta a))) a)\<rparr>"

lemma mem_finalizer_law: "finalizer_law mem_kube"
proof -
  have "\<exists>fs. AddFinalizer mem_kube f a = with_finalizers fs a \<and>
      set fs = insert f (set (Finalizers (Addon_Meta a)))" for f a
    by (rule exI [of _ "List.insert f (Finalizers (Addon_Meta a))"]) (simp add: mem_kube_def)
  moreover have "\<exists>fs. RemoveFinalizer mem_kube f a = with_finalizers fs a \<and>
      set fs = set (Finalizers (Addon_Meta a)) - {f}" for f a
    by (rule exI [of _ "filter (\<lambda>x. x \<noteq> f) (Finalizers (Addon_Meta a))"]) (auto simp: mem_kube_def)
  ultimately show ?thesis unfolding finalizer_law_def by (simp add: mem_kube_def)
qed

lemma mem_retry_law: "retry_law mem_kube"
  by (simp add: retry_law_def mem_kube_def retry_steps_attempts)

lemma mem_get_law: "get_law mem_kube"
  by (auto simp: get_law_def mem_kube_def mem_get_def find_Some_iff same_object_def
      split: option.splits)

lemma find_map_replace:
  assumes "List.find P xs = Some x" and "P y"
  shows "List.find P (map (\<lambda>b. if P b then y else b) xs) = Some y"
  using assms by (induction xs) (auto split: if_splits)

text \<open>A status write that succeeds is read back with the next resource version.\<close>

lemma mem_status_written:
  assumes "mem_status_update a w = (None, w')"
  shows "mem_get (GetNamespace a) (GetName a) w' = Inr (Addon_Meta_update (ResourceVersion_update Suc) a)"
proof -
  let ?P = "same_object (GetNamespace a) (GetName a)" and ?new = "Addon_Meta_update (ResourceVersion_update Suc) a"
  from assms obtain old where old: "List.find ?P (mem_addons w) = Some old"
      and w': "w' = w\<lparr>mem_addons := map (\<lambda>b. if ?P b then ?new else b) (mem_addons w)\<rparr>"
    by (auto simp: mem_status_update_def mem_put_def mem_get_def Let_def
        split: sum.splits option.splits if_splits prod.splits)
  have "?P ?new" by (simp add: same_object_def)
  from find_map_replace [OF old this] show ?thesis by (simp add: w' mem_get_def)
qed

lemma mem_status_write_law: "status_write_law mem_kube"
  using mem_status_written by (auto simp: status_write_law_def mem_kube_def)

end
