(* ===== verification/Addon_Updater.thy ===== *)
theory Addon_Updater
  imports Kube_API
begin

text \<open>
  The status updater of \<^verbatim>\<open>pkg/addon/addon_update.go\<close>, shared by the two controllers. Each
  method is a function on the manager's state; an error is returned beside the new state.
  The retried closure of \<open>UpdateStatus\<close> is \<open>status_attempt\<close>, on the world and the variables
  it shares with its caller. What happens inside one call is sequential: the mutex that
  \<open>getStatusMutex\<close> hands out and its interplay with \<open>RemoveFromCache\<close> across threads are the
  subject of the theory \<open>Status_Lock\<close>.

  The lemmas classify every outcome of \<open>UpdateStatus\<close>, show that a stale non-terminal write
  never replaces a terminal status, that the version cache changes only after a successful
  write, which workflows may change an addon's status, and what leaves the cache when an
  addon is gone.
\<close>

section \<open>Operations\<close>

definition race_guard :: "Addon \<Rightarrow> Addon \<Rightarrow> bool" where
  "race_guard currentAddon addon \<longleftrightarrow>
     phase_Completed (Status_Installed (Status_Lifecycle (Status currentAddon))) \<and>
     phase_Running (Status_Installed (Status_Lifecycle (Status addon))) \<and>
     Checksum (Status currentAddon) = Checksum (Status addon)"

definition status_attempt :: "'w kube \<Rightarrow> Addon \<Rightarrow> ('w \<times> guard) attempt" where
  "status_attempt K addon = (\<lambda>(w, g).
     case kube_Get K (GetNamespace addon) (GetName addon) w of
       Inl err \<Rightarrow> (Some err, (w, g))
     | Inr currentAddon \<Rightarrow>
         if race_guard currentAddon addon
         then (None, (w, Some (Status_Installed (Status_Lifecycle (Status currentAddon)),
                               Status_Prereqs (Status_Lifecycle (Status currentAddon)))))
         else (case kube_StatusUpdate K (currentAddon\<lparr>Status := Status addon\<rparr>) w of
                 (r, w') \<Rightarrow> (r, (w', g))))"

text \<open>A new updater, of which the map of mutexes is the state.\<close>

definition NewAddonUpdater :: mutexes where
  "NewAddonUpdater = \<lparr>statusMap = [], nextMutex = 0\<rparr>"

definition getStatusMutex :: "string \<Rightarrow> mutexes \<Rightarrow> nat \<times> mutexes" where
  "getStatusMutex addonName c =
     (case map_of (statusMap c) addonName of
        Some m \<Rightarrow> (m, c)
      | None \<Rightarrow> (let m = nextMutex c
                 in (m, c\<lparr>statusMap := AList.update addonName m (statusMap c), nextMutex := Suc m\<rparr>)))"

definition removeStatusWaitGroup :: "string \<Rightarrow> mutexes \<Rightarrow> mutexes" where
  "removeStatusWaitGroup addonName c = c\<lparr>statusMap := AList.delete addonName (statusMap c)\<rparr>"

definition addAddonToCache :: "Addon \<Rightarrow> cached \<Rightarrow> cached" where
  "addAddonToCache addon c =
     AddVersion
       \<lparr>Version_Name = GetName addon, Version_Namespace = GetNamespace addon,
        Version_PackageSpec = GetPackageSpec addon, PkgPhase = GetInstallStatus addon\<rparr> c"

definition race_error :: "Addon \<Rightarrow> ApplicationAssemblyPhase \<Rightarrow> goerr" where
  "race_error addon guardAPIInstalled =
     Errorf (''race guard: stale '' @ quote (GetInstallStatus addon) @ '' write over terminal ''
       @ quote guardAPIInstalled @ '' API state blocked for addon '' @ GetNamespace addon @ ''/''
       @ GetName addon @ '' (checksum: '' @ Checksum (Status addon)
       @ ''); requeuing with fresh state'')"

definition UpdateStatus :: "'w kube \<Rightarrow> Addon \<Rightarrow> 'w mgr \<Rightarrow> goerr option \<times> 'w mgr" where
  "UpdateStatus K addon s =
     (let s1 = s\<lparr>mutexMap := snd (getStatusMutex (GetName addon) (mutexMap s))\<rparr>
      in case RetryOnConflict K (status_attempt K addon) (world s1, None) of
           (Some err, (w, _)) \<Rightarrow>
             (Some err, record_event ''Warning'' ''Failed''
                (''Addon '' @ GetNamespace addon @ ''/'' @ GetName addon
                 @ '' status could not be updated. '' @ Error err) (s1\<lparr>world := w\<rparr>))
         | (None, (w, Some (guardAPIInstalled, guardAPIPrereqs))) \<Rightarrow>
             (Some (race_error addon guardAPIInstalled), s1\<lparr>world := w\<rparr>)
         | (None, (w, None)) \<Rightarrow>
             (None, s1\<lparr>world := w, versionCache := addAddonToCache addon (versionCache s1)\<rparr>))"

definition getExistingAddon :: "'w kube \<Rightarrow> string \<Rightarrow> string \<Rightarrow> 'w mgr \<Rightarrow> goerr + Addon" where
  "getExistingAddon K namespace name s = kube_Get K namespace name (world s)"

definition UpdateAddonStatusLifecycleFromWorkflow ::
    "'w kube \<Rightarrow> string \<Rightarrow> string \<Rightarrow> Workflow \<Rightarrow> 'w mgr \<Rightarrow> goerr option \<times> 'w mgr" where
  "UpdateAddonStatusLifecycleFromWorkflow K namespace addonName workflow s =
     (case getExistingAddon K namespace addonName s of
        Inl err \<Rightarrow> (Some err, s)
      | Inr existingAddon \<Rightarrow>
          if phase_Completed (Status_Installed (Status_Lifecycle (Status existingAddon)))
          then (None, s)
          else
            (case ExtractChecksumAndLifecycleStep (Workflow_Name workflow) of
               Inl err \<Rightarrow> (Some err, s)
             | Inr (checksum, lifecycle) \<Rightarrow>
                 if GetFormattedWorkflowName existingAddon lifecycle \<noteq> Workflow_Name workflow
                 then (None, s)
                 else if CalculateChecksum existingAddon \<noteq> checksum then (None, s)
                 else
                   (let phase = ConvertWorkflowPhaseToAddonPhase lifecycle (Workflow_Phase workflow)
                    in if phase = [] then (None, s)
                       else
                         (let reason = (if phase_Failed phase then Workflow_Message workflow else [])
                          in case SetStatusByLifecyleStep lifecycle phase [reason] existingAddon of
                               (Some err, _) \<Rightarrow>
                                 (Some (Wrapf ''failed to update prereqs status. '' err), s)
                             | (None, existingAddon') \<Rightarrow> UpdateStatus K existingAddon' s))))"

definition RemoveFromCache :: "order \<Rightarrow> string \<Rightarrow> 'w mgr \<Rightarrow> 'w mgr" where
  "RemoveFromCache \<rho> addonName s =
     (let s1 = (case HasVersionName \<rho> (versionCache s) addonName of
                  Some v \<Rightarrow>
                    s\<lparr>versionCache := RemoveVersion (vPkgName v) (vPkgVersion v) (versionCache s)\<rparr>
                | None \<Rightarrow> s)
      in s1\<lparr>mutexMap := removeStatusWaitGroup addonName (mutexMap s1)\<rparr>)"

section \<open>One attempt and the retries\<close>

text \<open>
  The outcome of the retried closure: an error of the API, the guard, or a write of the
  incoming status into an object that was read just before.
\<close>

definition fresh_write :: "'w kube \<Rightarrow> Addon \<Rightarrow> 'w \<Rightarrow> bool" where
  "fresh_write K addon w' \<longleftrightarrow>
     (\<exists>w cur. kube_Get K (GetNamespace addon) (GetName addon) w = Inr cur \<and>
        \<not> race_guard cur addon \<and>
        kube_StatusUpdate K (cur\<lparr>Status := Status addon\<rparr>) w = (None, w'))"

definition guard_hit :: "'w kube \<Rightarrow> Addon \<Rightarrow> 'w \<Rightarrow> ApplicationAssemblyPhase \<Rightarrow> bool" where
  "guard_hit K addon w p \<longleftrightarrow>
     (\<exists>cur. kube_Get K (GetNamespace addon) (GetName addon) w = Inr cur \<and>
        race_guard cur addon \<and> p = GetInstallStatus cur)"

lemma status_attempt_guard:
  assumes "kube_Get K (GetNamespace addon) (GetName addon) w = Inr cur" and "race_guard cur addon"
  shows "status_attempt K addon (w, g) = (None, (w, Some (GetInstallStatus cur, GetPrereqStatus cur)))"
  using assms by (simp add: status_attempt_def GetInstallStatus_def GetPrereqStatus_def)

lemma status_attempt_None:
  assumes "status_attempt K addon (w, None) = (None, (w', g))"
  shows "(case g of None \<Rightarrow> fresh_write K addon w'
          | Some (p, q) \<Rightarrow> guard_hit K addon w' p \<and> w' = w)"
  using assms
  by (auto simp: status_attempt_def fresh_write_def guard_hit_def GetInstallStatus_def
      split: sum.splits if_splits prod.splits)

text \<open>The guard ends the retries: every attempt starts with the guard not fired.\<close>

lemma status_attempt_retry:
  assumes "status_attempt K addon (w, None) = (Some e, (w', g))"
  shows "g = None"
  using assms by (auto simp: status_attempt_def split: sum.splits if_splits prod.splits)

lemma attempts_status:
  assumes "attempts (status_attempt K addon) ws r" and "snd ws = None" and "r = (None, (w', g))"
  shows "(case g of None \<Rightarrow> fresh_write K addon w' | Some (p, q) \<Rightarrow> guard_hit K addon w' p)"
  using assms
proof (induction rule: attempts.induct)
  case (last_attempt ws)
  obtain w where ws: "ws = (w, None)" using last_attempt.prems(1) by (cases ws) simp
  from last_attempt.prems(2) have "status_attempt K addon (w, None) = (None, (w', g))"
    by (simp add: ws)
  from status_attempt_None [OF this] show ?case by (cases g) auto
next
  case (next_attempt ws e ws' r)
  obtain w where ws: "ws = (w, None)" using next_attempt.prems(1) by (cases ws) simp
  obtain w1 g1 where ws': "ws' = (w1, g1)" by (cases ws')
  have "g1 = None"
    using status_attempt_retry [of K addon w e w1 g1] next_attempt.hyps(1) by (simp add: ws ws')
  then show ?case using next_attempt.IH next_attempt.prems(2) by (simp add: ws')
qed

section \<open>Outcomes of a status update\<close>

lemma getStatusMutex_stable [simp]:
  "map_of (statusMap (snd (getStatusMutex n c))) n = Some (fst (getStatusMutex n c))"
  by (auto simp: getStatusMutex_def Let_def split: option.split)

lemma UpdateStatus_cases [consumes 2, case_names failed guarded written]:
  assumes "retry_law K" and "UpdateStatus K addon s = (r, s')"
  obtains (failed) e where "r = Some e" "versionCache s' = versionCache s"
        "length (events s') = Suc (length (events s))"
    | (guarded) p where "r = Some (race_error addon p)" "versionCache s' = versionCache s"
        "events s' = events s" "guard_hit K addon (world s') p"
    | (written) "r = None" "versionCache s' = addAddonToCache addon (versionCache s)"
        "events s' = events s" "fresh_write K addon (world s')"
proof -
  let ?fn = "status_attempt K addon"
  obtain e w g where R: "RetryOnConflict K ?fn (world s, None) = (e, (w, g))"
    by (cases "RetryOnConflict K ?fn (world s, None)") auto
  note att = retry_attempts [OF assms(1), of ?fn "(world s, None)"]
  show thesis
  proof (cases e)
    case (Some err)
    then show thesis using failed [of err] assms(2) R
      by (auto simp: UpdateStatus_def Let_def)
  next
    case None
    have out: "case g of None \<Rightarrow> fresh_write K addon w | Some (p, q) \<Rightarrow> guard_hit K addon w p"
      by (rule attempts_status [OF att]) (simp_all add: R None)
    show thesis
    proof (cases g)
      case g: None
      then show thesis using written out assms(2) R None by (auto simp: UpdateStatus_def Let_def)
    next
      case (Some pq)
      obtain p q where "pq = (p, q)" by (cases pq)
      with Some show thesis using guarded [of p] out assms(2) R None
        by (auto simp: UpdateStatus_def Let_def)
    qed
  qed
qed

text \<open>The guard fires at once when the API already holds the terminal status.\<close>

lemma UpdateStatus_guard:
  assumes "retry_law K"
    and "kube_Get K (GetNamespace addon) (GetName addon) (world s) = Inr cur"
    and "race_guard cur addon"
  shows "UpdateStatus K addon s =
    (Some (race_error addon (GetInstallStatus cur)),
     s\<lparr>mutexMap := snd (getStatusMutex (GetName addon) (mutexMap s))\<rparr>)"
proof -
  let ?fn = "status_attempt K addon"
  have fn: "?fn (world s, None) = (None, (world s, Some (GetInstallStatus cur, GetPrereqStatus cur)))"
    by (rule status_attempt_guard [OF assms(2,3)])
  have "RetryOnConflict K ?fn (world s, None) = ?fn (world s, None)"
    by (rule attempts_no_conflict [OF retry_attempts [OF assms(1)]]) (simp add: fn)
  then show ?thesis by (simp add: UpdateStatus_def fn Let_def)
qed

text \<open>What a written status means for a reader.\<close>

lemma fresh_write_read:
  assumes "status_write_law K" and "get_law K" and "fresh_write K addon w'"
  shows "\<exists>b. kube_Get K (GetNamespace addon) (GetName addon) w' = Inr b \<and> Status b = Status addon"
proof -
  obtain w cur where get: "kube_Get K (GetNamespace addon) (GetName addon) w = Inr cur"
    and up: "kube_StatusUpdate K (cur\<lparr>Status := Status addon\<rparr>) w = (None, w')"
    using assms(3) by (auto simp: fresh_write_def)
  have "GetNamespace cur = GetNamespace addon" "GetName cur = GetName addon"
    using assms(2) get by (auto simp: get_law_def)
  moreover from assms(1) up obtain b where
    "kube_Get K (GetNamespace (cur\<lparr>Status := Status addon\<rparr>))
       (GetName (cur\<lparr>Status := Status addon\<rparr>)) w' = Inr b"
    "Status b = Status (cur\<lparr>Status := Status addon\<rparr>)"
    unfolding status_write_law_def by blast
  ultimately show ?thesis by simp
qed

section \<open>The manager's invariant\<close>

definition mgr_ok :: "'w mgr \<Rightarrow> bool" where
  "mgr_ok s \<longleftrightarrow>
     cache_ok (versionCache s) \<and> keyed (entry_of (versionCache s)) \<and> gm_ok (statusMap (mutexMap s)) \<and>
     (\<forall>n m. map_of (statusMap (mutexMap s)) n = Some m \<longrightarrow> m < nextMutex (mutexMap s))"

lemma keyed_AddVersion: "cache_ok c \<Longrightarrow> keyed (entry_of c) \<Longrightarrow> keyed (entry_of (AddVersion v c))"
  using keyed_abs_step [of "entry_of c" "OpAdd v"] by (simp add: cache.entry_add)

lemma keyed_RemoveVersion:
  "cache_ok c \<Longrightarrow> keyed (entry_of c) \<Longrightarrow> keyed (entry_of (RemoveVersion p q c))"
  using keyed_abs_step [of "entry_of c" "OpRemove p q"] by (simp add: cache.entry_remove)

lemma mgr_ok_mutex:
  assumes "mgr_ok s"
  shows "mgr_ok (s\<lparr>mutexMap := snd (getStatusMutex n (mutexMap s))\<rparr>)"
    and "mgr_ok (s\<lparr>mutexMap := removeStatusWaitGroup n (mutexMap s)\<rparr>)"
  using assms
  by (auto simp: mgr_ok_def getStatusMutex_def removeStatusWaitGroup_def Let_def less_SucI
      split: option.splits if_splits)

lemma mgr_ok_frame [simp]:
  "mgr_ok (s\<lparr>world := w\<rparr>) = mgr_ok s" "mgr_ok (record_event ty rs msg s) = mgr_ok s"
  by (simp_all add: mgr_ok_def)

lemma mgr_ok_add: "mgr_ok s \<Longrightarrow> mgr_ok (s\<lparr>versionCache := addAddonToCache a (versionCache s)\<rparr>)"
  by (simp add: mgr_ok_def addAddonToCache_def cache.ok_add keyed_AddVersion)

lemma mgr_ok_remove: "mgr_ok s \<Longrightarrow> mgr_ok (s\<lparr>versionCache := RemoveVersion p q (versionCache s)\<rparr>)"
  by (simp add: mgr_ok_def cache.ok_remove keyed_RemoveVersion)

lemma mgr_ok_UpdateStatus: "mgr_ok s \<Longrightarrow> mgr_ok (snd (UpdateStatus K addon s))"
  using mgr_ok_add [of "s\<lparr>mutexMap := m, world := w\<rparr>" for m w] mgr_ok_mutex(1) [of s]
  by (auto simp: UpdateStatus_def Let_def mgr_ok_frame split: prod.split option.split)

lemma mgr_ok_UpdateFromWorkflow:
  "mgr_ok s \<Longrightarrow> mgr_ok (snd (UpdateAddonStatusLifecycleFromWorkflow K ns n workflow s))"
  by (simp add: UpdateAddonStatusLifecycleFromWorkflow_def Let_def mgr_ok_UpdateStatus
      split: sum.split prod.split option.split)

lemma mgr_ok_RemoveFromCache:
  assumes "mgr_ok s"
  shows "mgr_ok (RemoveFromCache \<rho> n s)"
proof (cases "HasVersionName \<rho> (versionCache s) n")
  case None
  then show ?thesis using mgr_ok_mutex(2) [OF assms] by (simp add: RemoveFromCache_def)
next
  case (Some v)
  from mgr_ok_mutex(2) [OF mgr_ok_remove [OF assms]] show ?thesis
    by (simp add: RemoveFromCache_def Let_def Some)
qed

lemma entry_addAddonToCache:
  assumes "cache_ok c"
  shows "entry_of (addAddonToCache a c) =
    (entry_of c)((PkgName (Spec_PackageSpec (Spec a)), PkgVersion (Spec_PackageSpec (Spec a)))
      \<mapsto> version_of_addon a)"
  using assms
  by (simp add: addAddonToCache_def cache.entry_add abs_add_def version_of_addon_def
      GetPackageSpec_def Let_def)

section \<open>Updates from workflows\<close>

lemma workflow_name_steps:
  assumes "ExtractChecksumAndLifecycleStep name = Inr (chk, step)"
  shows "step \<in> lifecycle_steps"
  using assms
  by (auto simp: ExtractChecksumAndLifecycleStep_def lifecycle_steps_def Let_def split: if_splits)

text \<open>A translated phase is one that the prereqs can have, so recording it never fails.\<close>

lemma record_translated_phase:
  assumes "ConvertWorkflowPhaseToAddonPhase step p \<noteq> []"
  shows "fst (SetStatusByLifecyleStep step (ConvertWorkflowPhaseToAddonPhase step p) rs a) = None"
  using assms
  by (auto simp: SetStatusByLifecyleStep_def SetPrereqAndInstallStatuses_def
      ConvertWorkflowPhaseToAddonPhase_def split: if_splits)

lemma UpdateFromWorkflow_ignored:
  assumes "kube_Get K ns n (world s) = Inr a"
    and "phase_Completed (GetInstallStatus a) \<or>
      (\<forall>step \<in> lifecycle_steps. Workflow_Name workflow \<noteq> GetFormattedWorkflowName a step) \<or>
      Workflow_Phase workflow \<notin>
        {WorkflowPending, WorkflowRunning, WorkflowSucceeded, WorkflowFailed, WorkflowError}"
  shows "snd (UpdateAddonStatusLifecycleFromWorkflow K ns n workflow s) = s"
proof (cases "ExtractChecksumAndLifecycleStep (Workflow_Name workflow)")
  case (Inl e)
  then show ?thesis
    using assms(1) by (simp add: UpdateAddonStatusLifecycleFromWorkflow_def getExistingAddon_def)
next
  case (Inr cs)
  obtain chk step where cs: "cs = (chk, step)" by (cases cs)
  with Inr have "step \<in> lifecycle_steps" using workflow_name_steps by simp
  then have "phase_Completed (GetInstallStatus a) \<or>
      GetFormattedWorkflowName a step \<noteq> Workflow_Name workflow \<or>
      ConvertWorkflowPhaseToAddonPhase step (Workflow_Phase workflow) = []"
    using assms(2) by (auto simp: ConvertWorkflowPhaseToAddonPhase_def)
  then show ?thesis
    using assms(1) Inr cs
    by (auto simp: UpdateAddonStatusLifecycleFromWorkflow_def getExistingAddon_def
        GetInstallStatus_def Let_def)
qed

lemma UpdateFromWorkflow_applied:
  assumes "kube_Get K ns n (world s) = Inr a" and "\<not> phase_Completed (GetInstallStatus a)"
    and "step \<in> lifecycle_steps" and "Workflow_Name workflow = GetFormattedWorkflowName a step"
    and "p = ConvertWorkflowPhaseToAddonPhase step (Workflow_Phase workflow)" and "p \<noteq> []"
  shows "UpdateAddonStatusLifecycleFromWorkflow K ns n workflow s =
    UpdateStatus K (snd (SetStatusByLifecyleStep step p
      [if phase_Failed p then Workflow_Message workflow else []] a)) s"
proof -
  have ext: "ExtractChecksumAndLifecycleStep (Workflow_Name workflow) = Inr (CalculateChecksum a, step)"
    using extract_workflow_name [OF assms(3)] assms(4) by simp
  have nc: "\<not> phase_Completed (Status_Installed (Status_Lifecycle (Status a)))"
    using assms(2) by (simp add: GetInstallStatus_def)
  obtain a' where set: "SetStatusByLifecyleStep step p
      [if phase_Failed p then Workflow_Message workflow else []] a = (None, a')"
    using record_translated_phase [of step "Workflow_Phase workflow"] assms(5,6)
    by (metis prod.collapse)
  show ?thesis
    unfolding UpdateAddonStatusLifecycleFromWorkflow_def getExistingAddon_def
    using assms(1,4,5,6) nc ext set by (simp add: Let_def)
qed

text \<open>The addon as a finished install workflow leaves it.\<close>

definition finished_install :: "Workflow \<Rightarrow> Addon \<Rightarrow> Addon" where
  "finished_install workflow a =
     (if Workflow_Phase workflow = WorkflowSucceeded then SetInstallStatus Succeeded [[]] a
      else SetInstallStatus Failed [Workflow_Message workflow] a)"

lemma finished_install_status:
  "GetInstallStatus (finished_install workflow a) =
     (if Workflow_Phase workflow = WorkflowSucceeded then Succeeded else Failed)"
  "Reason (Status (finished_install workflow a)) =
     (if Workflow_Phase workflow = WorkflowSucceeded then [] else Workflow_Message workflow)"
  "Checksum (Status (finished_install workflow a)) = Checksum (Status a)"
  by (simp_all add: finished_install_def Reason_SetInstallStatus)

lemma UpdateFromWorkflow_finished:
  assumes "kube_Get K ns n (world s) = Inr a" and "\<not> phase_Completed (GetInstallStatus a)"
    and "Workflow_Name workflow = GetFormattedWorkflowName a Install"
    and "Workflow_Phase workflow \<in> {WorkflowSucceeded, WorkflowFailed, WorkflowError}"
  shows "UpdateAddonStatusLifecycleFromWorkflow K ns n workflow s = UpdateStatus K (finished_install workflow a) s"
proof -
  define p where "p = ConvertWorkflowPhaseToAddonPhase Install (Workflow_Phase workflow)"
  have step: "Install \<in> lifecycle_steps" by (simp add: lifecycle_steps_def)
  have "p \<noteq> []" "snd (SetStatusByLifecyleStep Install p
      [if phase_Failed p then Workflow_Message workflow else []] a) = finished_install workflow a"
    using assms(4)
    by (auto simp: p_def ConvertWorkflowPhaseToAddonPhase_def SetStatusByLifecyleStep_def
        finished_install_def phase_pred_defs)
  then show ?thesis using UpdateFromWorkflow_applied [OF assms(1,2) step assms(3) p_def] by simp
qed

lemma install_recorded:
  assumes "retry_law K" and "status_write_law K" and "get_law K" and "mgr_ok s"
    and "kube_Get K ns n (world s) = Inr a" and "\<not> phase_Completed (GetInstallStatus a)"
    and "Workflow_Name workflow = GetFormattedWorkflowName a Install"
    and "Workflow_Phase workflow \<in> {WorkflowSucceeded, WorkflowFailed, WorkflowError}"
    and "UpdateAddonStatusLifecycleFromWorkflow K ns n workflow s = (None, s')"
  shows "\<exists>b. kube_Get K ns n (world s') = Inr b \<and> Status b = Status (finished_install workflow a) \<and>
    entry_of (versionCache s')
      (PkgName (Spec_PackageSpec (Spec a)), PkgVersion (Spec_PackageSpec (Spec a))) =
    Some (version_of_addon (finished_install workflow a))"
proof -
  let ?a = "finished_install workflow a"
  have up: "UpdateStatus K ?a s = (None, s')" using UpdateFromWorkflow_finished [OF assms(5-8)] assms(9) by simp
  have meta: "GetNamespace ?a = ns" "GetName ?a = n" "Spec ?a = Spec a"
    using assms(3,5) by (auto simp: finished_install_def get_law_def)
  show ?thesis
    using assms(1) up
  proof (cases rule: UpdateStatus_cases)
    case written
    from fresh_write_read [OF assms(2,3) written(4)] written(2) assms(4) show ?thesis
      by (simp add: mgr_ok_def entry_addAddonToCache meta)
  qed simp_all
qed

section \<open>Removal from the cache\<close>

lemma RemoveFromCache_absent:
  "HasVersionName \<rho> (versionCache s) n = None \<Longrightarrow>
     versionCache (RemoveFromCache \<rho> n s) = versionCache s"
  by (simp add: RemoveFromCache_def Let_def)

lemma RemoveFromCache_present:
  assumes "rng_ok \<rho>" and "mgr_ok s" and "HasVersionName \<rho> (versionCache s) n = Some v0"
  obtains p q v where "entry_of (versionCache s) (p, q) = Some v" and "Version_Name v = n"
    and "entry_of (versionCache (RemoveFromCache \<rho> n s)) = (entry_of (versionCache s))((p, q) := None)"
proof -
  have ok: "cache_ok (versionCache s)" and key: "keyed (entry_of (versionCache s))"
    using assms(2) by (simp_all add: mgr_ok_def)
  obtain p q where e: "entry_of (versionCache s) (p, q) = Some v0" and n: "Version_Name v0 = n"
    using HasVersionName_Some [OF assms(1) ok assms(3)] by blast
  moreover from e key have "vPkgName v0 = p" "vPkgVersion v0 = q" by (auto simp: keyed_def)
  then have "entry_of (versionCache (RemoveFromCache \<rho> n s)) = (entry_of (versionCache s))((p, q) := None)"
    using assms(3) ok by (simp add: RemoveFromCache_def Let_def cache.entry_remove abs_remove_def)
  ultimately show thesis by (rule that)
qed

section \<open>Properties\<close>

text \<open>
  C7: What a status update leaves behind. If it reports success, the API object holds the
  status that was to be written and the version cache holds the addon's version with
  its phase, and nothing else of the cache changed; if it reports an error, the cache is
  as before.
\<close>

theorem update_status_outcome:
  assumes "retry_law K" and "status_write_law K" and "get_law K" and "mgr_ok s"
    and "UpdateStatus K addon s = (r, s')"
  shows "(r = None \<longrightarrow>
            (\<exists>b. kube_Get K (GetNamespace addon) (GetName addon) (world s') = Inr b \<and>
                 Status b = Status addon) \<and>
            entry_of (versionCache s') =
              (entry_of (versionCache s))
                ((PkgName (Spec_PackageSpec (Spec addon)), PkgVersion (Spec_PackageSpec (Spec addon)))
                  \<mapsto> version_of_addon addon)) \<and>
         (r \<noteq> None \<longrightarrow> versionCache s' = versionCache s)"
  using assms(1,5)
proof (cases rule: UpdateStatus_cases)
  case written
  then show ?thesis
    using fresh_write_read [OF assms(2,3)] entry_addAddonToCache assms(4)
    by (simp add: mgr_ok_def)
qed simp_all

text \<open>A manager with an empty cache over the API server in memory that holds one addon.\<close>

definition start_mgr :: "Addon list \<Rightarrow> mem mgr" where
  "start_mgr as = \<lparr>world = \<lparr>mem_addons = as, mem_workflows = [], mem_secrets = []\<rparr>,
     versionCache = NewAddonVersionCacheClient, mutexMap = \<lparr>statusMap = [], nextMutex = 0\<rparr>,
     events = []\<rparr>"

lemma start_mgr_ok: "mgr_ok (start_mgr as)"
  using cache.ok_new by (simp add: mgr_ok_def start_mgr_def cache.entry_new keyed_empty)

definition with_phase :: "ApplicationAssemblyPhase \<Rightarrow> Addon" where
  "with_phase p = SetInstallStatus p [] (zero_Addon ''a'' ''ns'')"

lemmas mem_sims =
  mem_kube_def mem_get_def mem_put_def mem_status_update_def same_object_def start_mgr_def
  with_phase_def zero_Addon_def SetInstallStatus_def

theorem update_status_outcome_witness:
  "fst (UpdateStatus mem_kube (with_phase Succeeded) (start_mgr [with_phase Pending])) = None \<and>
   entry_of (versionCache (snd (UpdateStatus mem_kube (with_phase Succeeded)
     (start_mgr [with_phase Pending])))) ([], []) = Some (version_of_addon (with_phase Succeeded))"
proof -
  have ok: "fst (UpdateStatus mem_kube (with_phase Succeeded) (start_mgr [with_phase Pending])) = None"
    by (simp add: UpdateStatus_def status_attempt_def race_guard_def phase_pred_defs mem_sims
        getStatusMutex_def Let_def numeral_eq_Suc)
  have pkg: "PkgName (Spec_PackageSpec (Spec (with_phase Succeeded))) = []"
      "PkgVersion (Spec_PackageSpec (Spec (with_phase Succeeded))) = []"
    by (simp_all add: mem_sims)
  show ?thesis
    using update_status_outcome [OF mem_retry_law mem_status_write_law mem_get_law start_mgr_ok,
        of "with_phase Succeeded" "[with_phase Pending]", OF surjective_pairing] ok pkg
    by simp
qed

lemma mem_UpdateStatus_ok:
  assumes "mem_get (GetNamespace addon) (GetName addon) (world s) = Inr cur"
    and "\<not> race_guard cur addon"
  shows "fst (UpdateStatus mem_kube addon s) = None"
proof -
  have "GetNamespace cur = GetNamespace addon \<and> GetName cur = GetName addon"
    using assms(1) by (auto simp: mem_get_def find_Some_iff same_object_def split: option.splits)
  then have "\<exists>w'. mem_status_update (cur\<lparr>Status := Status addon\<rparr>) (world s) = (None, w')"
    using assms(1) by (simp add: mem_status_update_def mem_put_def Let_def)
  then obtain w' where "status_attempt mem_kube addon (world s, None) = (None, (w', None))"
    using assms by (auto simp: status_attempt_def mem_kube_def)
  then have "RetryOnConflict mem_kube (status_attempt mem_kube addon) (world s, None) = (None, (w', None))"
    by (simp add: mem_kube_def numeral_eq_Suc)
  then show ?thesis by (simp add: UpdateStatus_def Let_def)
qed

fun UpdateStatus_all :: "'w kube \<Rightarrow> Addon list \<Rightarrow> 'w mgr \<Rightarrow> goerr option list \<times> 'w mgr" where
  "UpdateStatus_all K [] s = ([], s)"
| "UpdateStatus_all K (a # as) s =
     (let (r, s1) = UpdateStatus K a s; (rs, s2) = UpdateStatus_all K as s1 in (r # rs, s2))"

text \<open>
  C2: A terminal status is not lost to stale writes: once the API holds a completed
  status, any number of writes of a non-terminal status for the same spec checksum
  leaves the API objects and the version cache exactly as they are, and each of them
  reports an error, so that the caller reconciles again from fresh state.
\<close>

theorem terminal_status_sticky:
  assumes "retry_law K" and "kube_Get K ns n (world s) = Inr cur"
    and "phase_Completed (GetInstallStatus cur)"
    and "\<forall>a \<in> set as. GetNamespace a = ns \<and> GetName a = n \<and>
      phase_Running (GetInstallStatus a) \<and> Checksum (Status a) = Checksum (Status cur)"
  shows "world (snd (UpdateStatus_all K as s)) = world s \<and>
    versionCache (snd (UpdateStatus_all K as s)) = versionCache s \<and>
    (\<forall>r \<in> set (fst (UpdateStatus_all K as s)). r \<noteq> None)"
  using assms(2,4)
proof (induction as arbitrary: s)
  case (Cons a as)
  have get: "kube_Get K (GetNamespace a) (GetName a) (world s) = Inr cur" "race_guard cur a"
    using Cons.prems assms(3) by (auto simp: race_guard_def GetInstallStatus_def)
  let ?s = "s\<lparr>mutexMap := snd (getStatusMutex (GetName a) (mutexMap s))\<rparr>"
  have "world (snd (UpdateStatus_all K as ?s)) = world ?s \<and>
      versionCache (snd (UpdateStatus_all K as ?s)) = versionCache ?s \<and>
      (\<forall>r \<in> set (fst (UpdateStatus_all K as ?s)). r \<noteq> None)"
    by (rule Cons.IH) (use Cons.prems in auto)
  then show ?case
    using UpdateStatus_guard [OF assms(1) get] by (auto simp: split: prod.split)
qed simp

theorem terminal_status_sticky_witness:
  "world (snd (UpdateStatus_all mem_kube [with_phase Pending, with_phase ValidationFailed]
     (start_mgr [with_phase Succeeded]))) = world (start_mgr [with_phase Succeeded])"
proof -
  have "kube_Get mem_kube ''ns'' ''a'' (world (start_mgr [with_phase Succeeded])) =
      Inr (with_phase Succeeded)"
    by (simp add: mem_sims)
  moreover have "phase_Completed (GetInstallStatus (with_phase Succeeded))"
    by (simp add: with_phase_def phase_pred_defs)
  moreover have "\<forall>a \<in> set [with_phase Pending, with_phase ValidationFailed].
      GetNamespace a = ''ns'' \<and> GetName a = ''a'' \<and> phase_Running (GetInstallStatus a) \<and>
      Checksum (Status a) = Checksum (Status (with_phase Succeeded))"
    by (simp add: with_phase_def phase_pred_defs zero_Addon_def)
  ultimately show ?thesis
    using terminal_status_sticky [OF mem_retry_law] by blast
qed

text \<open>
  Which workflows change an addon. A workflow leaves the manager's state alone if the
  addon is completed, if its name is not the name generated for one of the addon's steps
  with its present spec, or if its phase says nothing. Otherwise the update is a status
  update with the step's translated phase, and with the workflow's message as reason
  exactly when that phase is a failure.
\<close>

lemma workflow_update_effect:
  assumes "kube_Get K ns n (world s) = Inr a"
  shows "((phase_Completed (GetInstallStatus a) \<or>
           (\<forall>step \<in> lifecycle_steps. Workflow_Name workflow \<noteq> GetFormattedWorkflowName a step) \<or>
           Workflow_Phase workflow \<notin>
             {WorkflowPending, WorkflowRunning, WorkflowSucceeded, WorkflowFailed, WorkflowError}) \<longrightarrow>
          snd (UpdateAddonStatusLifecycleFromWorkflow K ns n workflow s) = s) \<and>
         (\<forall>step p. \<not> phase_Completed (GetInstallStatus a) \<and> step \<in> lifecycle_steps \<and>
           Workflow_Name workflow = GetFormattedWorkflowName a step \<and>
           p = ConvertWorkflowPhaseToAddonPhase step (Workflow_Phase workflow) \<and> p \<noteq> [] \<longrightarrow>
           UpdateAddonStatusLifecycleFromWorkflow K ns n workflow s =
             UpdateStatus K (snd (SetStatusByLifecyleStep step p
               [if phase_Failed p then Workflow_Message workflow else []] a)) s)"
  using UpdateFromWorkflow_ignored [OF assms] UpdateFromWorkflow_applied [OF assms] by blast

definition sample_workflow :: "string \<Rightarrow> WorkflowPhase \<Rightarrow> Workflow" where
  "sample_workflow name p =
     \<lparr>Workflow_Name = name, Workflow_Namespace = ''ns'', Workflow_DeletionTimestamp = None,
      Workflow_Phase = p, Workflow_Message = ''boom'',
      Workflow_Controller = Some \<lparr>Owner_Kind = ''Addon'', Owner_Name = ''a''\<rparr>\<rparr>"

lemma start_mgr_get:
  "kube_Get mem_kube ''ns'' ''a'' (world (start_mgr [with_phase p])) = Inr (with_phase p)"
  by (simp add: mem_sims Let_def)

text \<open>
  C8: A finished install workflow is recorded. When the workflow generated for the install
  step of a running addon succeeds, fails or errs and the update reports no error, a
  reader of the API sees the install phase succeeded or failed, with the workflow's
  message as the reason of a failure, and the version cache has the addon in that phase.
\<close>

theorem install_workflow_recorded:
  assumes "retry_law K" and "status_write_law K" and "get_law K" and "mgr_ok s"
    and "kube_Get K ns n (world s) = Inr a" and "\<not> phase_Completed (GetInstallStatus a)"
    and "Workflow_Name workflow = GetFormattedWorkflowName a Install"
    and "Workflow_Phase workflow \<in> {WorkflowSucceeded, WorkflowFailed, WorkflowError}"
    and "UpdateAddonStatusLifecycleFromWorkflow K ns n workflow s = (None, s')"
  shows "\<exists>b. kube_Get K ns n (world s') = Inr b \<and>
    GetInstallStatus b = (if Workflow_Phase workflow = WorkflowSucceeded then Succeeded else Failed) \<and>
    Reason (Status b) = (if Workflow_Phase workflow = WorkflowSucceeded then []
                         else Workflow_Message workflow) \<and>
    map_option PkgPhase (entry_of (versionCache s')
      (PkgName (Spec_PackageSpec (Spec a)), PkgVersion (Spec_PackageSpec (Spec a)))) =
    Some (GetInstallStatus b)"
proof -
  obtain b where b: "kube_Get K ns n (world s') = Inr b" "Status b = Status (finished_install workflow a)"
    and e: "entry_of (versionCache s')
      (PkgName (Spec_PackageSpec (Spec a)), PkgVersion (Spec_PackageSpec (Spec a))) =
      Some (version_of_addon (finished_install workflow a))"
    using install_recorded [OF assms] by blast
  have "GetInstallStatus b = GetInstallStatus (finished_install workflow a)"
    using b(2) by (simp add: GetInstallStatus_def)
  then show ?thesis
    using b e finished_install_status [of workflow a] by (auto simp: version_of_addon_def)
qed

definition installed_ok :: Workflow where
  "installed_ok = sample_workflow (GetFormattedWorkflowName (with_phase Pending) Install) WorkflowSucceeded"

theorem install_workflow_recorded_witness:
  "\<exists>b. kube_Get mem_kube ''ns'' ''a'' (world (snd (UpdateAddonStatusLifecycleFromWorkflow mem_kube
     ''ns'' ''a'' installed_ok (start_mgr [with_phase Pending])))) = Inr b \<and> GetInstallStatus b = Succeeded"
proof -
  let ?s = "start_mgr [with_phase Pending]"
  let ?up = "UpdateAddonStatusLifecycleFromWorkflow mem_kube ''ns'' ''a'' installed_ok ?s"
  have nc: "\<not> phase_Completed (GetInstallStatus (with_phase Pending))"
    by (simp add: with_phase_def phase_pred_defs)
  have w: "Workflow_Name installed_ok = GetFormattedWorkflowName (with_phase Pending) Install"
      "Workflow_Phase installed_ok = WorkflowSucceeded"
    by (simp_all add: installed_ok_def sample_workflow_def)
  have step: "Install \<in> lifecycle_steps" by (simp add: lifecycle_steps_def)
  have p: "Succeeded = ConvertWorkflowPhaseToAddonPhase Install (Workflow_Phase installed_ok)"
    by (simp add: w ConvertWorkflowPhaseToAddonPhase_def)
  have "fst ?up = None"
    unfolding UpdateFromWorkflow_applied [OF start_mgr_get nc step w(1) p phase_not_empty(2)]
    by (simp add: UpdateStatus_def status_attempt_def race_guard_def phase_pred_defs mem_sims
        SetStatusByLifecyleStep_def getStatusMutex_def Let_def numeral_eq_Suc)
  then have "?up = (None, snd ?up)" by (metis prod.collapse)
  from install_workflow_recorded [OF mem_retry_law mem_status_write_law mem_get_law start_mgr_ok
      start_mgr_get nc w(1) _ this] w(2) show ?thesis by auto
qed

text \<open>
  When an addon is gone, removing it from the cache drops its mutex, and takes away one
  cache entry with the addon's name if there is one and no other entry.
\<close>

lemma RemoveFromCache_effect:
  assumes "rng_ok \<rho>" and "mgr_ok s"
  shows "map_of (statusMap (mutexMap (RemoveFromCache \<rho> n s))) n = None \<and>
    world (RemoveFromCache \<rho> n s) = world s \<and> mgr_ok (RemoveFromCache \<rho> n s) \<and>
    (if \<exists>p q v. entry_of (versionCache s) (p, q) = Some v \<and> Version_Name v = n
     then \<exists>p q v. entry_of (versionCache s) (p, q) = Some v \<and> Version_Name v = n \<and>
       entry_of (versionCache (RemoveFromCache \<rho> n s)) = (entry_of (versionCache s))((p, q) := None)
     else versionCache (RemoveFromCache \<rho> n s) = versionCache s)"
proof -
  have "map_of (statusMap (mutexMap (RemoveFromCache \<rho> n s))) n = None"
    "world (RemoveFromCache \<rho> n s) = world s"
    by (auto simp: RemoveFromCache_def removeStatusWaitGroup_def Let_def split: option.split)
  moreover have "if \<exists>p q v. entry_of (versionCache s) (p, q) = Some v \<and> Version_Name v = n
     then \<exists>p q v. entry_of (versionCache s) (p, q) = Some v \<and> Version_Name v = n \<and>
       entry_of (versionCache (RemoveFromCache \<rho> n s)) = (entry_of (versionCache s))((p, q) := None)
     else versionCache (RemoveFromCache \<rho> n s) = versionCache s"
  proof (cases "HasVersionName \<rho> (versionCache s) n")
    case None
    have "cache_ok (versionCache s)" using assms(2) by (simp add: mgr_ok_def)
    with None have none: "\<not> (\<exists>p q v. entry_of (versionCache s) (p, q) = Some v \<and> Version_Name v = n)"
      using HasVersionName_None [OF assms(1)] by blast
    show ?thesis unfolding if_not_P [OF none] by (rule RemoveFromCache_absent [OF None])
  next
    case (Some v0)
    from RemoveFromCache_present [OF assms Some] show ?thesis by metis
  qed
  ultimately show ?thesis using mgr_ok_RemoveFromCache [OF assms(2)] by blast
qed

text \<open>
  A consequence for an addon whose package version changed while it was installed: if
  the cache has two entries with the addon's name, then after the removal a search by
  that name still finds one, so the addon is not gone from the cache.
\<close>

lemma removal_leaves_other_version:
  assumes "rng_ok \<rho>" and "mgr_ok s"
    and "entry_of (versionCache s) (p, q) = Some v" and "Version_Name v = n"
    and "entry_of (versionCache s) (p', q') = Some v'" and "Version_Name v' = n"
    and "(p, q) \<noteq> (p', q')"
  shows "HasVersionName \<rho> (versionCache (RemoveFromCache \<rho> n s)) n \<noteq> None"
proof -
  let ?c = "versionCache (RemoveFromCache \<rho> n s)"
  have ok: "cache_ok ?c" "cache_ok (versionCache s)"
    using mgr_ok_RemoveFromCache [OF assms(2)] assms(2) by (simp_all add: mgr_ok_def)
  have "HasVersionName \<rho> (versionCache s) n \<noteq> None"
    using HasVersionName_None [OF assms(1) ok(2)] assms(3,4) by blast
  then obtain p0 q0 where "entry_of ?c = (entry_of (versionCache s))((p0, q0) := None)"
    using RemoveFromCache_present [OF assms(1,2)] by (metis not_None_eq)
  then have "entry_of ?c (p, q) = Some v \<or> entry_of ?c (p', q') = Some v'"
    using assms(3,5,7) by auto
  then show ?thesis
    using HasVersionName_None [OF assms(1) ok(1), of n] assms(4,6) by blast
qed

end
