(* ===== verification/Status_Lock.thy ===== *)
theory Status_Lock
  imports Addon_Updater
begin

text \<open>
  The mutexes of the updater (\<^verbatim>\<open>pkg/addon/addon_update.go\<close>) across goroutines. Both
  controllers share one updater: \<open>UpdateStatus\<close> takes the mutex of the addon's name from the
  map, locks it, works, and unlocks it; \<open>RemoveFromCache\<close> deletes the mutex of a name from
  the map. Each access to the map holds \<open>statusMapMu\<close> and is one step. The step relation
  interleaves any number of goroutines; its parameter is the set of the names that some
  goroutine may remove.

  As long as a name is not removed, at most one goroutine is between lock and unlock for it;
  once it may be removed, two can be.
\<close>

section \<open>Goroutines and steps\<close>

text \<open>
  Where a goroutine is: not in the updater, with the mutex of an addon in hand and about to
  lock it, or holding it.
\<close>

datatype pc = Idle | Waiting string nat | Holding string nat

record lock_state =
  ls_map :: mutexes
  ls_held :: "nat set"
  ls_pc :: "nat \<Rightarrow> pc"

definition lock_init :: lock_state where
  "lock_init = \<lparr>ls_map = \<lparr>statusMap = [], nextMutex = 0\<rparr>, ls_held = {}, ls_pc = (\<lambda>_. Idle)\<rparr>"

inductive lock_step :: "string set \<Rightarrow> lock_state \<Rightarrow> lock_state \<Rightarrow> bool" for R where
  take: "ls_pc s i = Idle \<Longrightarrow> getStatusMutex n (ls_map s) = (m, mm) \<Longrightarrow>
    lock_step R s (s\<lparr>ls_map := mm, ls_pc := (ls_pc s)(i := Waiting n m)\<rparr>)"
| lock: "ls_pc s i = Waiting n m \<Longrightarrow> m \<notin> ls_held s \<Longrightarrow>
    lock_step R s (s\<lparr>ls_held := insert m (ls_held s), ls_pc := (ls_pc s)(i := Holding n m)\<rparr>)"
| unlock: "ls_pc s i = Holding n m \<Longrightarrow>
    lock_step R s (s\<lparr>ls_held := ls_held s - {m}, ls_pc := (ls_pc s)(i := Idle)\<rparr>)"
| remove: "ls_pc s i = Idle \<Longrightarrow> n \<in> R \<Longrightarrow>
    lock_step R s (s\<lparr>ls_map := removeStatusWaitGroup n (ls_map s)\<rparr>)"

inductive lock_reachable :: "string set \<Rightarrow> lock_state \<Rightarrow> bool" for R where
  start: "lock_reachable R lock_init"
| step: "lock_reachable R s \<Longrightarrow> lock_step R s s' \<Longrightarrow> lock_reachable R s'"

section \<open>Invariant\<close>

definition lock_inv :: "string set \<Rightarrow> lock_state \<Rightarrow> bool" where
  "lock_inv R s \<longleftrightarrow>
     (\<forall>i n m. (ls_pc s i = Waiting n m \<or> ls_pc s i = Holding n m) \<and> n \<notin> R \<longrightarrow>
        map_of (statusMap (ls_map s)) n = Some m) \<and>
     (\<forall>i n m. ls_pc s i = Holding n m \<longrightarrow> m \<in> ls_held s) \<and>
     (\<forall>i j n n' m. ls_pc s i = Holding n m \<and> ls_pc s j = Holding n' m \<longrightarrow> i = j)"

lemma getStatusMutex_keeps:
  assumes "getStatusMutex n c = (m, c')"
  shows "map_of (statusMap c') n = Some m"
    and "map_of (statusMap c) n' = Some m' \<Longrightarrow> map_of (statusMap c') n' = Some m'"
  using assms by (auto simp: getStatusMutex_def Let_def split: option.splits)

lemma lock_inv_step:
  assumes "lock_step R s s'" and "lock_inv R s"
  shows "lock_inv R s'"
  using assms(1)
proof (cases rule: lock_step.cases)
  case (take i n m mm)
  then show ?thesis
    using assms(2) getStatusMutex_keeps [OF take(3)] by (simp add: lock_inv_def) blast
next
  case (lock i n m)
  then show ?thesis using assms(2) unfolding lock_inv_def by (auto split: if_splits)
next
  case (unlock i n m)
  then show ?thesis using assms(2) unfolding lock_inv_def by (auto split: if_splits)
next
  case (remove i n)
  then show ?thesis
    using assms(2) by (auto simp: lock_inv_def removeStatusWaitGroup_def)
qed

lemma lock_inv_reachable: "lock_reachable R s \<Longrightarrow> lock_inv R s"
proof (induction rule: lock_reachable.induct)
  case start
  show ?case by (simp add: lock_inv_def lock_init_def)
next
  case (step s s')
  then show ?case using lock_inv_step by blast
qed

section \<open>Properties\<close>

text \<open>
  C22: Status updates of one addon exclude each other: in every reachable state, for any
  number of goroutines and any interleaving, at most one goroutine is between lock and
  unlock for an addon whose mutex nobody removes from the map.
\<close>

theorem status_updates_exclusive:
  assumes "lock_reachable R s" and "n \<notin> R"
    and "ls_pc s i = Holding n m" and "ls_pc s j = Holding n m'"
  shows "i = j \<and> m = m'"
proof -
  have inv: "lock_inv R s" by (rule lock_inv_reachable [OF assms(1)])
  then have "map_of (statusMap (ls_map s)) n = Some m" "map_of (statusMap (ls_map s)) n = Some m'"
    using assms(2-4) unfolding lock_inv_def by blast+
  then have "m = m'" by simp
  then show ?thesis using inv assms(3,4) unfolding lock_inv_def by blast
qed

definition one_holder :: lock_state where
  "one_holder = \<lparr>ls_map = \<lparr>statusMap = [(''a'', 0)], nextMutex = 1\<rparr>, ls_held = {0},
     ls_pc = (\<lambda>_. Idle)(0 := Holding ''a'' 0)\<rparr>"

lemma one_holder_reachable: "lock_reachable R one_holder"
proof -
  let ?s1 = "lock_init\<lparr>ls_map := \<lparr>statusMap = [(''a'', 0)], nextMutex = 1\<rparr>,
    ls_pc := (ls_pc lock_init)(0 := Waiting ''a'' 0)\<rparr>"
  have "lock_step R lock_init ?s1"
    by (rule lock_step.take) (simp_all add: lock_init_def getStatusMutex_def)
  then have r1: "lock_reachable R ?s1" by (rule lock_reachable.step [OF lock_reachable.start])
  have "lock_step R ?s1 (?s1\<lparr>ls_held := insert 0 (ls_held ?s1), ls_pc := (ls_pc ?s1)(0 := Holding ''a'' 0)\<rparr>)"
    by (rule lock_step.lock) (simp_all add: lock_init_def)
  from lock_reachable.step [OF r1 this] show ?thesis by (simp add: one_holder_def lock_init_def)
qed

theorem status_updates_exclusive_witness:
  "{j. \<exists>m. ls_pc one_holder j = Holding ''a'' m} = {0}"
proof -
  have zero: "ls_pc one_holder 0 = Holding ''a'' 0" by (simp add: one_holder_def)
  have "j = 0" if "ls_pc one_holder j = Holding ''a'' m" for j m
    using status_updates_exclusive [OF one_holder_reachable [of "{}"] _ zero that] by simp
  with zero show ?thesis by blast
qed

text \<open>
  C23: The exclusion is lost when the addon is removed while a status update of it runs: the
  map forgets the locked mutex, the next status update of that name makes a new one, and
  two goroutines are in their critical sections for the same addon.
\<close>

theorem removal_breaks_exclusion:
  "\<exists>s i j m m'. lock_reachable {''a''} s \<and> i \<noteq> j \<and>
     ls_pc s i = Holding ''a'' m \<and> ls_pc s j = Holding ''a'' m'"
proof -
  let ?s1 = "one_holder\<lparr>ls_map := removeStatusWaitGroup ''a'' (ls_map one_holder)\<rparr>"
  let ?s2 = "?s1\<lparr>ls_map := \<lparr>statusMap = [(''a'', 1)], nextMutex = 2\<rparr>,
    ls_pc := (ls_pc ?s1)(1 := Waiting ''a'' 1)\<rparr>"
  let ?s3 = "?s2\<lparr>ls_held := insert 1 (ls_held ?s2), ls_pc := (ls_pc ?s2)(1 := Holding ''a'' 1)\<rparr>"
  have "lock_step {''a''} one_holder ?s1"
    by (rule lock_step.remove [of _ 1]) (simp_all add: one_holder_def)
  with one_holder_reachable have "lock_reachable {''a''} ?s1" by (rule lock_reachable.step)
  moreover have "lock_step {''a''} ?s1 ?s2"
    by (rule lock_step.take) (simp_all add: one_holder_def getStatusMutex_def removeStatusWaitGroup_def)
  ultimately have "lock_reachable {''a''} ?s2" by (rule lock_reachable.step)
  moreover have "lock_step {''a''} ?s2 ?s3"
    by (rule lock_step.lock) (simp_all add: one_holder_def)
  ultimately have "lock_reachable {''a''} ?s3" by (rule lock_reachable.step)
  moreover have "ls_pc ?s3 0 = Holding ''a'' 0" "ls_pc ?s3 1 = Holding ''a'' 1"
    by (simp_all add: one_holder_def)
  ultimately show ?thesis by (metis zero_neq_one)
qed

end
