(* ===== verification/Workflow_Lifecycle.thy ===== *)
theory Workflow_Lifecycle
  imports Kube_API "HOL-Library.Sublist"
begin

text \<open>
  The workflow lifecycle of \<^verbatim>\<open>pkg/workflows/workflow.go\<close>: from a workflow template of an
  addon to a workflow that is submitted. An unstructured object is its \<open>Object\<close> map. The
  helpers of \<open>unstructured\<close>, \<open>yaml.v3\<close>, \<open>encoding/json\<close> on these values, the Argo client's
  \<open>Create\<close> and \<open>SetControllerReference\<close> are not code of this repository: they are the
  fields of \<open>wf_lib\<close>, and \<open>wf_law\<close> states what they are documented to do.

  The code changes nested maps through references that \<open>NestedFieldNoCopy\<close> returns;
  \<open>put_ref\<close> stores such a changed value back in the object it hangs in. An object under
  construction is dropped when a step fails, so a failing step returns only its error.
  Type assertions that fail panic.
\<close>

section \<open>The libraries\<close>

record ('w, 'f) wf_lib = template_lib +
  yaml_Marshal :: "json gomap \<Rightarrow> goerr + string"
  json_Marshal :: "json gomap \<Rightarrow> goerr + string"
  un_MarshalJSON :: "json gomap \<Rightarrow> goerr + string"
  UnmarshalJSON :: "string \<Rightarrow> goerr + json gomap"
  fmt_Unstructured :: "json gomap \<Rightarrow> string"
  SetGroupVersionKind :: "GroupVersionKind \<Rightarrow> json gomap \<Rightarrow> json gomap"
  un_SetNamespace :: "string \<Rightarrow> json gomap \<Rightarrow> json gomap"
  un_SetName :: "string \<Rightarrow> json gomap \<Rightarrow> json gomap"
  un_GetNamespace :: "json gomap \<Rightarrow> string"
  un_GetName :: "json gomap \<Rightarrow> string"
  un_GetLabels :: "json gomap \<Rightarrow> string gomap option"
  un_SetLabels :: "string gomap \<Rightarrow> json gomap \<Rightarrow> json gomap"
  NestedFieldNoCopy :: "json gomap \<Rightarrow> string list \<Rightarrow> goerr + json option"
  NestedString :: "json gomap \<Rightarrow> string list \<Rightarrow> goerr + string option"
  NestedInt64 :: "json gomap \<Rightarrow> string list \<Rightarrow> goerr + int option"
  SetNestedField :: "json gomap \<Rightarrow> json \<Rightarrow> string list \<Rightarrow> goerr + json gomap"
  SetNestedSlice :: "json gomap \<Rightarrow> json list \<Rightarrow> string list \<Rightarrow> (goerr + json gomap) outcome"
  FromUnstructured :: "json gomap \<Rightarrow> goerr + 'f"
  json_Unmarshal_wf :: "string \<Rightarrow> goerr + 'f"
  SetControllerReference :: "Addon \<Rightarrow> 'f \<Rightarrow> goerr + 'f"
  argo_Create :: "string \<Rightarrow> 'f \<Rightarrow> 'w \<Rightarrow> goerr option \<times> 'w"
  dyn_Delete :: "GroupVersionResource \<Rightarrow> string \<Rightarrow> string \<Rightarrow> 'w \<Rightarrow> goerr option \<times> 'w"

section \<open>Data and constants\<close>

definition WfInstanceIdLabelKey :: string where
  "WfInstanceIdLabelKey = ''workflows.argoproj.io/controller-instanceid''"
definition WfInstanceId :: string where
  "WfInstanceId = ''addon-manager-workflow-controller''"
definition WfDefaultActiveDeadlineSeconds :: int where
  "WfDefaultActiveDeadlineSeconds = 300"

record WorkflowProxy =
  proxy_name :: string
  proxy_template :: WorkflowType
  proxy_lifecycle :: LifecycleStep

definition NewWorkflowProxy :: "string \<Rightarrow> WorkflowType \<Rightarrow> LifecycleStep \<Rightarrow> WorkflowProxy" where
  "NewWorkflowProxy name wt lifecycle =
     \<lparr>proxy_name = name, proxy_template = wt, proxy_lifecycle = lifecycle\<rparr>"

text \<open>The type that \<open>%T\<close> prints for a dynamic value.\<close>

fun go_type :: "json \<Rightarrow> string" where
  "go_type JNull = ''<nil>''"
| "go_type (JBool _) = ''bool''"
| "go_type (JInt _) = ''int64''"
| "go_type (JFloat _) = ''float64''"
| "go_type (JStr _) = ''string''"
| "go_type (JList _) = ''[]interface {}''"
| "go_type (JObj _) = ''map[string]interface {}''"

text \<open>A value that is reached by reference and changed, in the object it hangs in.\<close>

fun put_ref :: "string list \<Rightarrow> json \<Rightarrow> json gomap \<Rightarrow> json gomap" where
  "put_ref [] v m = m"
| "put_ref [k] v m = AList.update k v m"
| "put_ref (k # ks) v m =
     (case map_of m k of
        Some (JObj m') \<Rightarrow> AList.update k (JObj (put_ref ks v m')) m
      | _ \<Rightarrow> m)"

section \<open>Parsing and parameters\<close>

definition parse :: "('w, 'f) wf_lib \<Rightarrow> Addon \<Rightarrow> WorkflowType \<Rightarrow> string \<Rightarrow> goerr + json gomap" where
  "parse U a wt name =
     (case yaml_Unmarshal U (Template wt) [] of
        Inl err \<Rightarrow> Inl (Errorf (''invalid workflow yaml spec passed. '' @ Error err))
      | Inr data \<Rightarrow>
          (case json_Marshal U data of
             Inl _ \<Rightarrow> Inl (Errorf ''invalid workflow, unable to marshal data'')
           | Inr raw \<Rightarrow>
               (case UnmarshalJSON U raw of
                  Inl _ \<Rightarrow> Inl (Errorf ''invalid workflow, unable to unmarshal to workflow'')
                | Inr obj \<Rightarrow>
                    (let w1 = SetGroupVersionKind U argoGKV obj;
                         w2 = un_SetNamespace U (GetNamespace a) w1;
                         w3 = un_SetName U name w2
                     in case NestedFieldNoCopy U w3 [''spec''] of
                          Inl _ \<Rightarrow> Inl (Errorf ''invalid workflow, missing spec'')
                        | Inr None \<Rightarrow> Inl (Errorf ''invalid workflow, missing spec'')
                        | Inr (Some _) \<Rightarrow> Inr w3))))"

definition param :: "string \<Rightarrow> string \<Rightarrow> json" where
  "param name val = JObj [(''name'', JStr name), (''value'', JStr val)]"

text \<open>
  The string fields of \<open>PackageSpec\<close> and of \<open>ClusterContext\<close> under their json tags, in the
  order of the fields, as the loops over \<open>reflect.Value\<close> visit them.
\<close>

definition pkg_fields :: "PackageSpec \<Rightarrow> (string \<times> string) list" where
  "pkg_fields p =
     [(''pkgChannel'', PkgChannel p), (''pkgName'', PkgName p), (''pkgVersion'', PkgVersion p),
      (''pkgType'', PkgType p), (''pkgDescription'', PkgDescription p)]"

definition context_fields :: "ClusterContext \<Rightarrow> (string \<times> string) list" where
  "context_fields c = [(''clusterName'', ClusterName c), (''clusterRegion'', ClusterRegion c)]"

definition global_params :: "order \<Rightarrow> Addon \<Rightarrow> (string \<times> string) list" where
  "global_params \<rho> a =
     (let ps = Spec_Params (Spec a)
      in [(''namespace'', Params_Namespace ps)] @ pkg_fields (Spec_PackageSpec (Spec a))
         @ context_fields (Params_Context ps)
         @ gm_range \<rho> (AdditionalConfigs (Params_Context ps)) @ gm_range \<rho> (Params_Data ps))"

text \<open>
  The result is the boolean and the changed workflow. The assignment to a nil map and the
  two type assertions panic.
\<close>

definition is_nil :: "json option \<Rightarrow> bool" where
  "is_nil v \<longleftrightarrow> v = None \<or> v = Some JNull"

definition configureGlobalWFParameters ::
    "('w, 'f) wf_lib \<Rightarrow> order \<Rightarrow> Addon \<Rightarrow> json gomap \<Rightarrow> (bool \<times> json gomap) outcome" where
  "configureGlobalWFParameters U \<rho> a wfobj =
     (case map_of wfobj ''spec'' of
        Some (JObj spec0) \<Rightarrow>
          (let spec = (if is_nil (map_of spec0 ''arguments'')
                       then AList.update ''arguments'' (JObj []) spec0 else spec0)
           in case map_of spec ''arguments'' of
                Some (JObj args0) \<Rightarrow>
                  (let arguments = (if is_nil (map_of args0 ''parameters'')
                                    then AList.update ''parameters'' (JList []) args0 else args0)
                   in case map_of arguments ''parameters'' of
                        Some (JList wfParams) \<Rightarrow>
                          (let wf1 = AList.update ''spec''
                                 (JObj (AList.update ''arguments'' (JObj arguments) spec)) wfobj;
                               params = wfParams @ map (\<lambda>(k, v). param k v) (global_params \<rho> a)
                           in case SetNestedSlice U wf1 params [''spec'', ''arguments'', ''parameters''] of
                                Panic p \<Rightarrow> Panic p
                              | Ret (Inl _) \<Rightarrow> Ret (False, wf1)
                              | Ret (Inr wf2) \<Rightarrow> Ret (True, wf2))
                      | _ \<Rightarrow> Panic ''interface conversion'')
              | _ \<Rightarrow> Panic ''interface conversion'')
      | _ \<Rightarrow> Panic ''assignment to entry in nil map'')"

section \<open>Labels, time to live, deadline\<close>

definition addDefaultLabelsToResource :: "('w, 'f) wf_lib \<Rightarrow> Addon \<Rightarrow> json gomap \<Rightarrow> json gomap" where
  "addDefaultLabelsToResource U a resource =
     (let packageSpec = GetPackageSpec a;
          labels = (case un_GetLabels U resource of None \<Rightarrow> [] | Some l \<Rightarrow> l);
          l1 = AList.update ResourceDefaultOwnLabel (GetName a) labels;
          l2 = AList.update ResourceDefaultVersionLabel (PkgVersion packageSpec) l1;
          l3 = AList.update ResourceDefaultPartLabel (GetName a) l2;
          l4 = AList.update ResourceDefaultManageByLabel Group l3
      in un_SetLabels U l4 resource)"

definition injectInstanceId :: "('w, 'f) wf_lib \<Rightarrow> json gomap \<Rightarrow> json gomap" where
  "injectInstanceId U wfobj =
     (let labels = (case un_GetLabels U wfobj of None \<Rightarrow> [] | Some l \<Rightarrow> l)
      in un_SetLabels U (AList.update WfInstanceIdLabelKey WfInstanceId labels) wfobj)"

text \<open>\<open>int64(ttl.Seconds())\<close> of 72 hours.\<close>

definition default_ttl :: int where "default_ttl = 259200"

definition ttl_path :: "string list" where
  "ttl_path = [''spec'', ''ttlStrategy'', ''secondsAfterCompletion'']"
definition deadline_path :: "string list" where
  "deadline_path = [''spec'', ''activeDeadlineSeconds'']"

definition injectTTLs :: "('w, 'f) wf_lib \<Rightarrow> json gomap \<Rightarrow> goerr + json gomap" where
  "injectTTLs U wfobj =
     (case NestedInt64 U wfobj ttl_path of
        Inl err \<Rightarrow> Inl err
      | Inr found \<Rightarrow>
          if found = None \<or> found = Some 0
          then SetNestedField U wfobj (JInt default_ttl) ttl_path
          else Inr wfobj)"

definition injectActiveDeadlineSeconds :: "('w, 'f) wf_lib \<Rightarrow> json gomap \<Rightarrow> goerr + json gomap" where
  "injectActiveDeadlineSeconds U wfobj =
     (case NestedInt64 U wfobj deadline_path of
        Inl err \<Rightarrow> Inl err
      | Inr found \<Rightarrow>
          if found = None \<or> found = Some 0
          then SetNestedField U wfobj (JInt WfDefaultActiveDeadlineSeconds) deadline_path
          else Inr wfobj)"

section \<open>Artifacts\<close>

definition processArtifact :: "('w, 'f) wf_lib \<Rightarrow> Addon \<Rightarrow> string \<Rightarrow> goerr + string" where
  "processArtifact U a obj0 =
     (let obj = TrimSpace obj0
      in if obj = [] then Inr obj
         else (case yaml_Unmarshal U obj [] of
                 Inl err \<Rightarrow> Inl (Errorf (''unable to unmarshall artifact: '' @ obj @ ''. '' @ Error err))
               | Inr data \<Rightarrow>
                   (let resource = addDefaultLabelsToResource U a data
                    in case yaml_Marshal U resource of
                         Inl _ \<Rightarrow> Inl (Errorf (''unable to marshall resource: ''
                                    @ fmt_Unstructured U resource))
                       | Inr appendData \<Rightarrow> Inr appendData)))"

definition manifest_sep :: string where
  "manifest_sep = ''---'' @ [CHR 0x0A]"

text \<open>The loop over the documents of a manifest.\<close>

definition processManifest :: "('w, 'f) wf_lib \<Rightarrow> Addon \<Rightarrow> string \<Rightarrow> (goerr + string) outcome" where
  "processManifest U a data =
     ebind (emap (\<lambda>obj. Ret (processArtifact U a obj)) (Split data manifest_sep))
       (\<lambda>objs. Ret (Inr (Join objs manifest_sep)))"

text \<open>One round of the loop over the artifacts.\<close>

definition processRawArtifact :: "('w, 'f) wf_lib \<Rightarrow> Addon \<Rightarrow> json \<Rightarrow> (goerr + json) outcome" where
  "processRawArtifact U a artifact =
     (case artifact of
        JObj art \<Rightarrow>
          (case NestedString U art [''raw'', ''data''] of
             Inl err \<Rightarrow> Ret (Inl err)
           | Inr found \<Rightarrow>
               ebind (processManifest U a (case found of None \<Rightarrow> [] | Some d \<Rightarrow> d))
                 (\<lambda>data. case SetNestedField U art (JStr data) [''raw'', ''data''] of
                           Inl err \<Rightarrow> Ret (Inl err)
                         | Inr art' \<Rightarrow> Ret (Inr (JObj art'))))
      | _ \<Rightarrow> Panic ''interface conversion'')"

definition processWorkflowResources :: "('w, 'f) wf_lib \<Rightarrow> Addon \<Rightarrow> json \<Rightarrow> (goerr + json) outcome" where
  "processWorkflowResources U a workflowStepObject =
     (case workflowStepObject of
        JObj obj \<Rightarrow>
          (case NestedFieldNoCopy U obj [''arguments'', ''artifacts''] of
             Inl err \<Rightarrow> Ret (Inl err)
           | Inr (Some (JList artifacts)) \<Rightarrow>
               ebind (emap (processRawArtifact U a) artifacts)
                 (\<lambda>arts. Ret (Inr (JObj (put_ref [''arguments'', ''artifacts''] (JList arts) obj))))
           | Inr (Some _) \<Rightarrow> Panic ''interface conversion''
           | Inr None \<Rightarrow>
               (case NestedFieldNoCopy U obj [''resource'', ''manifest''] of
                  Inl err \<Rightarrow> Ret (Inl err)
                | Inr (Some (JStr manifests)) \<Rightarrow>
                    ebind (processManifest U a manifests)
                      (\<lambda>data. case SetNestedField U obj (JStr data) [''resource'', ''manifest''] of
                                Inl err \<Rightarrow> Ret (Inl err)
                              | Inr obj' \<Rightarrow> Ret (Inr (JObj obj')))
                | Inr (Some _) \<Rightarrow> Panic ''interface conversion''
                | Inr None \<Rightarrow> Ret (Inr (JObj obj))))
      | _ \<Rightarrow> Panic ''interface conversion'')"

text \<open>
  The entries of a template's steps. The type the message prints is that of the shadowing
  variable, always a slice.
\<close>

definition processSteps :: "('w, 'f) wf_lib \<Rightarrow> Addon \<Rightarrow> json \<Rightarrow> (goerr + json) outcome" where
  "processSteps U a steps =
     (case steps of
        JList ss \<Rightarrow> ebind (emap (processWorkflowResources U a) ss) (\<lambda>ss'. Ret (Inr (JList ss')))
      | _ \<Rightarrow> Ret (Inl (Errorf ''template.steps entry is not a list: got []interface {}'')))"

definition processTemplate :: "('w, 'f) wf_lib \<Rightarrow> Addon \<Rightarrow> json \<Rightarrow> (goerr + json) outcome" where
  "processTemplate U a template =
     (case template of
        JObj _ \<Rightarrow>
          ebind (processWorkflowResources U a template)
            (\<lambda>t. case t of
               JObj templateMap \<Rightarrow>
                 (case NestedFieldNoCopy U templateMap [''steps''] of
                    Inl err \<Rightarrow> Ret (Inl err)
                  | Inr None \<Rightarrow> Ret (Inr t)
                  | Inr (Some (JList stepsList)) \<Rightarrow>
                      ebind (emap (processSteps U a) stepsList)
                        (\<lambda>ss. Ret (Inr (JObj (put_ref [''steps''] (JList ss) templateMap))))
                  | Inr (Some allSteps) \<Rightarrow>
                      Ret (Inl (Errorf (''template.steps is not a list: got '' @ go_type allSteps))))
             | _ \<Rightarrow> Panic ''interface conversion'')
      | _ \<Rightarrow> Ret (Inl (Errorf (''spec.templates entry is not an object: got '' @ go_type template))))"

text \<open>The part of \<open>configureWorkflowArtifacts\<close> that walks over the templates.\<close>

definition processTemplates ::
    "('w, 'f) wf_lib \<Rightarrow> Addon \<Rightarrow> json gomap \<Rightarrow> (goerr + json gomap) outcome" where
  "processTemplates U a wfobj =
     (case NestedFieldNoCopy U wfobj [''spec'', ''templates''] of
        Inl err \<Rightarrow> Ret (Inl err)
      | Inr None \<Rightarrow> Ret (Inr wfobj)
      | Inr (Some JNull) \<Rightarrow> Ret (Inr wfobj)
      | Inr (Some (JList templateList)) \<Rightarrow>
          ebind (emap (processTemplate U a) templateList)
            (\<lambda>ts. Ret (Inr (put_ref [''spec'', ''templates''] (JList ts) wfobj)))
      | Inr (Some templates) \<Rightarrow>
          Ret (Inl (Errorf (''spec.templates is not a list: got '' @ go_type templates))))"

definition configureWorkflowArtifacts ::
    "('w, 'f) wf_lib \<Rightarrow> Addon \<Rightarrow> json gomap \<Rightarrow> (goerr + json gomap) outcome" where
  "configureWorkflowArtifacts U a wfobj =
     (case NestedFieldNoCopy U wfobj [''spec''] of
        Inl err \<Rightarrow> Ret (Inl err)
      | Inr spec \<Rightarrow>
          ebind (processWorkflowResources U a (case spec of None \<Rightarrow> JNull | Some v \<Rightarrow> v))
            (\<lambda>spec'. processTemplates U a (put_ref [''spec''] spec' wfobj)))"

section \<open>Submission\<close>

text \<open>\<open>NamespacedName.String()\<close>\<close>

definition namespaced_name :: "string \<Rightarrow> string \<Rightarrow> string" where
  "namespaced_name ns name = ns @ ''/'' @ name"

definition WorkFlowFromUnstructured :: "('w, 'f) wf_lib \<Rightarrow> json gomap \<Rightarrow> goerr + 'f" where
  "WorkFlowFromUnstructured U un =
     FromUnstructuredObj (FromUnstructured U) (un_MarshalJSON U) (json_Unmarshal_wf U) un"

definition submit :: "('w, 'f) wf_lib \<Rightarrow> Addon \<Rightarrow> json gomap \<Rightarrow> 'w mgr \<Rightarrow> goerr option \<times> 'w mgr" where
  "submit U a wp s =
     (case WorkFlowFromUnstructured U wp of
        Inl err \<Rightarrow> (Some err, s)
      | Inr wfv1 \<Rightarrow>
          (case SetControllerReference U a wfv1 of
             Inl err \<Rightarrow> (Some err, s)
           | Inr wfv1' \<Rightarrow>
               (case argo_Create U (un_GetNamespace U wp) wfv1' (world s) of
                  (Some err, w) \<Rightarrow>
                    if IsAlreadyExists err then (None, s\<lparr>world := w\<rparr>)
                    else (Some (Errorf (''failed creating wf '' @ un_GetName U wp @ '' err '' @ Error err)),
                          s\<lparr>world := w\<rparr>)
                | (None, w) \<Rightarrow>
                    (None, record_event ''Normal'' ''Created''
                       (''Created Workflow '' @ namespaced_name (un_GetNamespace U wp) (un_GetName U wp))
                       (s\<lparr>world := w\<rparr>)))))"

text \<open>The object that \<open>Install\<close> builds before it submits it.\<close>

definition buildWorkflow ::
    "('w, 'f) wf_lib \<Rightarrow> order \<Rightarrow> Addon \<Rightarrow> WorkflowProxy \<Rightarrow> (goerr + json gomap) outcome" where
  "buildWorkflow U \<rho> a wp =
     (case parse U a (proxy_template wp) (proxy_name wp) of
        Inl err \<Rightarrow> Ret (Inl (Errorf (''invalid workflow. '' @ Error err)))
      | Inr w0 \<Rightarrow>
          (case configureGlobalWFParameters U \<rho> a w0 of
             Panic p \<Rightarrow> Panic p
           | Ret (False, _) \<Rightarrow> Ret (Inl (Errorf ''invalid workflow parameter''))
           | Ret (True, w1) \<Rightarrow>
               ebind (configureWorkflowArtifacts U a w1)
                 (\<lambda>w2. ebind (Ret (injectTTLs U w2))
                   (\<lambda>w3. ebind (Ret (injectActiveDeadlineSeconds U w3))
                     (\<lambda>w4. Ret (Inr (addDefaultLabelsToResource U a (injectInstanceId U w4))))))))"

definition workflowLifecycle_Install ::
    "('w, 'f) wf_lib \<Rightarrow> order \<Rightarrow> Addon \<Rightarrow> WorkflowProxy \<Rightarrow> ('w mgr, goerr option) gom" where
  "workflowLifecycle_Install U \<rho> a wp =
     (case buildWorkflow U \<rho> a wp of
        Panic p \<Rightarrow> gpanic p
      | Ret (Inl err) \<Rightarrow> gret (Some err)
      | Ret (Inr wfobj) \<Rightarrow> (\<lambda>s. case submit U a wfobj s of (r, s') \<Rightarrow> (Ret r, s')))"

definition workflowLifecycle_Delete ::
    "('w, 'f) wf_lib \<Rightarrow> Addon \<Rightarrow> string \<Rightarrow> 'w mgr \<Rightarrow> goerr option \<times> 'w mgr" where
  "workflowLifecycle_Delete U a name s =
     (case dyn_Delete U WorkflowGVR (GetNamespace a) name (world s) of
        (Some err, w) \<Rightarrow> (Some err, s\<lparr>world := w\<rparr>)
      | (None, w) \<Rightarrow> (None, s\<lparr>world := w\<rparr>))"

section \<open>What the libraries promise\<close>

text \<open>
  The object's kind stands under \<open>kind\<close> and \<open>apiVersion\<close>, its name, namespace and labels under
  \<open>metadata\<close>; a setter is read back by its getter and leaves the other keys alone.
\<close>

definition meta_read_law :: "('w, 'f) wf_lib \<Rightarrow> bool" where
  "meta_read_law U \<longleftrightarrow>
     (\<forall>x y. map_of x ''metadata'' = map_of y ''metadata'' \<longrightarrow>
        un_GetName U x = un_GetName U y \<and> un_GetNamespace U x = un_GetNamespace U y \<and>
        un_GetLabels U x = un_GetLabels U y)"

definition meta_write_law :: "('w, 'f) wf_lib \<Rightarrow> bool" where
  "meta_write_law U \<longleftrightarrow>
     (\<forall>x n. un_GetName U (un_SetName U n x) = n \<and>
        un_GetNamespace U (un_SetName U n x) = un_GetNamespace U x \<and>
        un_GetNamespace U (un_SetNamespace U n x) = n) \<and>
     (\<forall>x l. (\<exists>l'. un_GetLabels U (un_SetLabels U l x) = Some l' \<and> map_of l' = map_of l) \<and>
        un_GetName U (un_SetLabels U l x) = un_GetName U x \<and>
        un_GetNamespace U (un_SetLabels U l x) = un_GetNamespace U x)"

definition meta_frame_law :: "('w, 'f) wf_lib \<Rightarrow> bool" where
  "meta_frame_law U \<longleftrightarrow>
     (\<forall>x n l k. k \<noteq> ''metadata'' \<longrightarrow>
        map_of (un_SetName U n x) k = map_of x k \<and> map_of (un_SetNamespace U n x) k = map_of x k \<and>
        map_of (un_SetLabels U l x) k = map_of x k)"

definition kind_law :: "('w, 'f) wf_lib \<Rightarrow> bool" where
  "kind_law U \<longleftrightarrow>
     (\<forall>x g. GroupVersionKind_of U (SetGroupVersionKind U g x) = g) \<and>
     (\<forall>x y. map_of x ''kind'' = map_of y ''kind'' \<and> map_of x ''apiVersion'' = map_of y ''apiVersion'' \<longrightarrow>
        GroupVersionKind_of U x = GroupVersionKind_of U y)"

text \<open>A nested store changes the path it names and nothing beside it.\<close>

definition nested_law :: "('w, 'f) wf_lib \<Rightarrow> bool" where
  "nested_law U \<longleftrightarrow>
     (\<forall>x v k ks x'. SetNestedField U x v (k # ks) = Inr x' \<longrightarrow> (\<forall>k'. k' \<noteq> k \<longrightarrow> map_of x' k' = map_of x k')) \<and>
     (\<forall>x v k ks x'. SetNestedSlice U x v (k # ks) = Ret (Inr x') \<longrightarrow>
        (\<forall>k'. k' \<noteq> k \<longrightarrow> map_of x' k' = map_of x k')) \<and>
     (\<forall>x n p x'. p \<noteq> [] \<and> SetNestedField U x (JInt n) p = Inr x' \<longrightarrow> NestedInt64 U x' p = Inr (Some n)) \<and>
     (\<forall>x v p q x'. p \<parallel> q \<and> SetNestedField U x v p = Inr x' \<longrightarrow> NestedInt64 U x' q = NestedInt64 U x q) \<and>
     (\<forall>x y k ks. map_of x k = map_of y k \<longrightarrow> NestedInt64 U x (k # ks) = NestedInt64 U y (k # ks))"

definition wf_law :: "('w, 'f) wf_lib \<Rightarrow> bool" where
  "wf_law U \<longleftrightarrow>
     meta_read_law U \<and> meta_write_law U \<and> meta_frame_law U \<and> kind_law U \<and> nested_law U"

section \<open>Each step changes only its own part of the object\<close>

definition same_outside :: "string \<Rightarrow> json gomap \<Rightarrow> json gomap \<Rightarrow> bool" where
  "same_outside k x y \<longleftrightarrow> (\<forall>k'. k' \<noteq> k \<longrightarrow> map_of y k' = map_of x k')"

lemma same_outside_refl [simp]: "same_outside k x x"
  by (simp add: same_outside_def)

lemma same_outside_trans: "same_outside k x y \<Longrightarrow> same_outside k y z \<Longrightarrow> same_outside k x z"
  by (simp add: same_outside_def)

lemma same_outside_update [simp]: "same_outside k x (AList.update k v x)"
  by (simp add: same_outside_def)

lemma same_outside_put_ref [simp]: "same_outside k x (put_ref (k # ks) v x)"
  by (cases ks) (auto simp: same_outside_def split: option.split json.split)

lemma set_field_outside:
  "wf_law U \<Longrightarrow> SetNestedField U x v (k # ks) = Inr x' \<Longrightarrow> same_outside k x x'"
  by (auto simp: wf_law_def nested_law_def same_outside_def)

lemma set_slice_outside:
  "wf_law U \<Longrightarrow> SetNestedSlice U x v (k # ks) = Ret (Inr x') \<Longrightarrow> same_outside k x x'"
  by (auto simp: wf_law_def nested_law_def same_outside_def)

lemma inject_outside:
  assumes "wf_law U"
  shows "injectTTLs U x = Inr y \<Longrightarrow> same_outside ''spec'' x y"
    and "injectActiveDeadlineSeconds U x = Inr y \<Longrightarrow> same_outside ''spec'' x y"
  using set_field_outside [OF assms]
  by (auto simp: injectTTLs_def injectActiveDeadlineSeconds_def ttl_path_def deadline_path_def
      split: sum.splits if_splits)

lemma global_params_outside:
  assumes "wf_law U" and "configureGlobalWFParameters U \<rho> a x = Ret (True, y)"
  shows "same_outside ''spec'' x y"
proof -
  obtain spec v params where
    slice: "SetNestedSlice U (AList.update ''spec'' v x) params [''spec'', ''arguments'', ''parameters'']
      = Ret (Inr y)"
    using assms(2)
    by (auto simp: configureGlobalWFParameters_def Let_def
        split: option.splits json.splits outcome.splits sum.splits)
  show ?thesis
    by (rule same_outside_trans [OF same_outside_update set_slice_outside [OF assms(1) slice]])
qed

lemma templates_outside:
  assumes "processTemplates U a x = Ret (Inr y)"
  shows "same_outside ''spec'' x y"
proof -
  note put_ref.simps [simp del]
  show ?thesis
    using assms
    by (auto simp: processTemplates_def ebind_Inr split: sum.splits option.splits json.splits)
qed

lemma artifacts_outside:
  assumes "configureWorkflowArtifacts U a x = Ret (Inr y)"
  shows "same_outside ''spec'' x y"
proof -
  from assms obtain v where "processTemplates U a (put_ref [''spec''] v x) = Ret (Inr y)"
    by (auto simp: configureWorkflowArtifacts_def ebind_Inr split: sum.splits)
  from templates_outside [OF this] show ?thesis
    by (rule same_outside_trans [OF same_outside_put_ref])
qed

text \<open>What the last steps leave in the object.\<close>

lemma inject_value:
  assumes "wf_law U"
  shows "injectTTLs U x = Inr y \<Longrightarrow> \<exists>n. n \<noteq> 0 \<and> NestedInt64 U y ttl_path = Inr (Some n)"
    and "injectActiveDeadlineSeconds U x = Inr y \<Longrightarrow>
      \<exists>n. n \<noteq> 0 \<and> NestedInt64 U y deadline_path = Inr (Some n)"
proof -
  have set: "NestedInt64 U y p = Inr (Some n)" if "SetNestedField U x (JInt n) p = Inr y" "p \<noteq> []"
    for x n p y using assms that by (auto simp: wf_law_def nested_law_def)
  show "injectTTLs U x = Inr y \<Longrightarrow> \<exists>n. n \<noteq> 0 \<and> NestedInt64 U y ttl_path = Inr (Some n)"
    using set [of x default_ttl ttl_path y]
    by (auto simp: injectTTLs_def ttl_path_def default_ttl_def split: sum.splits if_splits)
  show "injectActiveDeadlineSeconds U x = Inr y \<Longrightarrow>
      \<exists>n. n \<noteq> 0 \<and> NestedInt64 U y deadline_path = Inr (Some n)"
    using set [of x WfDefaultActiveDeadlineSeconds deadline_path y]
    by (auto simp: injectActiveDeadlineSeconds_def deadline_path_def WfDefaultActiveDeadlineSeconds_def
        split: sum.splits if_splits)
qed

lemma deadline_keeps_ttl:
  assumes "wf_law U" and "injectActiveDeadlineSeconds U x = Inr y"
  shows "NestedInt64 U y ttl_path = NestedInt64 U x ttl_path"
proof -
  have "deadline_path \<parallel> ttl_path" by (simp add: deadline_path_def ttl_path_def parallel_def)
  then have "NestedInt64 U y ttl_path = NestedInt64 U x ttl_path"
    if "SetNestedField U x v deadline_path = Inr y" for v
    using assms(1) that by (simp add: wf_law_def nested_law_def)
  then show ?thesis
    using assms(2) by (auto simp: injectActiveDeadlineSeconds_def split: sum.splits if_splits)
qed

text \<open>The two steps that set labels, as one store of labels on top of the ones there were.\<close>

lemma labels_step:
  assumes "wf_law U"
  shows "same_outside ''metadata'' x (addDefaultLabelsToResource U a x)"
    and "same_outside ''metadata'' x (injectInstanceId U x)"
    and "un_GetName U (addDefaultLabelsToResource U a x) = un_GetName U x"
    and "un_GetNamespace U (addDefaultLabelsToResource U a x) = un_GetNamespace U x"
    and "un_GetName U (injectInstanceId U x) = un_GetName U x"
    and "un_GetNamespace U (injectInstanceId U x) = un_GetNamespace U x"
  using assms
  by (simp_all add: wf_law_def meta_write_law_def meta_frame_law_def same_outside_def addDefaultLabelsToResource_def
      injectInstanceId_def Let_def)

definition default_labels :: "Addon \<Rightarrow> string \<rightharpoonup> string" where
  "default_labels a =
     [ResourceDefaultOwnLabel \<mapsto> GetName a,
      ResourceDefaultVersionLabel \<mapsto> PkgVersion (Spec_PackageSpec (Spec a)),
      ResourceDefaultPartLabel \<mapsto> GetName a, ResourceDefaultManageByLabel \<mapsto> Group]"

abbreviation label_map :: "('w, 'f) wf_lib \<Rightarrow> json gomap \<Rightarrow> string \<rightharpoonup> string" where
  "label_map U x \<equiv> (case un_GetLabels U x of None \<Rightarrow> Map.empty | Some l \<Rightarrow> map_of l)"

lemma labels_value:
  assumes "wf_law U"
  shows "label_map U (addDefaultLabelsToResource U a x) = label_map U x ++ default_labels a"
    and "label_map U (injectInstanceId U x) = (label_map U x)(WfInstanceIdLabelKey \<mapsto> WfInstanceId)"
proof -
  have set: "label_map U (un_SetLabels U l x) = map_of l" for l
  proof -
    have "\<exists>l'. un_GetLabels U (un_SetLabels U l x) = Some l' \<and> map_of l' = map_of l"
      using assms by (simp add: wf_law_def meta_write_law_def)
    then show ?thesis by auto
  qed
  show "label_map U (addDefaultLabelsToResource U a x) = label_map U x ++ default_labels a"
    by (simp add: addDefaultLabelsToResource_def set default_labels_def GetPackageSpec_def Let_def
        split: option.split)
  show "label_map U (injectInstanceId U x) = (label_map U x)(WfInstanceIdLabelKey \<mapsto> WfInstanceId)"
    by (simp add: injectInstanceId_def set split: option.split)
qed

section \<open>The libraries in memory\<close>

text \<open>An instance of the laws, on which examples are computed.\<close>

fun path_get :: "json gomap \<Rightarrow> string list \<Rightarrow> goerr + json option" where
  "path_get x [] = Inr None"
| "path_get x [k] = Inr (map_of x k)"
| "path_get x (k # ks) =
     (case map_of x k of
        None \<Rightarrow> Inr None
      | Some (JObj y) \<Rightarrow> path_get y ks
      | Some _ \<Rightarrow> Inl (Errorf ''accessor error''))"

fun path_set :: "json gomap \<Rightarrow> json \<Rightarrow> string list \<Rightarrow> goerr + json gomap" where
  "path_set x v [] = Inl (Errorf ''no path'')"
| "path_set x v [k] = Inr (AList.update k v x)"
| "path_set x v (k # ks) =
     (case map_of x k of
        None \<Rightarrow> map_sum id (\<lambda>y. AList.update k (JObj y) x) (path_set [] v ks)
      | Some (JObj y) \<Rightarrow> map_sum id (\<lambda>y. AList.update k (JObj y) x) (path_set y v ks)
      | Some _ \<Rightarrow> Inl (Errorf ''accessor error''))"

lemma map_sum_Inr: "map_sum id f s = Inr y \<longleftrightarrow> (\<exists>z. s = Inr z \<and> y = f z)"
  by (cases s) auto

lemma path_set_outside: "path_set x v (k # ks) = Inr x' \<Longrightarrow> same_outside k x x'"
  by (cases ks) (auto simp: map_sum_Inr split: option.splits json.splits)

lemma path_set_get: "p \<noteq> [] \<Longrightarrow> path_set x v p = Inr x' \<Longrightarrow> path_get x' p = Inr (Some v)"
  by (induction x v p arbitrary: x' rule: path_set.induct)
    (auto simp: map_sum_Inr split: option.splits json.splits)

lemma path_get_Nil [simp]: "path_get [] p = Inr None"
  by (cases p; cases "tl p") simp_all

lemma path_set_frame:
  "p \<parallel> q \<Longrightarrow> path_set x v p = Inr x' \<Longrightarrow> path_get x' q = path_get x q"
proof (induction x v p arbitrary: x' q rule: path_set.induct)
  case (2 x v k)
  then obtain k' ks where "q = k' # ks" "k' \<noteq> k" by (cases q) (auto simp: parallel_def)
  with 2 show ?case by (cases ks) auto
next
  case (3 x v k k2 ks)
  obtain k' qs where q: "q = k' # qs" using 3(3) by (cases q) (auto simp: parallel_def)
  show ?case
  proof (cases "k' = k")
    case True
    then have par: "(k2 # ks) \<parallel> qs" using 3(3) q by (auto simp: parallel_def)
    then obtain k3 qs' where qs: "qs = k3 # qs'" by (cases qs) (auto simp: parallel_def)
    show ?thesis
      using 3(1) [OF _ par] 3(2) [OF _ _ par] 3(4) True q qs
      by (auto simp: map_sum_Inr split: option.splits json.splits)
  next
    case False
    then show ?thesis
      using path_set_outside [OF 3(4)] q by (cases qs) (auto simp: same_outside_def)
  qed
qed simp

lemma path_get_local: "map_of x k = map_of y k \<Longrightarrow> path_get x (k # ks) = path_get y (k # ks)"
  by (cases ks) simp_all

definition mem_int :: "goerr + json option \<Rightarrow> goerr + int option" where
  "mem_int r = (case r of Inr None \<Rightarrow> Inr None | Inr (Some (JInt n)) \<Rightarrow> Inr (Some n)
                | _ \<Rightarrow> Inl (Errorf ''accessor error''))"

fun str_of :: "json \<Rightarrow> string" where
  "str_of (JStr s) = s"
| "str_of _ = []"

definition mem_meta :: "json gomap \<Rightarrow> json gomap" where
  "mem_meta x = (case map_of x ''metadata'' of Some (JObj m) \<Rightarrow> m | _ \<Rightarrow> [])"

definition mem_set_meta :: "string \<Rightarrow> json \<Rightarrow> json gomap \<Rightarrow> json gomap" where
  "mem_set_meta k v x = AList.update ''metadata'' (JObj (AList.update k v (mem_meta x))) x"

definition mem_get_meta :: "string \<Rightarrow> json gomap \<Rightarrow> string" where
  "mem_get_meta k x = (case map_of (mem_meta x) k of Some v \<Rightarrow> str_of v | None \<Rightarrow> [])"

definition mem_labels :: "json gomap \<Rightarrow> string gomap option" where
  "mem_labels x = (case map_of (mem_meta x) ''labels'' of
     Some (JObj l) \<Rightarrow> Some (map (\<lambda>(k, v). (k, str_of v)) l) | _ \<Rightarrow> None)"

definition mem_get_kind :: "json gomap \<Rightarrow> GroupVersionKind" where
  "mem_get_kind x =
     \<lparr>GVK_Kind = (case map_of x ''kind'' of Some v \<Rightarrow> str_of v | None \<Rightarrow> []),
      GVK_Group = (case map_of x ''apiVersion'' of Some (JList [g, v]) \<Rightarrow> str_of g | _ \<Rightarrow> []),
      GVK_Version = (case map_of x ''apiVersion'' of Some (JList [g, v]) \<Rightarrow> str_of v | _ \<Rightarrow> [])\<rparr>"

definition mem_set_kind :: "GroupVersionKind \<Rightarrow> json gomap \<Rightarrow> json gomap" where
  "mem_set_kind g x =
     AList.update ''apiVersion'' (JList [JStr (GVK_Group g), JStr (GVK_Version g)])
       (AList.update ''kind'' (JStr (GVK_Kind g)) x)"

definition mem_typed :: "json gomap \<Rightarrow> Workflow" where
  "mem_typed x =
     \<lparr>Workflow_Name = mem_get_meta ''name'' x, Workflow_Namespace = mem_get_meta ''namespace'' x,
      Workflow_DeletionTimestamp = None, Workflow_Phase = WorkflowUnknown, Workflow_Message = [],
      Workflow_Controller = None\<rparr>"

definition mem_create :: "string \<Rightarrow> Workflow \<Rightarrow> mem \<Rightarrow> goerr option \<times> mem" where
  "mem_create ns f w =
     (case mem_wf_get ns (Workflow_Name f) w of
        Inr _ \<Rightarrow> (Some (GoErr ReasonAlreadyExists ''already exists''), w)
      | Inl _ \<Rightarrow> (None, w\<lparr>mem_workflows := mem_workflows w @ [f]\<rparr>))"

text \<open>The documents in memory: the empty string is an empty object, any other an object with a spec.\<close>

definition mem_lib :: "(mem, Workflow) wf_lib" where
  "mem_lib =
     \<lparr>yaml_Unmarshal = (\<lambda>t _. Inr (if t = [] then [] else [(''spec'', JObj [])])),
      GroupVersionKind_of = mem_get_kind,
      NestedMap_found = (\<lambda>x p. Ret (\<exists>y. path_get x p = Inr (Some y))),
      NestedSlice = (\<lambda>x p. Ret (case path_get x p of Inr (Some (JList l)) \<Rightarrow> Some l | _ \<Rightarrow> None)),
      yaml_Marshal = (\<lambda>_. Inr []), json_Marshal = (\<lambda>x. Inr (if x = [] then [] else ''spec'')),
      un_MarshalJSON = (\<lambda>_. Inr []),
      UnmarshalJSON = (\<lambda>t. Inr (if t = [] then [] else [(''spec'', JObj [])])),
      fmt_Unstructured = (\<lambda>_. []), SetGroupVersionKind = mem_set_kind,
      un_SetNamespace = (\<lambda>n. mem_set_meta ''namespace'' (JStr n)),
      un_SetName = (\<lambda>n. mem_set_meta ''name'' (JStr n)),
      un_GetNamespace = mem_get_meta ''namespace'', un_GetName = mem_get_meta ''name'',
      un_GetLabels = mem_labels,
      un_SetLabels = (\<lambda>l. mem_set_meta ''labels'' (JObj (map (\<lambda>(k, v). (k, JStr v)) l))),
      NestedFieldNoCopy = path_get,
      NestedString = (\<lambda>x p. map_sum id (map_option str_of) (path_get x p)),
      NestedInt64 = (\<lambda>x p. mem_int (path_get x p)),
      SetNestedField = path_set,
      SetNestedSlice = (\<lambda>x v p. Ret (path_set x (JList v) p)),
      FromUnstructured = (\<lambda>x. Inr (mem_typed x)), json_Unmarshal_wf = (\<lambda>_. Inl (Errorf [])),
      SetControllerReference = (\<lambda>a f. Inr (f\<lparr>Workflow_Controller :=
        Some \<lparr>Owner_Kind = ''Addon'', Owner_Name = GetName a\<rparr>\<rparr>)),
      argo_Create = mem_create, dyn_Delete = (\<lambda>_ ns n w. mem_wf_delete ns n w)\<rparr>"

lemma mem_lib_nested: "nested_law mem_lib"
proof -
  have sel: "SetNestedField mem_lib = path_set" "NestedInt64 mem_lib = (\<lambda>x p. mem_int (path_get x p))"
    "SetNestedSlice mem_lib = (\<lambda>x v p. Ret (path_set x (JList v) p))"
    by (simp_all add: mem_lib_def)
  show ?thesis
    unfolding nested_law_def sel
  proof (intro conjI allI impI)
    fix x :: "json gomap" and v k ks x' k'
    assume "path_set x v (k # ks) = Inr x'" and "k' \<noteq> k"
    then show "map_of x' k' = map_of x k'" using path_set_outside by (auto simp: same_outside_def)
  next
    fix x :: "json gomap" and v k ks x' k'
    assume "Ret (path_set x (JList v) (k # ks)) = Ret (Inr x')" and "k' \<noteq> k"
    then show "map_of x' k' = map_of x k'" using path_set_outside by (auto simp: same_outside_def)
  next
    fix x n p x'
    assume "p \<noteq> [] \<and> path_set x (JInt n) p = Inr x'"
    then show "mem_int (path_get x' p) = Inr (Some n)" 
      using path_set_get [of p x "JInt n" x'] by (simp add: mem_int_def)
  next
    fix x v p q x'
    assume "p \<parallel> q \<and> path_set x v p = Inr x'"
    then show "mem_int (path_get x' q) = mem_int (path_get x q)" 
      using path_set_frame [of p q x v x'] by simp
  next
    fix x y :: "json gomap" and k ks
    assume "map_of x k = map_of y k"
    then show "mem_int (path_get x (k # ks)) = mem_int (path_get y (k # ks))"
      using path_get_local [of x k y ks] by simp
  qed
qed

lemma mem_lib_meta: "meta_read_law mem_lib" "meta_write_law mem_lib" "meta_frame_law mem_lib"
    "kind_law mem_lib"
  by (simp_all add: meta_read_law_def meta_write_law_def meta_frame_law_def kind_law_def mem_lib_def
      mem_get_meta_def mem_set_meta_def mem_meta_def mem_labels_def mem_get_kind_def mem_set_kind_def
      comp_def split_def)

lemma mem_lib_law: "wf_law mem_lib"
  by (simp add: wf_law_def mem_lib_nested mem_lib_meta)

section \<open>The workflow that is built\<close>

lemma parse_object:
  assumes "wf_law U" and "parse U a wt name = Inr x"
  shows "un_GetName U x = name" and "un_GetNamespace U x = GetNamespace a"
    and "GroupVersionKind_of U x = argoGKV"
proof -
  obtain y where x: "x = un_SetName U name (un_SetNamespace U (GetNamespace a) (SetGroupVersionKind U argoGKV y))"
    using assms(2) by (auto simp: parse_def Let_def split: sum.splits option.splits)
  show "un_GetName U x = name" "un_GetNamespace U x = GetNamespace a"
    using assms(1) by (simp_all add: x wf_law_def meta_write_law_def)
  have "map_of x k = map_of (SetGroupVersionKind U argoGKV y) k" if "k \<noteq> ''metadata''" for k
    using assms(1) that by (simp add: x wf_law_def meta_frame_law_def)
  then have "map_of x ''kind'' = map_of (SetGroupVersionKind U argoGKV y) ''kind''"
    "map_of x ''apiVersion'' = map_of (SetGroupVersionKind U argoGKV y) ''apiVersion''" by simp_all
  then show "GroupVersionKind_of U x = argoGKV"
    using assms(1) unfolding wf_law_def kind_law_def by metis
qed

lemma same_outside_spec:
  assumes "wf_law U" and "same_outside ''spec'' x y"
  shows "un_GetName U y = un_GetName U x" and "un_GetNamespace U y = un_GetNamespace U x"
    and "GroupVersionKind_of U y = GroupVersionKind_of U x"
proof -
  have m: "map_of y ''metadata'' = map_of x ''metadata''" "map_of y ''kind'' = map_of x ''kind''"
      "map_of y ''apiVersion'' = map_of x ''apiVersion''"
    using assms(2) by (simp_all add: same_outside_def)
  show "un_GetName U y = un_GetName U x" "un_GetNamespace U y = un_GetNamespace U x"
    using assms(1) m(1) unfolding wf_law_def meta_read_law_def by metis+
  show "GroupVersionKind_of U y = GroupVersionKind_of U x"
    using assms(1) m(2,3) unfolding wf_law_def kind_law_def by metis
qed

lemma same_outside_metadata:
  assumes "wf_law U" and "same_outside ''metadata'' x y"
  shows "GroupVersionKind_of U y = GroupVersionKind_of U x"
    and "NestedInt64 U y (''spec'' # p) = NestedInt64 U x (''spec'' # p)"
proof -
  have m: "map_of y ''spec'' = map_of x ''spec''" "map_of y ''kind'' = map_of x ''kind''"
      "map_of y ''apiVersion'' = map_of x ''apiVersion''"
    using assms(2) by (simp_all add: same_outside_def)
  show "GroupVersionKind_of U y = GroupVersionKind_of U x"
    using assms(1) m(2,3) unfolding wf_law_def kind_law_def by metis
  show "NestedInt64 U y (''spec'' # p) = NestedInt64 U x (''spec'' # p)"
    using assms(1) m(1) unfolding wf_law_def nested_law_def by metis
qed

text \<open>The chain of objects between the parsed template and the one that is submitted.\<close>

lemma buildWorkflow_chain:
  assumes "wf_law U" and "buildWorkflow U \<rho> a wp = Ret (Inr y)"
  obtains x0 x1 x2 where "parse U a (proxy_template wp) (proxy_name wp) = Inr x0"
    and "same_outside ''spec'' x0 x2" and "injectTTLs U x1 = Inr x2"
    and "\<exists>x3. injectActiveDeadlineSeconds U x2 = Inr x3 \<and>
      y = addDefaultLabelsToResource U a (injectInstanceId U x3)"
proof -
  obtain x0 w1 x1 x2 x3 where
    p: "parse U a (proxy_template wp) (proxy_name wp) = Inr x0"
    and g: "configureGlobalWFParameters U \<rho> a x0 = Ret (True, w1)"
    and ar: "configureWorkflowArtifacts U a w1 = Ret (Inr x1)"
    and t: "injectTTLs U x1 = Inr x2" and d: "injectActiveDeadlineSeconds U x2 = Inr x3"
    and y: "y = addDefaultLabelsToResource U a (injectInstanceId U x3)"
    using assms(2)
    by (auto simp: buildWorkflow_def ebind_Inr
        split: sum.splits outcome.splits prod.splits bool.splits)
  have "same_outside ''spec'' x0 x2"
    using global_params_outside [OF assms(1) g] artifacts_outside [OF ar] inject_outside(1) [OF assms(1) t]
    by (blast intro: same_outside_trans)
  with p t d y show thesis using that by blast
qed

text \<open>It has the requested name, in the namespace of the addon.\<close>

lemma built_workflow_names:
  assumes "wf_law U" and "buildWorkflow U \<rho> a wp = Ret (Inr y)"
  shows "un_GetName U y = proxy_name wp" and "un_GetNamespace U y = GetNamespace a"
proof -
  obtain x0 x2 x3 where p: "parse U a (proxy_template wp) (proxy_name wp) = Inr x0"
    and o2: "same_outside ''spec'' x0 x2" and d: "injectActiveDeadlineSeconds U x2 = Inr x3"
    and y: "y = addDefaultLabelsToResource U a (injectInstanceId U x3)"
    using buildWorkflow_chain [OF assms] by metis
  have o3: "same_outside ''spec'' x0 x3"
    by (rule same_outside_trans [OF o2 inject_outside(2) [OF assms(1) d]])
  show "un_GetName U y = proxy_name wp" "un_GetNamespace U y = GetNamespace a"
    using labels_step(3-6) [OF assms(1)] same_outside_spec(1,2) [OF assms(1) o3]
      parse_object(1,2) [OF assms(1) p] by (simp_all add: y)
qed

section \<open>The contract of AddonLifecycle\<close>

text \<open>
  What the addon controller relies on when it installs a workflow: the version cache and
  the updater's mutexes are not touched, and events are only added.
\<close>

locale addon_lifecycle =
  fixes install :: "Addon \<Rightarrow> WorkflowProxy \<Rightarrow> ('w mgr, goerr option) gom"
  assumes keeps_cache: "versionCache (snd (install a wp s)) = versionCache s"
    and keeps_mutexes: "mutexMap (snd (install a wp s)) = mutexMap s"
    and adds_events: "\<exists>es. events (snd (install a wp s)) = events s @ es"
begin

lemma install_frame:
  assumes "install a wp s = (r, s')"
  shows "versionCache s' = versionCache s" and "mutexMap s' = mutexMap s"
    and "\<exists>es. events s' = events s @ es"
  using keeps_cache [of a wp s] keeps_mutexes [of a wp s] adds_events [of a wp s] assms by simp_all

end

lemma submit_frame:
  "versionCache (snd (submit U a x s)) = versionCache s"
  "mutexMap (snd (submit U a x s)) = mutexMap s"
  "\<exists>es. events (snd (submit U a x s)) = events s @ es"
  by (auto simp: submit_def split: sum.split prod.split option.split)

lemma Install_state:
  "snd (workflowLifecycle_Install U \<rho> a wp s) =
     (case buildWorkflow U \<rho> a wp of Ret (Inr x) \<Rightarrow> snd (submit U a x s) | _ \<Rightarrow> s)"
  by (auto simp: workflowLifecycle_Install_def split: outcome.split sum.split prod.split)

interpretation lifecycle: addon_lifecycle "workflowLifecycle_Install U \<rho>" for U \<rho>
  by unfold_locales
    (simp_all add: Install_state submit_frame split: outcome.split sum.split)

section \<open>Properties\<close>


definition sample_proxy :: WorkflowProxy where
  "sample_proxy = NewWorkflowProxy ''a-install-1-wf'' (zero_WorkflowType\<lparr>Template := ''t''\<rparr>) Install"

lemma sample_builds:
  "\<exists>y. buildWorkflow mem_lib rev (zero_Addon ''a'' ''ns'') sample_proxy = Ret (Inr y)"
  by (simp add: buildWorkflow_def parse_def mem_lib_def sample_proxy_def NewWorkflowProxy_def
      configureGlobalWFParameters_def is_nil_def configureWorkflowArtifacts_def
      processWorkflowResources_def processTemplates_def injectTTLs_def mem_int_def ttl_path_def
      injectActiveDeadlineSeconds_def deadline_path_def mem_set_meta_def mem_set_kind_def Let_def)




text \<open>The injected parameters as a map: of two values for one name the later one counts.\<close>

lemma map_of_global_params:
  assumes "rng_ok \<rho>" and "gm_ok (AdditionalConfigs (Params_Context (Spec_Params (Spec a))))"
    and "gm_ok (Params_Data (Spec_Params (Spec a)))"
  shows "map_of (rev (global_params \<rho> a)) =
    [''namespace'' \<mapsto> Params_Namespace (Spec_Params (Spec a))]
    ++ map_of (pkg_fields (Spec_PackageSpec (Spec a)))
    ++ map_of (context_fields (Params_Context (Spec_Params (Spec a))))
    ++ map_of (AdditionalConfigs (Params_Context (Spec_Params (Spec a))))
    ++ map_of (Params_Data (Spec_Params (Spec a)))"
proof -
  have rev: "map_of (rev (gm_range \<rho> m)) = map_of m" if "gm_ok m" for m :: "string gomap"
    using that assms(1) by (simp add: map_of_rev_distinct distinct_gm_range)
  have pkg: "map_of (rev (pkg_fields p)) = map_of (pkg_fields p)" for p
    by (rule map_of_rev_distinct) (simp add: pkg_fields_def)
  have ctx: "map_of (rev (context_fields c)) = map_of (context_fields c)" for c
    by (rule map_of_rev_distinct) (simp add: context_fields_def)
  show ?thesis
    by (simp add: global_params_def Let_def rev pkg ctx assms(2,3))
qed

lemma map_of_addon_params:
  assumes "rng_ok \<rho>" and "gm_ok (AdditionalConfigs (Params_Context (Spec_Params (Spec a))))"
    and "gm_ok (Params_Data (Spec_Params (Spec a)))"
  shows "map_of (GetAllAddonParameters \<rho> a) =
    [''namespace'' \<mapsto> Params_Namespace (Spec_Params (Spec a))]
    ++ map_of (context_fields (Params_Context (Spec_Params (Spec a))))
    ++ map_of (AdditionalConfigs (Params_Context (Spec_Params (Spec a))))
    ++ map_of (Params_Data (Spec_Params (Spec a)))"
proof -
  have rev: "map_of (rev (gm_range \<rho> m)) = map_of m" if "gm_ok m" for m :: "string gomap"
    using that assms(1) by (simp add: map_of_rev_distinct distinct_gm_range)
  show ?thesis
    using assms(2,3)
    by (simp add: GetAllAddonParameters_def Let_def map_of_store_all rev context_fields_def fun_eq_iff
        map_add_def split: option.split)
qed

text \<open>
  The parameters that validation checks are the ones that are injected: every
  parameter of the addon reaches the workflow, with its value as the last of that name,
  and the only other injected names are those of the package fields.
\<close>

lemma injected_parameters:
  assumes "rng_ok \<rho>" and "gm_ok (AdditionalConfigs (Params_Context (Spec_Params (Spec a))))"
    and "gm_ok (Params_Data (Spec_Params (Spec a)))"
  shows "(\<forall>k v. map_of (GetAllAddonParameters \<rho> a) k = Some v \<longrightarrow>
            map_of (rev (global_params \<rho> a)) k = Some v) \<and>
         fst ` set (global_params \<rho> a) = dom (map_of (GetAllAddonParameters \<rho> a)) \<union>
           {''pkgChannel'', ''pkgName'', ''pkgVersion'', ''pkgType'', ''pkgDescription''}"
proof
  show "\<forall>k v. map_of (GetAllAddonParameters \<rho> a) k = Some v \<longrightarrow>
      map_of (rev (global_params \<rho> a)) k = Some v"
    unfolding map_of_addon_params [OF assms] map_of_global_params [OF assms]
    by (auto simp: map_add_def pkg_fields_def split: option.splits if_splits)
  have "fst ` set (global_params \<rho> a) = dom (map_of (rev (global_params \<rho> a)))"
    by (simp add: dom_map_of_conv_image_fst)
  also have "\<dots> = dom (map_of (GetAllAddonParameters \<rho> a)) \<union>
      {''pkgChannel'', ''pkgName'', ''pkgVersion'', ''pkgType'', ''pkgDescription''}"
    unfolding map_of_addon_params [OF assms] map_of_global_params [OF assms]
    by (auto simp: pkg_fields_def)
  finally show "fst ` set (global_params \<rho> a) = dom (map_of (GetAllAddonParameters \<rho> a)) \<union>
      {''pkgChannel'', ''pkgName'', ''pkgVersion'', ''pkgType'', ''pkgDescription''}" .
qed

text \<open>
  Validation does not look at the package fields: a template with a parameter named as
  one of them passes the overlap check of an addon that does not use that name itself,
  although the manager injects a second parameter of the same name.
\<close>

lemma package_parameters_unchecked:
  assumes "map_of (GetAllAddonParameters \<rho> a) ''pkgName'' = None"
  shows "check_wf_params a step (GetAllAddonParameters \<rho> a) [param ''pkgName'' v] = Ret None \<and>
    ''pkgName'' \<in> fst ` set (global_params \<rho> a)"
  using assms by (simp add: param_def global_params_def pkg_fields_def Let_def)

end
