(* ===== verification/Observe.thy ===== *)
theory Observe
  imports Kube_API
begin

text \<open>
  The observers of \<^verbatim>\<open>controllers/objects.go\<close>: each lists the objects of one kind that match a
  selector and turns them into entries of the addon's status. The locale \<open>observer\<close> is the
  contract they share: what is listed, in which namespace, which of the objects are kept
  and how they are named; it is interpreted on each of them.
\<close>

section \<open>Operations\<close>

definition object_status :: "string \<Rightarrow> string \<Rightarrow> kobject \<Rightarrow> ObjectStatus" where
  "object_status kind grp x =
     \<lparr>Object_Link = KObject_SelfLink x, Object_Name = KObject_Name x, Object_Kind = kind,
      Object_Group = grp, Object_Status = []\<rparr>"

definition ObserveService :: "'w kube \<Rightarrow> string \<Rightarrow> selector \<Rightarrow> 'w \<Rightarrow> goerr + ObjectStatus list" where
  "ObserveService K namespace selector w =
     (case kube_List K KService (Some namespace) selector w of
        Inl err \<Rightarrow> Inl (Errorf (''failed to list services '' @ Error err))
      | Inr items \<Rightarrow> Inr (map (object_status ''Service'' []) (filter (\<lambda>service. KObject_Namespace service = namespace) items)))"

definition ObserveJob :: "'w kube \<Rightarrow> string \<Rightarrow> selector \<Rightarrow> 'w \<Rightarrow> goerr + ObjectStatus list" where
  "ObserveJob K namespace selector w =
     (case kube_List K KJob (Some namespace) selector w of
        Inl err \<Rightarrow> Inl (Errorf (''failed to list cronjobs '' @ Error err))
      | Inr items \<Rightarrow> Inr (map (object_status ''Job'' ''batch/v1'') items))"

definition ObserveCronJob :: "'w kube \<Rightarrow> string \<Rightarrow> selector \<Rightarrow> 'w \<Rightarrow> goerr + ObjectStatus list" where
  "ObserveCronJob K namespace selector w =
     (case kube_List K KCronJob (Some namespace) selector w of
        Inl err \<Rightarrow> Inl (Errorf (''failed to list cronjobs '' @ Error err))
      | Inr items \<Rightarrow> Inr (map (object_status ''CronJob'' ''batch/v1'') items))"

definition ObserveDeployment :: "'w kube \<Rightarrow> string \<Rightarrow> selector \<Rightarrow> 'w \<Rightarrow> goerr + ObjectStatus list" where
  "ObserveDeployment K namespace selector w =
     (case kube_List K KDeployment None selector w of
        Inl err \<Rightarrow> Inl err
      | Inr items \<Rightarrow> Inr (map (object_status ''Deployment'' ''apps/v1'') items))"

definition ObserveDaemonSet :: "'w kube \<Rightarrow> string \<Rightarrow> selector \<Rightarrow> 'w \<Rightarrow> goerr + ObjectStatus list" where
  "ObserveDaemonSet K namespace selector w =
     (case kube_List K KDaemonSet None selector w of
        Inl err \<Rightarrow> Inl err
      | Inr items \<Rightarrow> Inr (map (object_status ''DaemonSet'' ''apps/v1'') items))"

definition ObserveReplicaSet :: "'w kube \<Rightarrow> string \<Rightarrow> selector \<Rightarrow> 'w \<Rightarrow> goerr + ObjectStatus list" where
  "ObserveReplicaSet K namespace selector w =
     (case kube_List K KReplicaSet None selector w of
        Inl err \<Rightarrow> Inl err
      | Inr items \<Rightarrow> Inr (map (object_status ''ReplicaSe'' ''apps/v1'') items))"

definition ObserveStatefulSet :: "'w kube \<Rightarrow> string \<Rightarrow> selector \<Rightarrow> 'w \<Rightarrow> goerr + ObjectStatus list" where
  "ObserveStatefulSet K name selector w =
     (case kube_List K KStatefulSet None selector w of
        Inl err \<Rightarrow> Inl err
      | Inr items \<Rightarrow> Inr (map (object_status ''StatefulSet'' ''apps/v1'') items))"

definition ObserveNamespace :: "'w kube \<Rightarrow> string \<Rightarrow> selector \<Rightarrow> 'w \<Rightarrow> goerr + ObjectStatus list" where
  "ObserveNamespace K name selector w =
     (case kube_List K KNamespace None selector w of
        Inl err \<Rightarrow> Inl err
      | Inr items \<Rightarrow> Inr (map (object_status ''Namespace'' []) (filter (\<lambda>namespace. KObject_Name namespace = name) items)))"

section \<open>The contract of an observer\<close>

locale observer =
  fixes observe :: "'w kube \<Rightarrow> string \<Rightarrow> selector \<Rightarrow> 'w \<Rightarrow> goerr + ObjectStatus list"
    and resource :: kkind
    and scope :: "string \<Rightarrow> string option"
    and keep :: "string \<Rightarrow> kobject \<Rightarrow> bool"
    and kind :: string
    and grp :: string
  assumes observe_ok: "kube_List K resource (scope ns) sel w = Inr items \<Longrightarrow>
      observe K ns sel w = Inr (map (object_status kind grp) (filter (keep ns) items))"
    and observe_err: "kube_List K resource (scope ns) sel w = Inl e \<Longrightarrow> \<exists>e'. observe K ns sel w = Inl e'"
begin

lemma observe_Inr_iff:
  "observe K ns sel w = Inr res \<longleftrightarrow>
     (\<exists>items. kube_List K resource (scope ns) sel w = Inr items \<and>
        res = map (object_status kind grp) (filter (keep ns) items))"
  using observe_ok [of K ns sel w] observe_err [of K ns sel w]
  by (cases "kube_List K resource (scope ns) sel w") auto

lemma observed_listed:
  assumes "observe K ns sel w = Inr res" and "o1 \<in> set res"
  shows "\<exists>items x. kube_List K resource (scope ns) sel w = Inr items \<and> x \<in> set items \<and> keep ns x \<and>
    o1 = object_status kind grp x"
  using assms by (auto simp: observe_Inr_iff)

lemma observed_named:
  assumes "observe K ns sel w = Inr res" and "o1 \<in> set res"
  shows "\<exists>items x. kube_List K resource (scope ns) sel w = Inr items \<and> x \<in> set items \<and>
    Object_Name o1 = KObject_Name x"
  using observed_listed [OF assms] by (auto simp: object_status_def)

lemma observe_fails_iff:
  "(\<exists>e. observe K ns sel w = Inl e) \<longleftrightarrow> (\<exists>e. kube_List K resource (scope ns) sel w = Inl e)"
  using observe_ok [of K ns sel w] observe_err [of K ns sel w]
  by (cases "kube_List K resource (scope ns) sel w") auto

end

interpretation service: observer ObserveService KService Some
  "\<lambda>ns x. KObject_Namespace x = ns" "''Service''" "[]"
  by unfold_locales (simp_all add: ObserveService_def)

interpretation job: observer ObserveJob KJob Some
  "\<lambda>_ _. True" "''Job''" "''batch/v1''"
  by unfold_locales (simp_all add: ObserveJob_def)

interpretation cronjob: observer ObserveCronJob KCronJob Some
  "\<lambda>_ _. True" "''CronJob''" "''batch/v1''"
  by unfold_locales (simp_all add: ObserveCronJob_def)

interpretation deployment: observer ObserveDeployment KDeployment "\<lambda>_. None"
  "\<lambda>_ _. True" "''Deployment''" "''apps/v1''"
  by unfold_locales (simp_all add: ObserveDeployment_def)

interpretation daemonset: observer ObserveDaemonSet KDaemonSet "\<lambda>_. None"
  "\<lambda>_ _. True" "''DaemonSet''" "''apps/v1''"
  by unfold_locales (simp_all add: ObserveDaemonSet_def)

interpretation replicaset: observer ObserveReplicaSet KReplicaSet "\<lambda>_. None"
  "\<lambda>_ _. True" "''ReplicaSe''" "''apps/v1''"
  by unfold_locales (simp_all add: ObserveReplicaSet_def)

interpretation statefulset: observer ObserveStatefulSet KStatefulSet "\<lambda>_. None"
  "\<lambda>_ _. True" "''StatefulSet''" "''apps/v1''"
  by unfold_locales (simp_all add: ObserveStatefulSet_def)

interpretation namespaces: observer ObserveNamespace KNamespace "\<lambda>_. None"
  "\<lambda>name x. KObject_Name x = name" "''Namespace''" "[]"
  by unfold_locales (simp_all add: ObserveNamespace_def)

end
