(* ===== verification/Addon_Controller.thy ===== *)
theory Addon_Controller
  imports Addon_Updater Workflow_Lifecycle Observe
begin

text \<open>
  The addon controller of \<^verbatim>\<open>controllers/addon_controller.go\<close>: one reconciliation of an addon.
  Its state is the manager's state and the addon instance in memory that all its methods
  share through one pointer (\<open>inst\<close>). A method that may panic is a \<open>gom\<close> computation; the
  clock of a reconciliation is the argument \<open>now\<close>, read at most once on every path.
  Durations to requeue after are in seconds.

  The lemmas follow one reconciliation: what each path does to the instance's phases,
  which workflows it may submit, when the finalizer goes, that a panic is swallowed, and
  that the manager's invariant survives.
\<close>

section \<open>State and environment\<close>

record 'w ctl =
  mgr_of :: "'w mgr"
  inst :: Addon

record Result =
  Result_Requeue :: bool
  Result_RequeueAfter :: int

definition zero_Result :: Result where
  "zero_Result = \<lparr>Result_Requeue = False, Result_RequeueAfter = 0\<rparr>"

text \<open>The interface \<open>AddonLifecycle\<close>, of which the controller calls \<open>Install\<close>.\<close>

type_synonym 'w lifecycle = "Addon \<Rightarrow> WorkflowProxy \<Rightarrow> ('w mgr, goerr option) gom"

definition on_mgr :: "('w mgr, 'a) gom \<Rightarrow> ('w ctl, 'a) gom" where
  "on_mgr m = (\<lambda>s. case m (mgr_of s) of (r, t) \<Rightarrow> (r, s\<lparr>mgr_of := t\<rparr>))"

definition on_inst :: "(Addon \<Rightarrow> Addon) \<Rightarrow> ('w ctl, unit) gom" where
  "on_inst f = gmodify (\<lambda>s. s\<lparr>inst := f (inst s)\<rparr>)"

definition emit :: "string \<Rightarrow> string \<Rightarrow> string \<Rightarrow> ('w ctl, unit) gom" where
  "emit ty rs msg = gmodify (\<lambda>s. s\<lparr>mgr_of := record_event ty rs msg (mgr_of s)\<rparr>)"

definition ret_mgr :: "('w mgr \<Rightarrow> 'a \<times> 'w mgr) \<Rightarrow> ('w mgr, 'a) gom" where
  "ret_mgr f = (\<lambda>t. case f t of (r, t') \<Rightarrow> (Ret r, t'))"

definition addon_ref :: "Addon \<Rightarrow> string" where
  "addon_ref a = GetNamespace a @ ''/'' @ GetName a"

section \<open>Workflows\<close>

definition set_step :: "LifecycleStep \<Rightarrow> ApplicationAssemblyPhase \<Rightarrow> Addon \<Rightarrow> Addon" where
  "set_step step phase a = snd (SetStatusByLifecyleStep step phase [] a)"

definition step_completed :: "LifecycleStep \<Rightarrow> Addon \<Rightarrow> bool" where
  "step_completed lifecycleStep a \<longleftrightarrow>
     (lifecycleStep = Prereqs \<and> phase_Completed (GetPrereqStatus a)) \<or>
     (lifecycleStep = Install \<and> phase_Completed (GetInstallStatus a)) \<or>
     (lifecycleStep = Delete \<and>
        (Status_Installed (Status_Lifecycle (Status a)) = DeleteFailed \<or>
         Status_Installed (Status_Lifecycle (Status a)) = DeleteSucceeded))"

text \<open>The end of \<open>runWorkflow\<close>: the phase of the submitted workflow is read back.\<close>

definition syncPhase :: "'w kube \<Rightarrow> LifecycleStep \<Rightarrow> string \<Rightarrow> ('w ctl, goerr option) gom" where
  "syncPhase K lifecycleStep wfIdentifierName = (\<lambda>s.
     case argo_Get K (GetNamespace (inst s)) wfIdentifierName (world (mgr_of s)) of
       Inl _ \<Rightarrow> (Ret None, s)
     | Inr found \<Rightarrow>
         (let phase = ConvertWorkflowPhaseToAddonPhase lifecycleStep (Workflow_Phase found)
          in if phase \<noteq> [] then (Ret None, s\<lparr>inst := set_step lifecycleStep phase (inst s)\<rparr>)
             else (Ret None, s)))"

definition runWorkflow ::
    "'w kube \<Rightarrow> 'w lifecycle \<Rightarrow> LifecycleStep \<Rightarrow> ('w ctl, goerr option) gom" where
  "runWorkflow K wfl lifecycleStep = (\<lambda>s.
     let addon = inst s
     in if step_completed lifecycleStep addon then (Ret None, s)
        else case GetWorkflowType addon lifecycleStep of
          Inl err \<Rightarrow> (Ret (Some err), s\<lparr>inst := set_step lifecycleStep Failed addon\<rparr>)
        | Inr wt \<Rightarrow>
            if Template wt = []
            then (Ret None, s\<lparr>inst := set_step lifecycleStep Succeeded addon\<rparr>)
            else
              (let wfIdentifierName = GetFormattedWorkflowName addon lifecycleStep
               in if wfIdentifierName = []
                  then (Ret (Some (Errorf ''could not generate workflow template name'')),
                        s\<lparr>inst := set_step lifecycleStep Failed addon\<rparr>)
                  else
                    gbind (on_mgr (wfl addon (NewWorkflowProxy wfIdentifierName wt lifecycleStep)))
                      (\<lambda>r. case r of
                         Some err \<Rightarrow>
                           gbind (on_inst (set_step lifecycleStep Failed)) (\<lambda>_. gret (Some err))
                       | None \<Rightarrow>
                           gbind (emit ''Normal'' ''Submitted''
                               (''Submitted '' @ Title lifecycleStep @ '' workflow ''
                                @ GetNamespace addon @ ''/'' @ wfIdentifierName @ ''.''))
                             (\<lambda>_. syncPhase K lifecycleStep wfIdentifierName)) s))"

section \<open>Secrets\<close>

definition secret_name :: "json gomap \<Rightarrow> string outcome" where
  "secret_name content =
     (case map_of content ''metadata'' of
        Some (JObj md) \<Rightarrow>
          (case map_of md ''name'' of
             Some (JStr n) \<Rightarrow> Ret n
           | _ \<Rightarrow> Panic ''interface conversion'')
      | _ \<Rightarrow> Panic ''interface conversion'')"

fun secret_names :: "json gomap list \<Rightarrow> string list outcome" where
  "secret_names [] = Ret []"
| "secret_names (x # xs) =
     (case secret_name x of
        Panic p \<Rightarrow> Panic p
      | Ret n \<Rightarrow> (case secret_names xs of Panic p \<Rightarrow> Panic p | Ret ns \<Rightarrow> Ret (n # ns)))"

definition validateSecrets :: "'w kube \<Rightarrow> Addon \<Rightarrow> 'w \<Rightarrow> goerr option outcome" where
  "validateSecrets K a w =
     (let ns = Params_Namespace (Spec_Params (Spec a))
      in case dyn_ListSecrets K ns w of
           Inl err \<Rightarrow> Ret (Some err)
         | Inr items \<Rightarrow>
             (case secret_names items of
                Panic p \<Rightarrow> Panic p
              | Ret secretsList \<Rightarrow>
                  (case List.find (\<lambda>secret. Secret_Name secret \<notin> set secretsList) (Spec_Secrets (Spec a)) of
                     None \<Rightarrow> Ret None
                   | Some secret \<Rightarrow>
                       Ret (Some (Errorf (''addon '' @ GetName a @ '' needs secret '' @ [CHR 0x22]
                         @ Secret_Name secret @ [CHR 0x22] @ '' that was not found in namespace '' @ ns))))))"

section \<open>Prereqs and install\<close>

definition executePrereqAndInstall ::
    "'w kube \<Rightarrow> 'w lifecycle \<Rightarrow> ('w ctl, goerr option) gom" where
  "executePrereqAndInstall K wfl =
     gbind (runWorkflow K wfl Prereqs) (\<lambda>r.
       case r of
         Some err \<Rightarrow> (\<lambda>s. gbind (emit ''Warning'' ''Failed''
             (''Addon '' @ addon_ref (inst s) @ '' prereqs failed. '' @ Error err))
             (\<lambda>_. gret (Some err)) s)
       | None \<Rightarrow> (\<lambda>s.
           if phase_Succeeded (Status_Prereqs (Status_Lifecycle (Status (inst s)))) then
             (case validateSecrets K (inst s) (world (mgr_of s)) of
                Panic p \<Rightarrow> gpanic p s
              | Ret (Some err) \<Rightarrow>
                  (let reason = ''Addon '' @ addon_ref (inst s) @ '' could not validate secrets. '' @ Error err
                   in gbind (emit ''Warning'' ''Failed'' reason)
                        (\<lambda>_. gbind (on_inst (SetInstallStatus Failed [reason])) (\<lambda>_. gret (Some err))) s)
              | Ret None \<Rightarrow>
                  gbind (runWorkflow K wfl Install) (\<lambda>r.
                    case r of
                      Some err \<Rightarrow> (\<lambda>s. gbind (emit ''Warning'' ''Failed''
                          (''Addon '' @ addon_ref (inst s) @ '' could not be installed due to error. '' @ Error err))
                          (\<lambda>_. gret (Some err)) s)
                    | None \<Rightarrow> gret None) s)
           else if phase_Failed (Status_Prereqs (Status_Lifecycle (Status (inst s)))) then
             gbind (on_inst (SetInstallStatus Failed [])) (\<lambda>_. gret None) s
           else (Ret None, s)))"

section \<open>Resources\<close>

text \<open>
  \<open>labelSelector\<close> is a copy of the selector struct, but its map is the map of the spec
  unless that is empty: then the two labels are stored in the instance's spec, too.
\<close>

definition managed_labels :: "Addon \<Rightarrow> string gomap \<Rightarrow> string gomap" where
  "managed_labels a m =
     AList.update ''app.kubernetes.io/name'' (GetName a)
       (AList.update ''app.kubernetes.io/managed-by'' (GVR_Group AddonGVR) m)"

definition observe_selector :: "Addon \<Rightarrow> LabelSelector" where
  "observe_selector a =
     (Spec_Selector (Spec a))\<lparr>MatchLabels := managed_labels a (MatchLabels (Spec_Selector (Spec a)))\<rparr>"

definition share_labels :: "Addon \<Rightarrow> Addon" where
  "share_labels a =
     (if MatchLabels (Spec_Selector (Spec a)) = [] then a
      else Spec_update (Spec_Selector_update (\<lambda>_. observe_selector a)) a)"

definition observers ::
    "(string \<times> ('w kube \<Rightarrow> string \<Rightarrow> selector \<Rightarrow> 'w \<Rightarrow> goerr + ObjectStatus list)) list" where
  "observers =
     [(''service'', ObserveService), (''job'', ObserveJob), (''cronjob'', ObserveCronJob),
      (''StatefulSet'', ObserveStatefulSet), (''Deployment'', ObserveDeployment),
      (''DaemonSet'', ObserveDaemonSet), (''ReplicaSet'', ObserveReplicaSet)]"

fun observe_all ::
    "'w kube \<Rightarrow> Addon \<Rightarrow> selector \<Rightarrow> 'w \<Rightarrow>
     (string \<times> ('w kube \<Rightarrow> string \<Rightarrow> selector \<Rightarrow> 'w \<Rightarrow> goerr + ObjectStatus list)) list \<Rightarrow>
     ObjectStatus list \<times> goerr list" where
  "observe_all K a selector w [] = ([], [])"
| "observe_all K a selector w ((name, observe) # rest) =
     (case observe_all K a selector w rest of
        (observed, errs) \<Rightarrow>
          (case observe K (GetNamespace a) selector w of
             Inr res \<Rightarrow> (res @ observed, errs)
           | Inl err \<Rightarrow>
               (observed,
                Wrapf (''failed to observe resource '' @ name @ '' for addon '' @ addon_ref a @ '': '') err
                  # errs)))"

definition observeResources ::
    "'w kube \<Rightarrow> Addon \<Rightarrow> 'w \<Rightarrow> ObjectStatus list \<times> goerr option" where
  "observeResources K a w =
     (case LabelSelectorAsSelector K (observe_selector a) of
        Inl err \<Rightarrow> ([], Some (Errorf (''label selector is invalid. '' @ Error err)))
      | Inr selector \<Rightarrow>
          (case observe_all K a selector w observers of
             (observed, errs) \<Rightarrow>
               (observed,
                if errs \<noteq> [] then Some (Errorf (''observed err '' @ fmt_slice Error errs)) else None)))"

section \<open>Checksum and old workflows\<close>

definition validateChecksum :: "Addon \<Rightarrow> bool \<times> string" where
  "validateChecksum a =
     (let newCheckSum = CalculateChecksum a
      in if Checksum (Status a) = newCheckSum then (False, newCheckSum) else (True, newCheckSum))"

fun delete_workflows :: "'w kube \<Rightarrow> string \<Rightarrow> Workflow list \<Rightarrow> 'w \<Rightarrow> 'w" where
  "delete_workflows K ns [] w = w"
| "delete_workflows K ns (workflow # rest) w =
     delete_workflows K ns rest (snd (argo_Delete K ns (Workflow_Name workflow) w))"

definition deleteOldWorkflows :: "'w kube \<Rightarrow> Addon \<Rightarrow> 'w mgr \<Rightarrow> goerr option \<times> 'w mgr" where
  "deleteOldWorkflows K a t =
     (case LabelSelectorAsSelector K
         \<lparr>MatchLabels = [(ResourceDefaultOwnLabel, GetName a)], MatchExpressions = []\<rparr> of
        Inl err \<Rightarrow> (Some err, t)
      | Inr selector \<Rightarrow>
          (case argo_List K (GetNamespace a) selector (world t) of
             Inl err \<Rightarrow> (Some err, t)
           | Inr items \<Rightarrow>
               (None, t\<lparr>world := delete_workflows K (GetNamespace a) items (world t)\<rparr>)))"

section \<open>Finalizers\<close>

text \<open>A successful \<open>r.Update\<close> replaces the instance by the server's answer.\<close>

definition kube_update_inst :: "'w kube \<Rightarrow> ('w ctl, goerr option) gom" where
  "kube_update_inst K = (\<lambda>s.
     case kube_Update K (inst s) (world (mgr_of s)) of
       (Inl err, w) \<Rightarrow> (Ret (Some err), s\<lparr>mgr_of := (mgr_of s)\<lparr>world := w\<rparr>\<rparr>)
     | (Inr a, w) \<Rightarrow> (Ret None, s\<lparr>mgr_of := (mgr_of s)\<lparr>world := w\<rparr>, inst := a\<rparr>))"

definition SetFinalizer :: "'w kube \<Rightarrow> string \<Rightarrow> ('w ctl, goerr option) gom" where
  "SetFinalizer K finalizerName = (\<lambda>s.
     if DeletionTimestamp (Addon_Meta (inst s)) = None \<and> \<not> ContainsFinalizer K (inst s) finalizerName
     then gbind (on_inst (AddFinalizer K finalizerName)) (\<lambda>_. kube_update_inst K) s
     else (Ret None, s))"

text \<open>The part of \<open>Finalize\<close> after the delete workflow.\<close>

definition dropFinalizer :: "'w kube \<Rightarrow> string \<Rightarrow> bool \<Rightarrow> ('w ctl, goerr option) gom" where
  "dropFinalizer K finalizerName removeFinalizer =
     gbind (gmodify (\<lambda>s. s\<lparr>mgr_of := (mgr_of s)\<lparr>versionCache :=
         RemoveVersion (PkgName (Spec_PackageSpec (Spec (inst s))))
           (PkgVersion (Spec_PackageSpec (Spec (inst s)))) (versionCache (mgr_of s))\<rparr>\<rparr>))
       (\<lambda>_. if removeFinalizer then
              gbind (on_inst (RemoveFinalizer K finalizerName)) (\<lambda>_.
                gbind (kube_update_inst K) (\<lambda>r.
                  case r of
                    None \<Rightarrow> gret None
                  | Some err \<Rightarrow> (\<lambda>s.
                      gbind (on_inst (SetInstallStatus DeleteFailed
                          [''Addon '' @ addon_ref (inst s) @ '' could not be deleted, '' @ Error err]))
                        (\<lambda>_. gret (Some err)) s)))
            else gret None)"

definition Finalize :: "'w kube \<Rightarrow> 'w lifecycle \<Rightarrow> string \<Rightarrow> ('w ctl, goerr option) gom" where
  "Finalize K wfl finalizerName = (\<lambda>s.
     if Template (Lifecycle_Delete (Spec_Lifecycle (Spec (inst s)))) \<noteq> [] then
       gbind (runWorkflow K wfl Delete) (\<lambda>r.
         case r of
           Some err \<Rightarrow> gret (Some err)
         | None \<Rightarrow> (\<lambda>s.
             dropFinalizer K finalizerName (phase_Succeeded (GetInstallStatus (inst s))) s)) s
     else dropFinalizer K finalizerName True s)"

section \<open>Processing\<close>

text \<open>What the controller is given besides the client: libraries, iteration order, clock.\<close>

record ('w, 'f, 'c, 'sv) env =
  env_kube :: "'w kube"
  env_lib :: "('w, 'f) wf_lib"
  env_semver :: "('c, 'sv) semver_lib"
  env_order :: order
  now :: int64

definition error_text :: "goerr option \<Rightarrow> string" where
  "error_text e = (case e of None \<Rightarrow> ''<nil>'' | Some err \<Rightarrow> Error err)"

text \<open>The branch for an addon that is not valid, by the prefix of the error.\<close>

definition rejectAddon :: "goerr option \<Rightarrow> ('w ctl, Result \<times> goerr option) gom" where
  "rejectAddon err = (\<lambda>s.
     if err \<noteq> None \<and> HasPrefix (error_text err) ErrDepPending then
       (let reason = ''Addon '' @ addon_ref (inst s) @ '' is waiting on dependencies to be out of Pending state.''
        in gbind (emit ''Normal'' ''Pending'' reason) (\<lambda>_.
             gbind (on_inst (SetInstallStatus Pending [reason])) (\<lambda>_.
               gret (\<lparr>Result_Requeue = True, Result_RequeueAfter = 10\<rparr>, None))) s)
     else if err \<noteq> None \<and> HasPrefix (error_text err) ErrDepNotInstalled then
       (let reason = ''Addon '' @ addon_ref (inst s) @ '' is waiting on dependencies to be installed. ''
              @ error_text err
        in gbind (emit ''Normal'' ''Failed'' reason) (\<lambda>_.
             gbind (on_inst (SetInstallStatus ValidationFailed [reason])) (\<lambda>_.
               gret (\<lparr>Result_Requeue = True, Result_RequeueAfter = 30\<rparr>, None))) s)
     else
       (let reason = ''Addon '' @ addon_ref (inst s) @ '' is not valid. '' @ error_text err
        in gbind (emit ''Warning'' ''Failed'' reason) (\<lambda>_.
             gbind (on_inst (SetInstallStatus ValidationFailed [reason])) (\<lambda>_.
               gret (zero_Result, err))) s))"

text \<open>The branch for a changed checksum.\<close>

definition restartAddon :: "'w kube \<Rightarrow> int64 \<Rightarrow> ('w ctl, Result \<times> goerr option) gom" where
  "restartAddon K t = (\<lambda>s.
     gbind (on_mgr (ret_mgr (deleteOldWorkflows K (inst s)))) (\<lambda>r.
       case r of
         Some err \<Rightarrow> gret (zero_Result, Some err)
       | None \<Rightarrow>
           gbind (on_inst (\<lambda>a. snd (SetPrereqAndInstallStatuses Pending []
               (ClearStatus (Status_update (StartTime_update (\<lambda>_. t)) a)))))
             (\<lambda>_. gret (\<lparr>Result_Requeue = True, Result_RequeueAfter = 0\<rparr>, None))) s)"

text \<open>The end of \<open>processAddon\<close>, after the workflows.\<close>

definition observeAddon :: "'w kube \<Rightarrow> ('w ctl, Result \<times> goerr option) gom" where
  "observeAddon K = (\<lambda>s.
     case observeResources K (inst s) (world (mgr_of s)) of
       (observed, err) \<Rightarrow>
         gbind (on_inst share_labels) (\<lambda>_.
           case err of
             Some e \<Rightarrow> (\<lambda>s.
               let reason = ''Addon '' @ addon_ref (inst s) @ '' failed to find deployed resources. '' @ Error e
               in gbind (emit ''Warning'' ''Failed'' reason) (\<lambda>_.
                    gbind (on_inst (SetInstallStatus Failed [reason])) (\<lambda>_.
                      gret (zero_Result, Some e))) s)
           | None \<Rightarrow>
               gbind (if 0 < length observed
                      then on_inst (Status_update (Resources_update (\<lambda>_. observed))) else gret ())
                 (\<lambda>_ s. if phase_Running (GetInstallStatus (inst s))
                        then (Ret (\<lparr>Result_Requeue = False, Result_RequeueAfter = 30\<rparr>, None), s)
                        else (Ret (zero_Result, None), s))) s)"

text \<open>The part of \<open>processAddon\<close> after a successful validation and with the finalizer set.\<close>

definition installAddon ::
    "'w kube \<Rightarrow> 'w lifecycle \<Rightarrow> int64 \<Rightarrow> ('w ctl, Result \<times> goerr option) gom" where
  "installAddon K wfl t = (\<lambda>s.
     if \<not> phase_Completed (Status_Installed (Status_Lifecycle (Status (inst s)))) then
       if IsExpired t (StartTime (Status (inst s))) TTL_Milliseconds then
         (let reason = ''Addon '' @ addon_ref (inst s) @ '' ttl expired, starttime exceeded '' @ TTL_String;
              err = Errorf (''ttl expired for addon '' @ addon_ref (inst s) @ '': '' @ reason)
          in gbind (emit ''Warning'' ''Failed'' reason) (\<lambda>_.
               gbind (on_inst (SetInstallStatus Failed [reason])) (\<lambda>_.
                 gret (zero_Result, Some err))) s)
       else
         gbind (executePrereqAndInstall K wfl) (\<lambda>r.
           case r of Some err \<Rightarrow> gret (zero_Result, Some err) | None \<Rightarrow> observeAddon K) s
     else observeAddon K s)"

definition processAddon ::
    "('w, 'f, 'c, 'sv) env \<Rightarrow> 'w lifecycle \<Rightarrow> ('w ctl, Result \<times> goerr option) gom" where
  "processAddon E wfl = (\<lambda>s0.
     let K = env_kube E; (changedStatus, checksum) = validateChecksum (inst s0);
         s = s0\<lparr>inst := Status_update (\<lambda>st. st\<lparr>Checksum := checksum, Resources := []\<rparr>) (inst s0)\<rparr>
     in if changedStatus then restartAddon K (now E) s
        else if phase_Completed (Status_Installed (Status_Lifecycle (Status (inst s))))
        then (Ret (zero_Result, None), s)
        else
          (case addonValidator_Validate (template_lib.truncate (env_lib E)) (env_order E) (env_semver E)
              (versionCache (mgr_of s)) (inst s) of
             Panic p \<Rightarrow> (Panic p, s)
           | Ret (ok, err) \<Rightarrow>
               if \<not> ok then rejectAddon err s
               else
                 gbind (emit ''Normal'' ''Completed'' (''Addon '' @ addon_ref (inst s) @ '' is valid.''))
                   (\<lambda>_. gbind (SetFinalizer K FinalizerName) (\<lambda>r.
                     case r of
                       Some e \<Rightarrow> (\<lambda>s.
                         gbind (emit ''Warning'' ''Failed''
                             (''Addon '' @ addon_ref (inst s) @ '' could not add finalizer. '' @ Error e))
                           (\<lambda>_. gret (\<lparr>Result_Requeue = True, Result_RequeueAfter = 0\<rparr>, Some e)) s)
                     | None \<Rightarrow> installAddon K wfl (now E))) s))"

section \<open>Reconciliation\<close>

text \<open>The branch of \<open>execAddon\<close> for an addon that is being deleted.\<close>

definition deleteAddon :: "'w kube \<Rightarrow> 'w lifecycle \<Rightarrow> ('w ctl, Result \<times> goerr option) gom" where
  "deleteAddon K wfl = (\<lambda>s.
     if \<not> phase_Deleting (GetInstallStatus (inst s)) then
       gbind (on_inst (SetInstallStatus Deleting [])) (\<lambda>_ s.
         gbind (on_mgr (ret_mgr (UpdateStatus K (inst s)))) (\<lambda>err. gret (zero_Result, err)) s) s
     else
       gbind (Finalize K wfl FinalizerName) (\<lambda>r.
         case r of
           Some err \<Rightarrow> (\<lambda>s.
             gbind (emit ''Warning'' ''Failed''
                 (''Addon '' @ addon_ref (inst s) @ '' could not be finalized. '' @ Error err))
               (\<lambda>_. gret (zero_Result, Some err)) s)
         | None \<Rightarrow> gret (zero_Result, None)) s)"

definition execAddon :: "('w, 'f, 'c, 'sv) env \<Rightarrow> ('w ctl, Result \<times> goerr option) gom" where
  "execAddon E =
     (let K = env_kube E; wfl = workflowLifecycle_Install (env_lib E) (env_order E)
      in grecover (zero_Result, None) (\<lambda>s.
           if DeletionTimestamp (Addon_Meta (inst s)) \<noteq> None then deleteAddon K wfl s
           else
             gbind (processAddon E wfl) (\<lambda>(ret, procErr) s.
               gbind (on_mgr (ret_mgr (UpdateStatus K (inst s)))) (\<lambda>err.
                 case err of
                   Some e \<Rightarrow> gret (\<lparr>Result_Requeue = False, Result_RequeueAfter = 1\<rparr>, Some e)
                 | None \<Rightarrow> gret (ret, procErr)) s) s))"

definition ignoreNotFound :: "goerr \<Rightarrow> goerr option" where
  "ignoreNotFound err = (if IsNotFound err then None else Some err)"

definition AddonReconciler_Reconcile ::
    "('w, 'f, 'c, 'sv) env \<Rightarrow> string \<Rightarrow> string \<Rightarrow> ('w mgr, Result \<times> goerr option) gom" where
  "AddonReconciler_Reconcile E ns name = (\<lambda>t.
     case kube_Get (env_kube E) ns name (world t) of
       Inl err \<Rightarrow> (Ret (zero_Result, ignoreNotFound err), RemoveFromCache (env_order E) name t)
     | Inr instance \<Rightarrow>
         (case execAddon E \<lparr>mgr_of = t, inst = instance\<rparr> of (r, s) \<Rightarrow> (r, mgr_of s)))"

section \<open>Watches\<close>

definition getAddonRequestsFromLabels :: "order \<Rightarrow> cached \<Rightarrow> string gomap \<Rightarrow> (string \<times> string) list" where
  "getAddonRequestsFromLabels \<rho> c labels =
     (case map_of labels ResourceDefaultOwnLabel of
        None \<Rightarrow> []
      | Some name \<Rightarrow>
          if TrimSpace name \<noteq> [] then
            (case HasVersionName \<rho> c name of
               None \<Rightarrow> []
             | Some v \<Rightarrow> [(Version_Namespace v, Version_Name v)])
          else [])"

record labelled = GetLabels :: "string gomap"

definition mapDeploymentToAddonRequests :: "order \<Rightarrow> cached \<Rightarrow> labelled \<Rightarrow> (string \<times> string) list" where
  "mapDeploymentToAddonRequests \<rho> c obj = getAddonRequestsFromLabels \<rho> c (GetLabels obj)"

definition mapServiceToAddonRequests :: "order \<Rightarrow> cached \<Rightarrow> labelled \<Rightarrow> (string \<times> string) list" where
  "mapServiceToAddonRequests \<rho> c obj = getAddonRequestsFromLabels \<rho> c (GetLabels obj)"

definition mapDaemonSetToAddonRequests :: "order \<Rightarrow> cached \<Rightarrow> labelled \<Rightarrow> (string \<times> string) list" where
  "mapDaemonSetToAddonRequests \<rho> c obj = getAddonRequestsFromLabels \<rho> c (GetLabels obj)"

definition mapReplicaSetToAddonRequests :: "order \<Rightarrow> cached \<Rightarrow> labelled \<Rightarrow> (string \<times> string) list" where
  "mapReplicaSetToAddonRequests \<rho> c obj = getAddonRequestsFromLabels \<rho> c (GetLabels obj)"

definition mapStatefulSetToAddonRequests :: "order \<Rightarrow> cached \<Rightarrow> labelled \<Rightarrow> (string \<times> string) list" where
  "mapStatefulSetToAddonRequests \<rho> c obj = getAddonRequestsFromLabels \<rho> c (GetLabels obj)"

definition mapJobToAddonRequests :: "order \<Rightarrow> cached \<Rightarrow> labelled \<Rightarrow> (string \<times> string) list" where
  "mapJobToAddonRequests \<rho> c obj = getAddonRequestsFromLabels \<rho> c (GetLabels obj)"

section \<open>The invariant of the manager\<close>

definition ctl_ok :: "'w ctl \<Rightarrow> bool" where
  "ctl_ok s \<longleftrightarrow> mgr_ok (mgr_of s)"

lemma ctl_ok_inst [simp]: "ctl_ok (s\<lparr>inst := a\<rparr>) = ctl_ok s"
  by (simp add: ctl_ok_def)

lemma ctl_ok_basic [simp]:
  "ctl_ok (snd (on_inst f s)) = ctl_ok s" "ctl_ok (snd (emit ty rs msg s)) = ctl_ok s"
  by (simp_all add: ctl_ok_def on_inst_def emit_def)

lemma ctl_ok_on_mgr:
  assumes "ctl_ok s" and "\<And>t. mgr_ok t \<Longrightarrow> mgr_ok (snd (m t))"
  shows "ctl_ok (snd (on_mgr m s))"
  using assms(2) [of "mgr_of s"] assms(1) by (simp add: on_mgr_def ctl_ok_def split_def)

lemma ctl_ok_remove:
  "ctl_ok s \<Longrightarrow>
     ctl_ok (s\<lparr>mgr_of := (mgr_of s)\<lparr>versionCache := RemoveVersion p q (versionCache (mgr_of s))\<rparr>\<rparr>)"
  by (simp add: ctl_ok_def mgr_ok_remove)

lemma ret_mgr_state [simp]: "snd (ret_mgr f t) = snd (f t)"
  by (simp add: ret_mgr_def split: prod.split)

lemma mgr_ok_cong:
  "versionCache t' = versionCache t \<Longrightarrow> mutexMap t' = mutexMap t \<Longrightarrow> mgr_ok t' = mgr_ok t"
  by (simp add: mgr_ok_def)

lemma ctl_ok_update_inst [simp]: "ctl_ok (snd (kube_update_inst K s)) = ctl_ok s"
  by (simp add: kube_update_inst_def ctl_ok_def split: prod.split sum.split)

context addon_lifecycle
begin

lemma install_mgr_ok: "mgr_ok t \<Longrightarrow> mgr_ok (snd (install a wp t))"
  using mgr_ok_cong [OF keeps_cache keeps_mutexes] by blast

lemma runWorkflow_ok: "ctl_ok s \<Longrightarrow> ctl_ok (snd (runWorkflow K install step s))"
proof -
  have sync: "ctl_ok (snd (syncPhase K step n s))" if "ctl_ok s" for n s
    using that by (simp add: syncPhase_def Let_def split: sum.split)
  assume "ctl_ok s"
  then show ?thesis
    by (auto simp: runWorkflow_def Let_def install_mgr_ok sync
        intro!: gbind_inv [where I = ctl_ok] ctl_ok_on_mgr split: sum.split option.split)
qed

lemma executePrereqAndInstall_ok:
  "ctl_ok s \<Longrightarrow> ctl_ok (snd (executePrereqAndInstall K install s))"
  by (auto simp: executePrereqAndInstall_def Let_def runWorkflow_ok
      intro!: gbind_inv [where I = ctl_ok] split: outcome.split option.split)

lemma dropFinalizer_ok: "ctl_ok s \<Longrightarrow> ctl_ok (snd (dropFinalizer K f b s))"
  by (auto simp: dropFinalizer_def ctl_ok_remove intro!: gbind_inv [where I = ctl_ok] split: option.split)

lemma Finalize_ok: "ctl_ok s \<Longrightarrow> ctl_ok (snd (Finalize K install f s))"
  by (auto simp: Finalize_def runWorkflow_ok dropFinalizer_ok
      intro!: gbind_inv [where I = ctl_ok] split: option.split)

lemma observeAddon_ok: "ctl_ok s \<Longrightarrow> ctl_ok (snd (observeAddon K s))"
  by (auto simp: observeAddon_def Let_def intro!: gbind_inv [where I = ctl_ok] split: option.split prod.split)

lemma installAddon_ok: "ctl_ok s \<Longrightarrow> ctl_ok (snd (installAddon K install t s))"
  by (auto simp: installAddon_def Let_def executePrereqAndInstall_ok observeAddon_ok
      intro!: gbind_inv [where I = ctl_ok] split: option.split)

lemma processAddon_ok: "ctl_ok s \<Longrightarrow> ctl_ok (snd (processAddon E install s))"
proof -
  have reject: "ctl_ok (snd (rejectAddon e s))" if "ctl_ok s" for e s
    using that by (auto simp: rejectAddon_def Let_def intro!: gbind_inv [where I = ctl_ok])
  have fin: "ctl_ok (snd (SetFinalizer K f s))" if "ctl_ok s" for K f s
    using that by (auto simp: SetFinalizer_def intro!: gbind_inv [where I = ctl_ok])
  have old: "mgr_ok (snd (deleteOldWorkflows K a t))" if "mgr_ok t" for K a t
    using that by (simp add: deleteOldWorkflows_def split: sum.split)
  have restart: "ctl_ok (snd (restartAddon K t s))" if "ctl_ok s" for K t s
    using that
    by (auto simp: restartAddon_def old intro!: gbind_inv [where I = ctl_ok] ctl_ok_on_mgr split: option.split)
  assume "ctl_ok s"
  then show ?thesis
    by (auto simp: processAddon_def Let_def reject fin restart installAddon_ok
        intro!: gbind_inv [where I = ctl_ok] split: option.split prod.split outcome.split)
qed

lemma deleteAddon_ok: "ctl_ok s \<Longrightarrow> ctl_ok (snd (deleteAddon K install s))"
  by (auto simp: deleteAddon_def Finalize_ok mgr_ok_UpdateStatus
      intro!: gbind_inv [where I = ctl_ok] ctl_ok_on_mgr split: option.split)

end

lemma execAddon_ok: "ctl_ok s \<Longrightarrow> ctl_ok (snd (execAddon E s))"
  by (auto simp: execAddon_def Let_def lifecycle.processAddon_ok lifecycle.deleteAddon_ok mgr_ok_UpdateStatus
      intro!: grecover_inv [where I = ctl_ok] gbind_inv [where I = ctl_ok] ctl_ok_on_mgr
      split: option.split prod.split)

section \<open>Paths of a reconciliation\<close>

text \<open>The instance after \<open>processAddon\<close> has stored the checksum and emptied the resources.\<close>

abbreviation fresh_status :: "Addon \<Rightarrow> Addon" where
  "fresh_status a \<equiv> Status_update (\<lambda>st. st\<lparr>Checksum := CalculateChecksum a, Resources := []\<rparr>) a"

lemma fresh_status_gets [simp]:
  "GetInstallStatus (fresh_status a) = GetInstallStatus a"
  "GetPrereqStatus (fresh_status a) = GetPrereqStatus a"
  by (simp_all add: GetInstallStatus_def GetPrereqStatus_def)

lemma processAddon_start:
  "processAddon E wfl s =
     (let t = s\<lparr>inst := fresh_status (inst s)\<rparr>
      in if Checksum (Status (inst s)) \<noteq> CalculateChecksum (inst s) then restartAddon (env_kube E) (now E) t
         else if phase_Completed (GetInstallStatus (inst s)) then (Ret (zero_Result, None), t)
         else (case addonValidator_Validate (template_lib.truncate (env_lib E)) (env_order E) (env_semver E)
              (versionCache (mgr_of t)) (inst t) of
             Panic p \<Rightarrow> (Panic p, t)
           | Ret (ok, err) \<Rightarrow>
               if \<not> ok then rejectAddon err t
               else
                 gbind (emit ''Normal'' ''Completed'' (''Addon '' @ addon_ref (inst t) @ '' is valid.''))
                   (\<lambda>_. gbind (SetFinalizer (env_kube E) FinalizerName) (\<lambda>r.
                     case r of
                       Some e \<Rightarrow> (\<lambda>s.
                         gbind (emit ''Warning'' ''Failed''
                             (''Addon '' @ addon_ref (inst s) @ '' could not add finalizer. '' @ Error e))
                           (\<lambda>_. gret (\<lparr>Result_Requeue = True, Result_RequeueAfter = 0\<rparr>, Some e)) s)
                     | None \<Rightarrow> installAddon (env_kube E) wfl (now E))) t))"
  by (auto simp: processAddon_def validateChecksum_def Let_def GetInstallStatus_def)

lemma gbind_on_inst [simp]: "gbind (on_inst f) g s = g () (s\<lparr>inst := f (inst s)\<rparr>)"
  by (simp add: on_inst_def go_simps)

lemma gbind_emit [simp]:
  "gbind (emit ty rs msg) g s = g () (s\<lparr>mgr_of := record_event ty rs msg (mgr_of s)\<rparr>)"
  by (simp add: emit_def go_simps)

lemma gbind_ret_mgr:
  "gbind (on_mgr (ret_mgr f)) g s = (case f (mgr_of s) of (r, t) \<Rightarrow> g r (s\<lparr>mgr_of := t\<rparr>))"
  by (simp add: on_mgr_def ret_mgr_def gbind_def split: prod.split)

lemma execAddon_alive:
  assumes "DeletionTimestamp (Addon_Meta (inst s)) = None"
  shows "execAddon E s =
    (case processAddon E (workflowLifecycle_Install (env_lib E) (env_order E)) s of
       (Panic p, s1) \<Rightarrow> (Ret (zero_Result, None), s1)
     | (Ret (ret, procErr), s1) \<Rightarrow>
         (case UpdateStatus (env_kube E) (inst s1) (mgr_of s1) of
            (None, t) \<Rightarrow> (Ret (ret, procErr), s1\<lparr>mgr_of := t\<rparr>)
          | (Some e, t) \<Rightarrow>
              (Ret (\<lparr>Result_Requeue = False, Result_RequeueAfter = 1\<rparr>, Some e), s1\<lparr>mgr_of := t\<rparr>)))"
proof -
  let ?p = "processAddon E (workflowLifecycle_Install (env_lib E) (env_order E)) s"
  obtain r s1 where p: "?p = (r, s1)" by (cases ?p)
  show ?thesis
  proof (cases r)
    case (Panic m)
    then show ?thesis using assms p by (simp add: execAddon_def Let_def grecover_def gbind_Panic)
  next
    case (Ret x)
    obtain ret e where x: "x = (ret, e)" by (cases x)
    obtain u t where "UpdateStatus (env_kube E) (inst s1) (mgr_of s1) = (u, t)"
      by (cases "UpdateStatus (env_kube E) (inst s1) (mgr_of s1)")
    then show ?thesis
      using assms p Ret x
      by (cases u) (simp_all add: execAddon_def Let_def grecover_def gbind_Ret gbind_ret_mgr)
  qed
qed

lemma deleteOldWorkflows_fresh: "deleteOldWorkflows K (fresh_status a) = deleteOldWorkflows K a"
  by (simp add: deleteOldWorkflows_def fun_eq_iff split: sum.split)

lemma restart_phases:
  "GetPrereqStatus (snd (SetPrereqAndInstallStatuses Pending [] a)) = Pending"
  "GetInstallStatus (snd (SetPrereqAndInstallStatuses Pending [] a)) = Pending"
  "Reason (Status (snd (SetPrereqAndInstallStatuses Pending [] a))) = []"
  by (simp_all add: SetPrereqAndInstallStatuses_def Reason_SetInstallStatus)

text \<open>What the controller returns for an addon that is not valid.\<close>

abbreviation rejected_result :: "goerr \<Rightarrow> Result \<times> goerr option" where
  "rejected_result err \<equiv>
     if HasPrefix (Error err) ErrDepPending then (\<lparr>Result_Requeue = True, Result_RequeueAfter = 10\<rparr>, None)
     else if HasPrefix (Error err) ErrDepNotInstalled
     then (\<lparr>Result_Requeue = True, Result_RequeueAfter = 30\<rparr>, None)
     else (zero_Result, Some err)"

lemma rejectAddon_outcome:
  obtains b ty rs where "rejectAddon (Some err) \<lparr>mgr_of = t, inst = fresh_status a\<rparr> =
      (Ret (rejected_result err), \<lparr>mgr_of = record_event ty rs (Reason (Status b)) t, inst = b\<rparr>)"
    and "Reason (Status b) \<noteq> []"
    and "GetInstallStatus b = (if HasPrefix (Error err) ErrDepPending then Pending else ValidationFailed)"
    and "Spec b = Spec a" and "Addon_Meta b = Addon_Meta a" and "GetPrereqStatus b = GetPrereqStatus a"
    and "StartTime (Status b) = StartTime (Status a)" and "Checksum (Status b) = CalculateChecksum a"
    and "Resources (Status b) = []"
proof -
  let ?ref = "''Addon '' @ addon_ref (fresh_status a)"
  let ?wait = "?ref @ '' is waiting on dependencies to be out of Pending state.''"
    and ?missing = "?ref @ '' is waiting on dependencies to be installed. '' @ Error err"
    and ?bad = "?ref @ '' is not valid. '' @ Error err"
  show thesis
  proof (cases "HasPrefix (Error err) ErrDepPending")
    case True
    then show thesis
      by (intro that [of "''Normal''" "''Pending''" "SetInstallStatus Pending [?wait] (fresh_status a)"])
        (simp_all add: rejectAddon_def error_text_def Let_def Reason_SetInstallStatus)
  next
    case False
    then show thesis
      by (cases "HasPrefix (Error err) ErrDepNotInstalled")
        (rule that [of "''Normal''" "''Failed''" "SetInstallStatus ValidationFailed [?missing] (fresh_status a)"]
           that [of "''Warning''" "''Failed''" "SetInstallStatus ValidationFailed [?bad] (fresh_status a)"];
         simp add: rejectAddon_def error_text_def Let_def Reason_SetInstallStatus; fail)+
  qed
qed

lemma reconcile_rejects:
  assumes "kube_Get (env_kube E) ns n (world t) = Inr a" and "DeletionTimestamp (Addon_Meta a) = None"
    and "Checksum (Status a) = CalculateChecksum a" and "\<not> phase_Completed (GetInstallStatus a)"
    and "addonValidator_Validate (template_lib.truncate (env_lib E)) (env_order E) (env_semver E)
      (versionCache t) (fresh_status a) = Ret (False, Some err)"
  obtains b ty rs where "AddonReconciler_Reconcile E ns n t =
      (case UpdateStatus (env_kube E) b (record_event ty rs (Reason (Status b)) t) of
         (Some e, t') \<Rightarrow> (Ret (\<lparr>Result_Requeue = False, Result_RequeueAfter = 1\<rparr>, Some e), t')
       | (None, t') \<Rightarrow> (Ret (rejected_result err), t'))"
    and "GetInstallStatus b = (if HasPrefix (Error err) ErrDepPending then Pending else ValidationFailed)"
    and "Reason (Status b) \<noteq> []" and "Spec b = Spec a" and "Addon_Meta b = Addon_Meta a"
    and "GetPrereqStatus b = GetPrereqStatus a" and "StartTime (Status b) = StartTime (Status a)"
    and "Checksum (Status b) = Checksum (Status a)" and "Resources (Status b) = []"
proof -
  let ?t = "\<lparr>mgr_of = t, inst = fresh_status a\<rparr>"
  obtain b ty rs where rej: "rejectAddon (Some err) ?t =
      (Ret (rejected_result err), \<lparr>mgr_of = record_event ty rs (Reason (Status b)) t, inst = b\<rparr>)"
    and b: "Reason (Status b) \<noteq> []"
      "GetInstallStatus b = (if HasPrefix (Error err) ErrDepPending then Pending else ValidationFailed)"
      "Spec b = Spec a" "Addon_Meta b = Addon_Meta a" "GetPrereqStatus b = GetPrereqStatus a"
      "StartTime (Status b) = StartTime (Status a)" "Checksum (Status b) = CalculateChecksum a"
      "Resources (Status b) = []"
    by (rule rejectAddon_outcome)
  moreover have "AddonReconciler_Reconcile E ns n t =
      (case UpdateStatus (env_kube E) b (record_event ty rs (Reason (Status b)) t) of
         (Some e, t') \<Rightarrow> (Ret (\<lparr>Result_Requeue = False, Result_RequeueAfter = 1\<rparr>, Some e), t')
       | (None, t') \<Rightarrow> (Ret (rejected_result err), t'))"
    using assms rej
    by (simp add: AddonReconciler_Reconcile_def execAddon_alive processAddon_start Let_def
        split: prod.split option.split)
  ultimately show thesis using assms(3) by (intro that [of b ty rs]) simp_all
qed

section \<open>Properties\<close>

text \<open>
  C17: A changed spec starts the installation anew. The workflows of the old spec are deleted
  first; if that cannot be done, the error is returned and the phases stay. Otherwise the
  addon is requeued with both phases pending, no reason, the new checksum and the present
  time as its start time, and nothing else happens to the manager: no validation, no
  workflow, and the spec as it was.
\<close>

theorem changed_spec_restarts:
  assumes "Checksum (Status (inst s)) \<noteq> CalculateChecksum (inst s)"
    and "deleteOldWorkflows (env_kube E) (inst s) (mgr_of s) = (r, t)"
  shows "\<exists>a. processAddon E wfl s =
      (Ret (case r of None \<Rightarrow> (\<lparr>Result_Requeue = True, Result_RequeueAfter = 0\<rparr>, None)
            | Some e \<Rightarrow> (zero_Result, Some e)), \<lparr>mgr_of = t, inst = a\<rparr>) \<and>
    Spec a = Spec (inst s) \<and> Addon_Meta a = Addon_Meta (inst s) \<and>
    Checksum (Status a) = CalculateChecksum (inst s) \<and> Resources (Status a) = [] \<and>
    (if r = None
     then GetPrereqStatus a = Pending \<and> GetInstallStatus a = Pending \<and> Reason (Status a) = [] \<and>
       StartTime (Status a) = now E
     else GetPrereqStatus a = GetPrereqStatus (inst s) \<and> GetInstallStatus a = GetInstallStatus (inst s))"
proof (cases r)
  case None
  let ?a = "snd (SetPrereqAndInstallStatuses Pending []
    (ClearStatus (Status_update (StartTime_update (\<lambda>_. now E)) (fresh_status (inst s)))))"
  have "processAddon E wfl s =
      (Ret (\<lparr>Result_Requeue = True, Result_RequeueAfter = 0\<rparr>, None), \<lparr>mgr_of = t, inst = ?a\<rparr>)"
    using assms None
    by (simp add: processAddon_start Let_def restartAddon_def gbind_ret_mgr deleteOldWorkflows_fresh)
  then show ?thesis using None by (intro exI [of _ ?a]) (simp add: restart_phases)
next
  case (Some e)
  have "processAddon E wfl s = (Ret (zero_Result, Some e), \<lparr>mgr_of = t, inst = fresh_status (inst s)\<rparr>)"
    using assms Some
    by (simp add: processAddon_start Let_def restartAddon_def gbind_ret_mgr deleteOldWorkflows_fresh)
  then show ?thesis using Some by (intro exI [of _ "fresh_status (inst s)"]) simp
qed

definition mem_env :: "(mem, Workflow, unit, string) env" where
  "mem_env = \<lparr>env_kube = mem_kube, env_lib = mem_lib, env_semver = any_semver, env_order = rev, now = 7\<rparr>"

lemma new_checksum: "Checksum (Status (zero_Addon n ns)) \<noteq> CalculateChecksum a"
  by (simp add: zero_Addon_def CalculateChecksum_def) (metis digits_in_not_Nil)

lemma mem_delete_old:
  "deleteOldWorkflows mem_kube a (start_mgr as) = (None, start_mgr as)"
  by (simp add: deleteOldWorkflows_def mem_kube_def start_mgr_def)

theorem changed_spec_restarts_witness:
  "\<exists>a. processAddon mem_env (workflowLifecycle_Install mem_lib rev) \<lparr>mgr_of = start_mgr [], inst = zero_Addon ''a'' ''ns''\<rparr> =
     (Ret (\<lparr>Result_Requeue = True, Result_RequeueAfter = 0\<rparr>, None), \<lparr>mgr_of = start_mgr [], inst = a\<rparr>) \<and>
     StartTime (Status a) = 7"
  using changed_spec_restarts [of "\<lparr>mgr_of = start_mgr [], inst = zero_Addon ''a'' ''ns''\<rparr>" mem_env
      None "start_mgr []" "workflowLifecycle_Install mem_lib rev"]
  by (simp add: new_checksum mem_env_def mem_delete_old) blast

text \<open>
  C19: What becomes of an addon that is not valid. Its reconciliation records one event and
  writes the status once; no finalizer is set and no workflow is submitted. If a dependency
  is pending, the addon stays pending and is tried again after ten seconds; if one is not
  installed, its validation has failed and it is tried again after thirty seconds; neither
  is reported as an error. With any other error the validation has failed, the error is
  returned and no time is set. The message of the event is the reason in the status, and
  a status that cannot be written takes precedence over all of this.
\<close>

theorem rejected_addon_outcome:
  assumes "kube_Get (env_kube E) ns n (world t) = Inr a" and "DeletionTimestamp (Addon_Meta a) = None"
    and "Checksum (Status a) = CalculateChecksum a" and "\<not> phase_Completed (GetInstallStatus a)"
    and "addonValidator_Validate (template_lib.truncate (env_lib E)) (env_order E) (env_semver E)
      (versionCache t) (fresh_status a) = Ret (False, Some err)"
  shows "\<exists>b ty rs. AddonReconciler_Reconcile E ns n t =
      (case UpdateStatus (env_kube E) b (record_event ty rs (Reason (Status b)) t) of
         (Some e, t') \<Rightarrow> (Ret (\<lparr>Result_Requeue = False, Result_RequeueAfter = 1\<rparr>, Some e), t')
       | (None, t') \<Rightarrow> (Ret (rejected_result err), t')) \<and>
    GetInstallStatus b = (if HasPrefix (Error err) ErrDepPending then Pending else ValidationFailed) \<and>
    Reason (Status b) \<noteq> [] \<and> Spec b = Spec a \<and> Addon_Meta b = Addon_Meta a \<and>
    GetPrereqStatus b = GetPrereqStatus a \<and> StartTime (Status b) = StartTime (Status a) \<and>
    Checksum (Status b) = Checksum (Status a) \<and> Resources (Status b) = []"
  by (rule reconcile_rejects [OF assms]) (intro exI conjI; assumption)

definition unplaced_addon :: Addon where
  "unplaced_addon = (let a = with_phase Pending in Status_update (Checksum_update (\<lambda>_. CalculateChecksum a)) a)"

theorem rejected_addon_outcome_witness:
  "\<exists>t'. AddonReconciler_Reconcile mem_env ''ns'' ''a'' (start_mgr [unplaced_addon]) =
    (Ret (zero_Result, Some (Errorf ''namespace is empty in addon.spec.params.namespace'')), t')"
proof -
  let ?t = "start_mgr [unplaced_addon]" and ?err = "Errorf ''namespace is empty in addon.spec.params.namespace''"
  have E: "env_kube mem_env = mem_kube" by (simp add: mem_env_def)
  have a: "GetName unplaced_addon = ''a''" "GetNamespace unplaced_addon = ''ns''"
    "DeletionTimestamp (Addon_Meta unplaced_addon) = None" "GetInstallStatus unplaced_addon = Pending"
    "Checksum (Status unplaced_addon) = CalculateChecksum unplaced_addon"
    "Params_Namespace (Spec_Params (Spec unplaced_addon)) = []"
    by (simp_all add: unplaced_addon_def Let_def with_phase_def CalculateChecksum_def zero_Addon_def
        GetInstallStatus_def SetInstallStatus_def)
  have get: "kube_Get (env_kube mem_env) ''ns'' ''a'' (world ?t) = Inr unplaced_addon"
    by (simp add: E mem_kube_def mem_get_def start_mgr_def same_object_def a)
  have val: "addonValidator_Validate (template_lib.truncate (env_lib mem_env)) (env_order mem_env)
      (env_semver mem_env) (versionCache ?t) (fresh_status unplaced_addon) = Ret (False, Some ?err)"
    using a by (simp add: addonValidator_Validate_def validateDuplicate_def GetVersion_def GetVersions_def
        NewAddonVersionCacheClient_def start_mgr_def validateAddonNameLength_def Let_def)
  have pre: "\<not> HasPrefix (Error ?err) ErrDepPending" "\<not> HasPrefix (Error ?err) ErrDepNotInstalled"
    by (simp_all add: HasPrefix_def Errorf_def ErrDepPending_def ErrDepNotInstalled_def)
  have "\<not> phase_Completed (GetInstallStatus unplaced_addon)" using a(4) by (simp add: phase_pred_defs)
  then obtain b ty rs where rec: "AddonReconciler_Reconcile mem_env ''ns'' ''a'' ?t =
      (case UpdateStatus mem_kube b (record_event ty rs (Reason (Status b)) ?t) of
         (Some e, t') \<Rightarrow> (Ret (\<lparr>Result_Requeue = False, Result_RequeueAfter = 1\<rparr>, Some e), t')
       | (None, t') \<Rightarrow> (Ret (zero_Result, Some ?err), t'))"
    and b: "GetInstallStatus b = ValidationFailed" "Addon_Meta b = Addon_Meta unplaced_addon"
    using rejected_addon_outcome [OF get a(3,5) _ val, unfolded E pre if_False] by (simp only: pre if_False) blast
  have "fst (UpdateStatus mem_kube b (record_event ty rs (Reason (Status b)) ?t)) = None"
    using get a b by (intro mem_UpdateStatus_ok [of _ _ unplaced_addon])
      (simp_all add: E mem_kube_def race_guard_def GetInstallStatus_def phase_pred_defs)
  then show ?thesis using rec by (auto split: prod.splits)
qed

text \<open>
  C20: A completed addon whose spec has not changed is left alone, but for its list of
  resources: a reconciliation is exactly one status update with the stored status and an
  empty list of resources, so the resources observed during the installation disappear
  from the status.
\<close>

theorem completed_reconcile:
  assumes "kube_Get (env_kube E) ns n (world t) = Inr a"
    and "DeletionTimestamp (Addon_Meta a) = None"
    and "Checksum (Status a) = CalculateChecksum a" and "phase_Completed (GetInstallStatus a)"
  shows "AddonReconciler_Reconcile E ns n t =
    (case UpdateStatus (env_kube E) (Status_update (Resources_update (\<lambda>_. [])) a) t of
       (None, t') \<Rightarrow> (Ret (zero_Result, None), t')
     | (Some e, t') \<Rightarrow> (Ret (\<lparr>Result_Requeue = False, Result_RequeueAfter = 1\<rparr>, Some e), t'))"
proof -
  have fresh: "fresh_status a = Status_update (Resources_update (\<lambda>_. [])) a"
    using assms(3) by (cases a) simp
  show ?thesis
    using assms
    by (simp add: AddonReconciler_Reconcile_def execAddon_alive processAddon_start Let_def fresh
        split: prod.split option.split)
qed

definition done_addon :: Addon where
  "done_addon =
     (let a = with_phase Succeeded
      in Status_update (\<lambda>st. st\<lparr>Checksum := CalculateChecksum a, Resources := [object_status ''Job'' [] \<lparr>KObject_Name = ''j'',
           KObject_Namespace = ''ns'', KObject_SelfLink = []\<rparr>]\<rparr>) a)"

theorem completed_reconcile_witness:
  "AddonReconciler_Reconcile mem_env ''ns'' ''a'' (start_mgr [done_addon]) =
    (case UpdateStatus mem_kube (Status_update (Resources_update (\<lambda>_. [])) done_addon) (start_mgr [done_addon]) of
       (None, t') \<Rightarrow> (Ret (zero_Result, None), t')
     | (Some e, t') \<Rightarrow> (Ret (\<lparr>Result_Requeue = False, Result_RequeueAfter = 1\<rparr>, Some e), t'))"
proof -
  have "kube_Get (env_kube mem_env) ''ns'' ''a'' (world (start_mgr [done_addon])) = Inr done_addon"
    by (simp add: mem_env_def mem_kube_def mem_get_def start_mgr_def same_object_def done_addon_def
        with_phase_def zero_Addon_def Let_def)
  moreover have "DeletionTimestamp (Addon_Meta done_addon) = None"
    "Checksum (Status done_addon) = CalculateChecksum done_addon"
    "phase_Completed (GetInstallStatus done_addon)"
    by (simp_all add: done_addon_def Let_def with_phase_def CalculateChecksum_def zero_Addon_def
        phase_pred_defs GetInstallStatus_def SetInstallStatus_def)
  ultimately show ?thesis
    using completed_reconcile [of mem_env "''ns''" "''a''" "start_mgr [done_addon]"]
    by (simp add: mem_env_def)
qed


definition prereqs_failed :: "mem ctl" where
  "prereqs_failed = \<lparr>mgr_of = start_mgr [], inst = set_Prereqs Failed (zero_Addon ''a'' ''ns'')\<rparr>"


text \<open>
  C18: An installation that has run out of time fails. A valid addon that is not completed
  and whose start time is an hour or more ago gets the install phase failed with a
  reason, the error is reported and no workflow is submitted: the only effect on the
  manager is one event.
\<close>

theorem expired_install_fails:
  assumes "\<not> phase_Completed (GetInstallStatus (inst s))"
    and "0 \<le> sint t" and "0 \<le> sint (StartTime (Status (inst s)))"
    and "sint (StartTime (Status (inst s))) + 3600000 \<le> sint t"
  shows "\<exists>e msg s'. installAddon K wfl t s = (Ret (zero_Result, Some e), s') \<and>
    mgr_of s' = record_event ''Warning'' ''Failed'' msg (mgr_of s) \<and>
    GetInstallStatus (inst s') = Failed \<and> Reason (Status (inst s')) = msg \<and>
    Spec (inst s') = Spec (inst s)"
proof -
  have "IsExpired t (StartTime (Status (inst s))) TTL_Milliseconds"
    using assms(4) by (simp add: IsExpired_nonneg [OF assms(2,3)] TTL_Milliseconds_def)
  then show ?thesis
    using assms(1)
    by (simp add: installAddon_def GetInstallStatus_def Let_def)
      (simp add: Reason_SetInstallStatus GetInstallStatus_def [symmetric])
qed

theorem expired_install_fails_witness:
  "\<exists>e s'. installAddon mem_kube (workflowLifecycle_Install mem_lib rev) 3600000
     \<lparr>mgr_of = start_mgr [], inst = with_phase Pending\<rparr> = (Ret (zero_Result, Some e), s') \<and>
     GetInstallStatus (inst s') = Failed"
  using expired_install_fails [of "\<lparr>mgr_of = start_mgr [], inst = with_phase Pending\<rparr>" 3600000 mem_kube
      "workflowLifecycle_Install mem_lib rev"]
  by (auto simp: with_phase_def phase_pred_defs zero_Addon_def)


definition deleting_ctl :: "mem ctl" where
  "deleting_ctl = \<lparr>mgr_of = start_mgr [],
     inst = Spec_update (Spec_Lifecycle_update (Lifecycle_Delete_update (Template_update (\<lambda>_. ''t''))))
       (with_phase DeleteFailed)\<rparr>"


text \<open>
  A panic while an addon is processed does not escape the reconciliation, and it leaves
  no trace: the result is an empty result without an error, so nothing is requeued, and
  the status is not written. Without a panic the status is always written, and a failed
  write takes precedence over the result of processing.
\<close>

lemma panic_is_swallowed:
  "execAddon E \<lparr>mgr_of = t, inst = a\<lparr>Addon_Meta := (Addon_Meta a)\<lparr>DeletionTimestamp := None\<rparr>\<rparr>\<rparr> =
    (case processAddon E (workflowLifecycle_Install (env_lib E) (env_order E))
        \<lparr>mgr_of = t, inst = a\<lparr>Addon_Meta := (Addon_Meta a)\<lparr>DeletionTimestamp := None\<rparr>\<rparr>\<rparr> of
       (Panic p, s1) \<Rightarrow> (Ret (zero_Result, None), s1)
     | (Ret (ret, procErr), s1) \<Rightarrow>
         (case UpdateStatus (env_kube E) (inst s1) (mgr_of s1) of
            (None, t') \<Rightarrow> (Ret (ret, procErr), s1\<lparr>mgr_of := t'\<rparr>)
          | (Some e, t') \<Rightarrow>
              (Ret (\<lparr>Result_Requeue = False, Result_RequeueAfter = 1\<rparr>, Some e), s1\<lparr>mgr_of := t'\<rparr>)))"
  by (rule execAddon_alive) simp

text \<open>The first reconciliation of a new spec, when nothing fails, ends in one status update.\<close>

lemma first_reconcile:
  assumes "kube_Get (env_kube E) ns n (world t) = Inr b"
    and "DeletionTimestamp (Addon_Meta b) = None"
    and "Checksum (Status b) \<noteq> CalculateChecksum b"
    and "deleteOldWorkflows (env_kube E) b t = (None, t1)"
  obtains a where "GetName a = GetName b" and "GetNamespace a = GetNamespace b" and "Spec a = Spec b"
    and "Checksum (Status a) = CalculateChecksum b" and "GetInstallStatus a = Pending"
    and "AddonReconciler_Reconcile E ns n t =
      (case UpdateStatus (env_kube E) a t1 of
         (None, t') \<Rightarrow> (Ret (\<lparr>Result_Requeue = True, Result_RequeueAfter = 0\<rparr>, None), t')
       | (Some e, t') \<Rightarrow> (Ret (\<lparr>Result_Requeue = False, Result_RequeueAfter = 1\<rparr>, Some e), t'))"
proof -
  let ?a = "snd (SetPrereqAndInstallStatuses Pending []
    (ClearStatus (Status_update (StartTime_update (\<lambda>_. now E)) (fresh_status b))))"
  have "AddonReconciler_Reconcile E ns n t =
      (case UpdateStatus (env_kube E) ?a t1 of
         (None, t') \<Rightarrow> (Ret (\<lparr>Result_Requeue = True, Result_RequeueAfter = 0\<rparr>, None), t')
       | (Some e, t') \<Rightarrow> (Ret (\<lparr>Result_Requeue = False, Result_RequeueAfter = 1\<rparr>, Some e), t'))"
    using assms
    by (simp add: AddonReconciler_Reconcile_def execAddon_alive processAddon_start Let_def restartAddon_def
        gbind_ret_mgr deleteOldWorkflows_fresh split: prod.split option.split)
  then show thesis by (rule that [rotated -1]) (simp_all add: restart_phases)
qed

lemma deleteOldWorkflows_cache: "versionCache (snd (deleteOldWorkflows K a t)) = versionCache t"
  by (simp add: deleteOldWorkflows_def split: sum.split)

text \<open>
  C21: The check for duplicates can be bypassed. Whatever addon the cache holds for a package
  version, once the first reconciliation of a second addon with that package version
  reports success, the check for duplicates accepts the second addon: the status update
  at the end of the reconciliation has put it in the place of the first.
\<close>

theorem duplicate_check_bypassed:
  assumes "retry_law (env_kube E)" and "rng_ok (env_order E)" and "mgr_ok t"
    and "kube_Get (env_kube E) ns n (world t) = Inr b"
    and "DeletionTimestamp (Addon_Meta b) = None"
    and "Checksum (Status b) \<noteq> CalculateChecksum b"
    and "deleteOldWorkflows (env_kube E) b t = (None, t1)"
    and "AddonReconciler_Reconcile E ns n t = (Ret (res, None), t')"
  shows "validateDuplicate (env_order E) (env_semver E) (versionCache t') b (version_of_addon b) = None"
proof -
  obtain a where a: "GetName a = GetName b" "Spec a = Spec b"
    and rec: "AddonReconciler_Reconcile E ns n t =
      (case UpdateStatus (env_kube E) a t1 of
         (None, t') \<Rightarrow> (Ret (\<lparr>Result_Requeue = True, Result_RequeueAfter = 0\<rparr>, None), t')
       | (Some e, t') \<Rightarrow> (Ret (\<lparr>Result_Requeue = False, Result_RequeueAfter = 1\<rparr>, Some e), t'))"
    by (rule first_reconcile [OF assms(4-7)])
  have up: "UpdateStatus (env_kube E) a t1 = (None, t')"
    using assms(8) rec by (auto split: prod.splits option.splits)
  have "versionCache t1 = versionCache t"
    using deleteOldWorkflows_cache [of "env_kube E" b t] assms(7) by simp
  then have ok: "cache_ok (versionCache t1)" using assms(3) by (simp add: mgr_ok_def)
  show ?thesis
    using assms(1) up
  proof (cases rule: UpdateStatus_cases)
    case written
    let ?v = "version_of_addon b"
    have "entry_of (versionCache t') (vPkgName ?v, vPkgVersion ?v) = Some (version_of_addon a)"
      using written(2) ok a by (simp add: entry_addAddonToCache version_of_addon_def GetPackageSpec_def Let_def)
    moreover have "cache_ok (versionCache t')"
      using written(2) ok by (simp add: addAddonToCache_def cache.ok_add)
    ultimately have "GetVersion (env_order E) (env_semver E) (versionCache t') (vPkgName ?v) (vPkgVersion ?v)
        = Some (version_of_addon a)"
      by (intro GetVersion_exact [OF assms(2)])
    then show ?thesis using a(1) by (simp add: validateDuplicate_def version_of_addon_def)
  qed simp_all
qed

definition second_addon :: Addon where
  "second_addon = Spec_update (Spec_PackageSpec_update (\<lambda>p. p\<lparr>PkgName := ''p'', PkgVersion := ''1.0''\<rparr>))
     (zero_Addon ''b'' ''ns'')"

definition occupied_mgr :: "mem mgr" where
  "occupied_mgr = (start_mgr [second_addon])\<lparr>versionCache :=
     cache_run [OpAdd (sample_version ''a'' ''p'' ''1.0'' [] Succeeded)]\<rparr>"

lemma occupied_mgr_ok: "mgr_ok occupied_mgr"
  using cache_run_ok cache_run_keyed by (simp add: mgr_ok_def occupied_mgr_def start_mgr_def)

lemma second_addon_meta:
  "GetName second_addon = ''b''" "GetNamespace second_addon = ''ns''"
  "DeletionTimestamp (Addon_Meta second_addon) = None" "GetInstallStatus second_addon = []"
  "Checksum (Status second_addon) = []"
  by (simp_all add: second_addon_def zero_Addon_def GetInstallStatus_def)

theorem duplicate_check_bypassed_witness:
  "validateDuplicate rev any_semver (versionCache occupied_mgr) second_addon
     (version_of_addon second_addon) \<noteq> None \<and>
   (\<exists>res t'. AddonReconciler_Reconcile mem_env ''ns'' ''b'' occupied_mgr = (Ret (res, None), t') \<and>
      validateDuplicate rev any_semver (versionCache t') second_addon (version_of_addon second_addon) = None)"
proof
  have "GetVersion rev any_semver (versionCache occupied_mgr) ''p'' ''1.0'' =
      Some (sample_version ''a'' ''p'' ''1.0'' [] Succeeded)"
    by (rule GetVersion_exact [OF rng_ok_rev])
      (simp_all add: occupied_mgr_def cache_run_ok, simp add: cache_run_def NewAddonVersionCacheClient_def
        AddVersion_def entry_of_def sample_version_def)
  then show "validateDuplicate rev any_semver (versionCache occupied_mgr) second_addon
      (version_of_addon second_addon) \<noteq> None"
    by (simp add: validateDuplicate_def version_of_addon_def second_addon_def zero_Addon_def
        GetPackageSpec_def sample_version_def Let_def)
  have E: "env_kube mem_env = mem_kube" "env_order mem_env = rev" "env_semver mem_env = any_semver"
    by (simp_all add: mem_env_def)
  have get: "kube_Get (env_kube mem_env) ''ns'' ''b'' (world occupied_mgr) = Inr second_addon"
    by (simp add: E mem_kube_def mem_get_def occupied_mgr_def start_mgr_def same_object_def second_addon_meta)
  have chk: "Checksum (Status second_addon) \<noteq> CalculateChecksum second_addon"
    by (simp add: second_addon_meta CalculateChecksum_def) (metis digits_in_not_Nil)
  have del: "deleteOldWorkflows (env_kube mem_env) second_addon occupied_mgr = (None, occupied_mgr)"
    by (simp add: E deleteOldWorkflows_def mem_kube_def occupied_mgr_def start_mgr_def)
  obtain a where a: "GetName a = GetName second_addon" "GetNamespace a = GetNamespace second_addon"
    and rec: "AddonReconciler_Reconcile mem_env ''ns'' ''b'' occupied_mgr =
      (case UpdateStatus (env_kube mem_env) a occupied_mgr of
         (None, t') \<Rightarrow> (Ret (\<lparr>Result_Requeue = True, Result_RequeueAfter = 0\<rparr>, None), t')
       | (Some e, t') \<Rightarrow> (Ret (\<lparr>Result_Requeue = False, Result_RequeueAfter = 1\<rparr>, Some e), t'))"
    by (rule first_reconcile [OF get second_addon_meta(3) chk del])
  have "fst (UpdateStatus mem_kube a occupied_mgr) = None"
  proof (rule mem_UpdateStatus_ok)
    show "mem_get (GetNamespace a) (GetName a) (world occupied_mgr) = Inr second_addon"
      using get a by (simp add: E mem_kube_def second_addon_meta)
    show "\<not> race_guard second_addon a"
      using second_addon_meta(4) by (simp add: race_guard_def GetInstallStatus_def phase_pred_defs)
  qed
  then obtain t' where res: "AddonReconciler_Reconcile mem_env ''ns'' ''b'' occupied_mgr =
      (Ret (\<lparr>Result_Requeue = True, Result_RequeueAfter = 0\<rparr>, None), t')"
    using rec by (cases "UpdateStatus mem_kube a occupied_mgr") (simp add: E)
  have "validateDuplicate rev any_semver (versionCache t') second_addon (version_of_addon second_addon) = None"
    using duplicate_check_bypassed [OF _ _ occupied_mgr_ok get second_addon_meta(3) chk del res]
    by (simp add: E mem_retry_law rng_ok_rev)
  with res show "\<exists>res t'. AddonReconciler_Reconcile mem_env ''ns'' ''b'' occupied_mgr = (Ret (res, None), t') \<and>
      validateDuplicate rev any_semver (versionCache t') second_addon (version_of_addon second_addon) = None"
    by blast
qed

text \<open>
  Any error on reading an addon makes the manager forget it, also one that does not
  mean that the addon is gone: the error is reported, nothing is written, and if the cache
  has one entry with the addon's name, no search by that name finds anything afterwards.
\<close>

lemma read_error_evicts:
  assumes "kube_Get (env_kube E) ns n (world t) = Inl e" and "\<not> IsNotFound e"
    and "rng_ok (env_order E)" and "mgr_ok t"
    and "\<And>p q p' q' v v'. entry_of (versionCache t) (p, q) = Some v \<Longrightarrow> Version_Name v = n \<Longrightarrow>
      entry_of (versionCache t) (p', q') = Some v' \<Longrightarrow> Version_Name v' = n \<Longrightarrow> p = p' \<and> q = q'"
  shows "\<exists>t'. AddonReconciler_Reconcile E ns n t = (Ret (zero_Result, Some e), t') \<and>
    world t' = world t \<and> HasVersionName (env_order E) (versionCache t') n = None"
proof -
  let ?t = "RemoveFromCache (env_order E) n t"
  have rec: "AddonReconciler_Reconcile E ns n t = (Ret (zero_Result, Some e), ?t)"
    using assms(1,2) by (simp add: AddonReconciler_Reconcile_def ignoreNotFound_def)
  have w: "world ?t = world t" by (simp add: RemoveFromCache_def Let_def split: option.split)
  have ok: "cache_ok (versionCache ?t)"
    using mgr_ok_RemoveFromCache [OF assms(4)] by (simp add: mgr_ok_def)
  have "HasVersionName (env_order E) (versionCache ?t) n = None"
  proof (cases "HasVersionName (env_order E) (versionCache t) n")
    case None
    then show ?thesis by (simp add: RemoveFromCache_absent)
  next
    case (Some v0)
    then obtain p q v where e: "entry_of (versionCache t) (p, q) = Some v" "Version_Name v = n"
      and rm: "entry_of (versionCache ?t) = (entry_of (versionCache t))((p, q) := None)"
      using RemoveFromCache_present [OF assms(3,4)] by metis
    have "Version_Name v' \<noteq> n" if "entry_of (versionCache ?t) (p', q') = Some v'" for p' q' v'
      using that assms(5) [OF e, of p' q' v'] unfolding rm by (auto split: if_splits)
    then show ?thesis using HasVersionName_None [OF assms(3) ok] by blast
  qed
  with rec w show ?thesis by blast
qed

text \<open>
  Every reconciliation, whatever the API answers and even if it panics inside, keeps the manager's
  invariant.
\<close>

lemma mgr_ok_Reconcile:
  assumes "mgr_ok t"
  shows "mgr_ok (snd (AddonReconciler_Reconcile E ns n t))"
proof (cases "kube_Get (env_kube E) ns n (world t)")
  case (Inl e)
  then show ?thesis using mgr_ok_RemoveFromCache [OF assms] by (simp add: AddonReconciler_Reconcile_def)
next
  case (Inr a)
  have "ctl_ok \<lparr>mgr_of = t, inst = a\<rparr>" using assms by (simp add: ctl_ok_def)
  from execAddon_ok [OF this, of E] show ?thesis
    using Inr by (simp add: AddonReconciler_Reconcile_def ctl_ok_def split_def)
qed

section \<open>Observed resources\<close>

lemma observe_all_ok:
  "snd (observe_all K a sel w obs) = [] \<longleftrightarrow>
     (\<forall>(name, observe) \<in> set obs. \<exists>res. observe K (GetNamespace a) sel w = Inr res)"
  by (induction K a sel w obs rule: observe_all.induct) (auto split: prod.splits sum.splits)

lemma observe_all_listed:
  "x \<in> set (fst (observe_all K a sel w obs)) \<longleftrightarrow>
     (\<exists>name observe res. (name, observe) \<in> set obs \<and> observe K (GetNamespace a) sel w = Inr res \<and> x \<in> set res)"
  by (induction K a sel w obs rule: observe_all.induct) (auto split: prod.splits sum.splits)

lemmas observers_Inr =
  service.observe_Inr_iff job.observe_Inr_iff cronjob.observe_Inr_iff statefulset.observe_Inr_iff
  deployment.observe_Inr_iff daemonset.observe_Inr_iff replicaset.observe_Inr_iff

text \<open>The kinds that are observed, with the namespace their listing is restricted to.\<close>

definition observed_kinds :: "string \<Rightarrow> (kkind \<times> string option) set" where
  "observed_kinds ns =
     {(KService, Some ns), (KJob, Some ns), (KCronJob, Some ns), (KStatefulSet, None), (KDeployment, None),
      (KDaemonSet, None), (KReplicaSet, None)}"

lemma observer_lists:
  assumes "(name, observe) \<in> set observers" and "observe K ns sel w = Inr res" and "x \<in> set res"
  shows "\<exists>k sc items y. (k, sc) \<in> observed_kinds ns \<and> kube_List K k sc sel w = Inr items \<and>
    y \<in> set items \<and> Object_Name x = KObject_Name y"
proof -
  consider "observe = ObserveService"
    | "observe = ObserveJob"
    | "observe = ObserveCronJob"
    | "observe = ObserveStatefulSet"
    | "observe = ObserveDeployment"
    | "observe = ObserveDaemonSet"
    | "observe = ObserveReplicaSet"
    using assms(1) by (auto simp: observers_def)
  then show ?thesis
  proof cases
    case 1
    with service.observed_named [of K ns sel w res x] assms(2,3) show ?thesis
      by (intro exI [of _ KService] exI [of _ "Some ns"]) (simp add: observed_kinds_def)
  next
    case 2
    with job.observed_named [of K ns sel w res x] assms(2,3) show ?thesis
      by (intro exI [of _ KJob] exI [of _ "Some ns"]) (simp add: observed_kinds_def)
  next
    case 3
    with cronjob.observed_named [of K ns sel w res x] assms(2,3) show ?thesis
      by (intro exI [of _ KCronJob] exI [of _ "Some ns"]) (simp add: observed_kinds_def)
  next
    case 4
    with statefulset.observed_named [of K ns sel w res x] assms(2,3) show ?thesis
      by (intro exI [of _ KStatefulSet] exI [of _ "None"]) (simp add: observed_kinds_def)
  next
    case 5
    with deployment.observed_named [of K ns sel w res x] assms(2,3) show ?thesis
      by (intro exI [of _ KDeployment] exI [of _ "None"]) (simp add: observed_kinds_def)
  next
    case 6
    with daemonset.observed_named [of K ns sel w res x] assms(2,3) show ?thesis
      by (intro exI [of _ KDaemonSet] exI [of _ "None"]) (simp add: observed_kinds_def)
  next
    case 7
    with replicaset.observed_named [of K ns sel w res x] assms(2,3) show ?thesis
      by (intro exI [of _ KReplicaSet] exI [of _ "None"]) (simp add: observed_kinds_def)
  qed
qed

text \<open>
  What an observation reports. It succeeds exactly when the addon's selector, with the
  labels for the manager and the addon's name added, is valid and every listing succeeds;
  every resource it reports was listed with that selector; services, jobs and cron jobs
  are listed in the addon's namespace, the other kinds in all namespaces.
\<close>

lemma observed_resources:
  assumes "observeResources K a w = (observed, err)"
  shows "(err = None \<longleftrightarrow>
           (\<exists>sel. LabelSelectorAsSelector K (observe_selector a) = Inr sel \<and>
             (\<forall>(k, ns) \<in> observed_kinds (GetNamespace a). \<exists>items. kube_List K k ns sel w = Inr items))) \<and>
         (\<forall>x \<in> set observed. \<exists>sel k ns items y.
             LabelSelectorAsSelector K (observe_selector a) = Inr sel \<and>
             (k, ns) \<in> observed_kinds (GetNamespace a) \<and> kube_List K k ns sel w = Inr items \<and>
             y \<in> set items \<and> Object_Name x = KObject_Name y)"
proof (cases "LabelSelectorAsSelector K (observe_selector a)")
  case (Inl e)
  then show ?thesis using assms by (auto simp: observeResources_def)
next
  case (Inr sel)
  let ?o = "observe_all K a sel w observers"
  have err: "err = None \<longleftrightarrow> snd ?o = []" and obs: "observed = fst ?o"
    using assms Inr by (auto simp: observeResources_def split: prod.splits if_splits)
  have "snd ?o = [] \<longleftrightarrow>
      (\<forall>(k, ns) \<in> observed_kinds (GetNamespace a). \<exists>items. kube_List K k ns sel w = Inr items)"
    unfolding observe_all_ok by (simp add: observers_def observers_Inr observed_kinds_def)
  moreover have "\<exists>k ns items y. (k, ns) \<in> observed_kinds (GetNamespace a) \<and>
      kube_List K k ns sel w = Inr items \<and> y \<in> set items \<and> Object_Name x = KObject_Name y"
    if "x \<in> set (fst ?o)" for x
  proof -
    from that obtain name obsv res where "(name, obsv) \<in> set observers"
      "obsv K (GetNamespace a) sel w = Inr res" "x \<in> set res"
      unfolding observe_all_listed by blast
    then show ?thesis by (rule observer_lists)
  qed
  ultimately show ?thesis using err obs Inr by auto
qed

end
