(* ===== verification/Workflow_Controller.thy ===== *)
theory Workflow_Controller
  imports Addon_Updater
begin

text \<open>
  The workflow controller of \<^verbatim>\<open>controllers/workflow_controller.go\<close>: a reconciliation of an
  Argo workflow hands the phase of a workflow that an addon controls to the updater.
  \<open>metav1.GetControllerOf\<close> is the field \<open>Workflow_Controller\<close> of a workflow. None of the
  code it runs in this model can panic, so the deferred \<open>recover\<close> never acts.
\<close>

section \<open>Operation\<close>

text \<open>How the error of a failed read is printed by \<open>%#v\<close> is an argument.\<close>

definition WorkflowReconciler_Reconcile ::
    "'w kube \<Rightarrow> (goerr \<Rightarrow> string) \<Rightarrow> string \<Rightarrow> string \<Rightarrow> 'w mgr \<Rightarrow> goerr option \<times> 'w mgr" where
  "WorkflowReconciler_Reconcile K gofmt ns name t =
     (case kube_GetWorkflow K ns name (world t) of
        Inl err \<Rightarrow>
          if IsNotFound err then (None, t)
          else (Some (Errorf (''failed to get workflow '' @ ns @ ''/'' @ name @ '': '' @ gofmt err)), t)
      | Inr wfobj \<Rightarrow>
          if Workflow_DeletionTimestamp wfobj \<noteq> None then (None, t)
          else if Workflow_Phase wfobj = WorkflowUnknown then (None, t)
          else (case Workflow_Controller wfobj of
                  None \<Rightarrow>
                    (Some (Errorf (''workflow '' @ Workflow_Namespace wfobj @ ''/'' @ Workflow_Name wfobj
                       @ '' has no owner'')), t)
                | Some owner \<Rightarrow>
                    if Owner_Kind owner \<noteq> ''Addon'' then (None, t)
                    else UpdateAddonStatusLifecycleFromWorkflow K (Workflow_Namespace wfobj)
                           (Owner_Name owner) wfobj t))"

section \<open>Properties\<close>

text \<open>
  Which workflows reach the updater. Without a live workflow that has a phase and is
  controlled by an addon, the manager's state does not change. Otherwise the outcome is
  that of the updater for the addon of that name in the workflow's namespace; and in any
  case the manager's invariant is kept.
\<close>

lemma workflow_reconcile_effect:
  assumes "mgr_ok t"
  shows "(case kube_GetWorkflow K ns name (world t) of
      Inl err \<Rightarrow> snd (WorkflowReconciler_Reconcile K gofmt ns name t) = t \<and>
        (fst (WorkflowReconciler_Reconcile K gofmt ns name t) = None \<longleftrightarrow> IsNotFound err)
    | Inr wfobj \<Rightarrow>
        if Workflow_DeletionTimestamp wfobj = None \<and> Workflow_Phase wfobj \<noteq> WorkflowUnknown \<and>
           (\<exists>owner. Workflow_Controller wfobj = Some owner \<and> Owner_Kind owner = ''Addon'')
        then WorkflowReconciler_Reconcile K gofmt ns name t =
          UpdateAddonStatusLifecycleFromWorkflow K (Workflow_Namespace wfobj)
            (Owner_Name (the (Workflow_Controller wfobj))) wfobj t
        else snd (WorkflowReconciler_Reconcile K gofmt ns name t) = t) \<and>
    mgr_ok (snd (WorkflowReconciler_Reconcile K gofmt ns name t))"
  using assms mgr_ok_UpdateFromWorkflow [OF assms]
  by (auto simp: WorkflowReconciler_Reconcile_def split: sum.split option.split)

text \<open>
  A reconciliation of a workflow cannot undo a completed addon: if the addon that
  controls the workflow is completed, nothing changes, whatever the workflow's phase.
\<close>

lemma completed_addon_ignores_workflow:
  assumes "kube_GetWorkflow K ns name (world t) = Inr wfobj"
    and "Workflow_Controller wfobj = Some owner"
    and "kube_Get K (Workflow_Namespace wfobj) (Owner_Name owner) (world t) = Inr a"
    and "phase_Completed (GetInstallStatus a)"
  shows "snd (WorkflowReconciler_Reconcile K gofmt ns name t) = t"
  using assms UpdateFromWorkflow_ignored [OF assms(3)]
  by (simp add: WorkflowReconciler_Reconcile_def)

end
