(* ===== verification/Command_Flags.thy ===== *)
theory Command_Flags
  imports Go_Prelude
begin

text \<open>
  The command line of the manager: the parser of Go's package \<open>flag\<close> with the handling of errors of
  \<open>flag.CommandLine\<close>, which ends the process, the flags of \<^verbatim>\<open>main.go\<close>, and the version string of
  \<^verbatim>\<open>pkg/version/version.go\<close>.
\<close>

section \<open>The package flag\<close>

datatype flag_kind = BoolFlag | StringFlag

text \<open>The name and the value of an argument; an equal sign in the first place belongs to the name.\<close>

fun cut_value :: "string \<Rightarrow> string \<times> string option" where
  "cut_value [] = ([], None)"
| "cut_value (c # cs) =
     (if CHR ''='' \<in> set cs
      then (c # takeWhile (\<lambda>x. x \<noteq> CHR ''='') cs, Some (tl (dropWhile (\<lambda>x. x \<noteq> CHR ''='') cs)))
      else (c # cs, None))"

definition ParseBool :: "string \<Rightarrow> bool option" where
  "ParseBool s =
     (if s \<in> {''1'', ''t'', ''T'', ''TRUE'', ''true'', ''True''} then Some True
      else if s \<in> {''0'', ''f'', ''F'', ''FALSE'', ''false'', ''False''} then Some False
      else None)"

text \<open>One step of the parser: no more flags, an error, a request for help, or a flag with its value.\<close>

datatype flag_step = NoFlag | BadFlag | HelpFlag | SetBool string bool "string list" | SetString string string "string list"

definition parse_value :: "(string \<Rightarrow> flag_kind option) \<Rightarrow> string \<Rightarrow> string option \<Rightarrow> string list \<Rightarrow> flag_step" where
  "parse_value formal name v args =
     (case formal name of
        None \<Rightarrow> if name \<in> {''help'', ''h''} then HelpFlag else BadFlag
      | Some BoolFlag \<Rightarrow>
          (case v of
             None \<Rightarrow> SetBool name True args
           | Some x \<Rightarrow> (case ParseBool x of None \<Rightarrow> BadFlag | Some b \<Rightarrow> SetBool name b args))
      | Some StringFlag \<Rightarrow>
          (case v of
             Some x \<Rightarrow> SetString name x args
           | None \<Rightarrow> (case args of [] \<Rightarrow> BadFlag | x # args' \<Rightarrow> SetString name x args')))"

definition parseOne :: "(string \<Rightarrow> flag_kind option) \<Rightarrow> string list \<Rightarrow> flag_step" where
  "parseOne formal args =
     (case args of
        [] \<Rightarrow> NoFlag
      | s # args' \<Rightarrow>
          (if length s < 2 \<or> hd s \<noteq> CHR ''-'' \<or> s = ''--'' then NoFlag
           else (let name = (if s ! 1 = CHR ''-'' then drop 2 s else tl s)
                 in if hd name \<in> {CHR ''-'', CHR ''=''} then BadFlag
                    else (case cut_value name of (n, v) \<Rightarrow> parse_value formal n v args'))))"

lemma parse_value_shorter:
  "parse_value formal n v args = SetBool m b rest \<Longrightarrow> length rest \<le> length args"
  "parse_value formal n v args = SetString m x rest \<Longrightarrow> length rest \<le> length args"
  by (auto simp: parse_value_def split: option.splits flag_kind.splits list.splits if_splits)

lemma parseOne_shorter:
  "parseOne formal args = SetBool n b rest \<Longrightarrow> length rest < length args"
  "parseOne formal args = SetString n x rest \<Longrightarrow> length rest < length args"
  using parse_value_shorter
  by (fastforce simp: parseOne_def Let_def less_Suc_eq_le split: list.splits if_splits prod.splits)+

text \<open>
  The loop, over the variables \<open>'f\<close> that the flags are stored in. An error ends the process with the code
  2, a request for help with 0.
\<close>

datatype 'f parsed = Parsed 'f | Exit nat

function parse_flags ::
    "(string \<Rightarrow> flag_kind option) \<Rightarrow> (string \<Rightarrow> bool \<Rightarrow> 'f \<Rightarrow> 'f) \<Rightarrow> (string \<Rightarrow> string \<Rightarrow> 'f \<Rightarrow> 'f) \<Rightarrow> string list \<Rightarrow> 'f \<Rightarrow> 'f parsed" where
  "parse_flags formal setb sets args f =
     (case parseOne formal args of
        NoFlag \<Rightarrow> Parsed f
      | BadFlag \<Rightarrow> Exit 2
      | HelpFlag \<Rightarrow> Exit 0
      | SetBool n b rest \<Rightarrow> parse_flags formal setb sets rest (setb n b f)
      | SetString n x rest \<Rightarrow> parse_flags formal setb sets rest (sets n x f))"
  by pat_completeness auto
termination
  by (relation "measure (\<lambda>(_, _, _, args, _). length args)") (simp_all add: parseOne_shorter)

declare parse_flags.simps [simp del]

lemma parse_flags_Nil [simp]: "parse_flags formal setb sets [] f = Parsed f"
  by (subst parse_flags.simps) (simp add: parseOne_def)

section \<open>The flags of the manager\<close>

record flags =
  debug :: bool
  metricsAddr :: string
  enableLeaderElection :: bool

definition default_flags :: flags where
  "default_flags = \<lparr>debug = False, metricsAddr = '':8080'', enableLeaderElection = False\<rparr>"

text \<open>Imported packages register flags of their own, with a string as value; \<open>others\<close> are their names.\<close>

definition formal_flag :: "string list \<Rightarrow> string \<Rightarrow> flag_kind option" where
  "formal_flag others n =
     (if n = ''metrics-addr'' then Some StringFlag
      else if n = ''enable-leader-election'' \<or> n = ''debug'' then Some BoolFlag
      else if n \<in> set others then Some StringFlag
      else None)"

definition set_bool :: "string \<Rightarrow> bool \<Rightarrow> flags \<Rightarrow> flags" where
  "set_bool n b f =
     (if n = ''enable-leader-election'' then f\<lparr>enableLeaderElection := b\<rparr>
      else if n = ''debug'' then f\<lparr>debug := b\<rparr> else f)"

definition set_string :: "string \<Rightarrow> string \<Rightarrow> flags \<Rightarrow> flags" where
  "set_string n x f = (if n = ''metrics-addr'' then f\<lparr>metricsAddr := x\<rparr> else f)"

definition main_init :: "string list \<Rightarrow> string list \<Rightarrow> flags parsed" where
  "main_init others args = parse_flags (formal_flag others) set_bool set_string args default_flags"

section \<open>The version\<close>

definition version_ToString :: "string \<Rightarrow> string \<Rightarrow> string \<Rightarrow> string" where
  "version_ToString v gitCommit buildDate =
     ''{\"version\": \"'' @ v @ ''\", \"gitCommit\": \"'' @ gitCommit @ ''\", \"buildDate\": \"'' @ buildDate @ ''\"}''"

section \<open>What is parsed\<close>

fun bool_text :: "bool \<Rightarrow> string" where
  "bool_text True = ''true''"
| "bool_text False = ''false''"

definition flag_args :: "flags \<Rightarrow> string list" where
  "flag_args f =
     [''--metrics-addr'', metricsAddr f, ''-enable-leader-election='' @ bool_text (enableLeaderElection f),
      ''-debug='' @ bool_text (debug f)]"

lemma parse_bool_arg:
  assumes "formal n = Some BoolFlag" and "n \<noteq> []" and "CHR ''='' \<notin> set n" and "hd n \<noteq> CHR ''-''"
  shows "parseOne formal ((CHR ''-'' # n @ ''='' @ bool_text b) # args) = SetBool n b args"
proof -
  obtain c cs where n: "n = c # cs" using assms(2) by (cases n) auto
  have ps: "\<And>x. x \<in> set cs \<Longrightarrow> x \<noteq> CHR ''=''" using assms(3) n by auto
  have "cut_value (n @ ''='' @ bool_text b) = (n, Some (bool_text b))"
    using ps by (simp add: n takeWhile_append2 dropWhile_append2)
  moreover have "ParseBool (bool_text b) = Some b" by (cases b) (simp_all add: ParseBool_def)
  ultimately show ?thesis
    using assms n by (auto simp: parseOne_def parse_value_def Let_def)
qed

lemma parse_flags_step:
  "parseOne formal args = SetBool n b rest \<Longrightarrow>
    parse_flags formal setb sets args f = parse_flags formal setb sets rest (setb n b f)"
  "parseOne formal args = SetString n x rest \<Longrightarrow>
    parse_flags formal setb sets args f = parse_flags formal setb sets rest (sets n x f)"
  by (subst parse_flags.simps, simp)+

text \<open>Flags that are written out are read back, whatever address is given; a later flag wins.\<close>

lemma flag_args_roundtrip:
  "main_init others (flag_args f @ rest) = parse_flags (formal_flag others) set_bool set_string rest f"
proof -
  have addr: "parseOne (formal_flag others) (''--metrics-addr'' # x # args) = SetString ''metrics-addr'' x args" for x args
    by (simp add: parseOne_def parse_value_def formal_flag_def)
  have leader: "parseOne (formal_flag others) ((''-enable-leader-election='' @ bool_text b) # args) =
      SetBool ''enable-leader-election'' b args" for b args
    using parse_bool_arg [of "formal_flag others" "''enable-leader-election''" b args] by (simp add: formal_flag_def)
  have dbg: "parseOne (formal_flag others) ((''-debug='' @ bool_text b) # args) = SetBool ''debug'' b args" for b args
    using parse_bool_arg [of "formal_flag others" "''debug''" b args] by (simp add: formal_flag_def)
  have args: "flag_args f @ rest = ''--metrics-addr'' # metricsAddr f #
      (''-enable-leader-election='' @ bool_text (enableLeaderElection f)) # (''-debug='' @ bool_text (debug f)) # rest"
    by (simp add: flag_args_def)
  show ?thesis
    unfolding main_init_def args parse_flags_step(2) [OF addr] parse_flags_step(1) [OF leader]
      parse_flags_step(1) [OF dbg]
    by (cases f) (simp add: set_bool_def set_string_def default_flags_def)
qed

text \<open>
  The first argument that is no flag ends the parsing without an error: with \<open>-debug false -enable-leader-election\<close>
  debugging is on and the election is off.
\<close>

lemma flags_end_at_argument:
  assumes "hd x \<noteq> CHR ''-''"
  shows "parse_flags formal setb sets (x # args) f = Parsed f"
  using assms by (subst parse_flags.simps) (simp add: parseOne_def)

lemma bool_flag_takes_no_argument:
  "main_init others [''-debug'', ''false'', ''-enable-leader-election''] = Parsed (default_flags\<lparr>debug := True\<rparr>)"
  unfolding main_init_def
  by (subst parse_flags.simps) (simp add: parseOne_def parse_value_def formal_flag_def set_bool_def flags_end_at_argument)

end
