(* ===== verification/Manager_Setup.thy ===== *)
theory Manager_Setup
  imports Addon_Controller Workflow_Controller Command_Flags
begin

text \<open>
  The start of the manager: \<^verbatim>\<open>main.go\<close>, \<^verbatim>\<open>controllers/controller_manager_setup.go\<close>, the constructors
  of the two controllers and of their clients, and \<^verbatim>\<open>pkg/common/scheme.go\<close>. The calls into
  controller-runtime and client-go that may fail are the fields of \<open>start_lib\<close>; the state is what
  has been registered so far; logging is left out. Then the requests that an event on a registered source leads to.
\<close>

section \<open>Registration\<close>

datatype source = SrcAddon | SrcWorkflow | SrcKind kkind

record registry =
  addon_sources :: "source list"
  wf_sources :: "source list"
  runnables :: nat

definition empty_registry :: registry where
  "empty_registry = \<lparr>addon_sources = [], wf_sources = [], runnables = 0\<rparr>"

text \<open>
  The options that \<open>main\<close> gives to the manager. A scheme is named by the packages whose types are added
  to it; the cache is limited to the namespaces that are listed.
\<close>

record Options =
  Options_Scheme :: "string list"
  BindAddress :: string
  LeaderElection :: bool
  LeaderElectionID :: string
  DefaultNamespaces :: "string list"

record 'c start_lib =
  lib_AddToScheme :: "string \<Rightarrow> goerr option"
  lib_GetConfigOrDie :: "goerr option"
  lib_NewManager :: "Options \<Rightarrow> goerr option"
  wf_NewForConfig :: "goerr + 'c"
  dynamic_NewForConfigOrDie :: "string option"
  mgr_Add :: "goerr option"
  controller_New :: "goerr option"
  controller_Watch :: "source \<Rightarrow> goerr option"
  builder_Complete :: "source \<Rightarrow> goerr option"
  mgr_Start :: "goerr option"

definition NewAddonReconciler :: "'c start_lib \<Rightarrow> (registry, 'c) gom" where
  "NewAddonReconciler L =
     (case NewWFClient (wf_NewForConfig L) of None \<Rightarrow> gpanic ''workflow client could not be nil'' | Some wfcli \<Rightarrow> gret wfcli)"

definition Watch :: "'c start_lib \<Rightarrow> source \<Rightarrow> (registry, goerr option) gom" where
  "Watch L src = (\<lambda>s. case controller_Watch L src of
     Some err \<Rightarrow> (Ret (Some err), s)
   | None \<Rightarrow> (Ret None, s\<lparr>addon_sources := addon_sources s @ [src]\<rparr>))"

definition NewAddonController :: "'c start_lib \<Rightarrow> (registry, goerr option) gom" where
  "NewAddonController L =
     gbind (NewAddonReconciler L) (\<lambda>r.
       case controller_New L of
         Some err \<Rightarrow> gret (Some err)
       | None \<Rightarrow>
           ethen (Watch L SrcAddon)
           (ethen (Watch L (SrcKind KDeployment))
           (ethen (Watch L (SrcKind KService))
           (ethen (Watch L (SrcKind KDaemonSet))
           (ethen (Watch L (SrcKind KReplicaSet))
           (ethen (Watch L (SrcKind KStatefulSet))
             (Watch L (SrcKind KJob))))))))"

definition NewWFController :: "'c start_lib \<Rightarrow> (registry, goerr option) gom" where
  "NewWFController L = (\<lambda>s. case builder_Complete L SrcWorkflow of
     Some err \<Rightarrow> (Ret (Some err), s)
   | None \<Rightarrow> (Ret None, s\<lparr>wf_sources := wf_sources s @ [SrcWorkflow]\<rparr>))"

text \<open>\<open>fmt.Errorf\<close> with \<^verbatim>\<open>%w\<close> around the error of a step.\<close>

definition wrapping :: "string \<Rightarrow> (registry, goerr option) gom \<Rightarrow> (registry, goerr option) gom" where
  "wrapping m f = gbind f (\<lambda>err. gret (map_option (Wrapf m) err))"

definition add_informers :: "'c start_lib \<Rightarrow> (registry, goerr option) gom" where
  "add_informers L = (\<lambda>s. case mgr_Add L of
     Some err \<Rightarrow> (Ret (Some err), s) | None \<Rightarrow> (Ret None, s\<lparr>runnables := Suc (runnables s)\<rparr>))"

definition controllers_New :: "'c start_lib \<Rightarrow> (registry, goerr option) gom" where
  "controllers_New L =
     (case dynamic_NewForConfigOrDie L of
        Some m \<Rightarrow> gpanic m
      | None \<Rightarrow>
          ethen (wrapping ''failed to run informer sync: '' (add_informers L))
          (ethen (wrapping ''failed to create addon controller: '' (NewAddonController L))
            (wrapping ''failed to create addon wf controller: '' (NewWFController L))))"

text \<open>The state that the two controllers share when they are created.\<close>

definition new_mgr :: "'w \<Rightarrow> 'w mgr" where
  "new_mgr w = \<lparr>world = w, versionCache = NewAddonVersionCacheClient, mutexMap = NewAddonUpdater, events = []\<rparr>"

text \<open>The registration of types with the scheme, package by package, before \<open>main\<close> runs.\<close>

definition scheme_packages :: "string list" where
  "scheme_packages = [''clientgoscheme'', ''apiextensionsv1'', ''wfv1'', ''addonmgrv1alpha1'']"

definition scheme_init :: "'c start_lib \<Rightarrow> (registry, unit) gom" where
  "scheme_init L = gfor (\<lambda>pkg. case lib_AddToScheme L pkg of Some err \<Rightarrow> gpanic (Error err) | None \<Rightarrow> gret ())
     scheme_packages"

definition GetAddonMgrScheme :: "string list" where
  "GetAddonMgrScheme = scheme_packages"

definition manager_Options :: "flags \<Rightarrow> Options" where
  "manager_Options f =
     \<lparr>Options_Scheme = GetAddonMgrScheme, BindAddress = metricsAddr f, LeaderElection = enableLeaderElection f,
      LeaderElectionID = ''addonmgr.keikoproj.io'', DefaultNamespaces = [ManagedNameSpace]\<rparr>"

text \<open>\<open>main\<close> with its exit code; \<open>os.Exit(1)\<close>, also that of \<open>GetConfigOrDie\<close>, is the code 1.\<close>

definition exit_code :: "goerr option \<Rightarrow> nat" where
  "exit_code err = (if err \<noteq> None then 1 else 0)"

definition main :: "'c start_lib \<Rightarrow> flags \<Rightarrow> (registry, nat) gom" where
  "main L f =
     (if lib_GetConfigOrDie L \<noteq> None then gret 1
      else if lib_NewManager L (manager_Options f) \<noteq> None then gret 1
      else gbind (controllers_New L) (\<lambda>err.
        if err \<noteq> None then gret 1 else gret (exit_code (mgr_Start L))))"

text \<open>
  The process: the scheme is filled when the package \<open>common\<close> is initialized, the flags are parsed when \<open>main\<close>
  is, and then \<open>main\<close> runs.
\<close>

definition process :: "'c start_lib \<Rightarrow> string list \<Rightarrow> string list \<Rightarrow> (registry, nat) gom" where
  "process L others args =
     gbind (scheme_init L) (\<lambda>_.
       case main_init others args of Exit code \<Rightarrow> gret code | Parsed f \<Rightarrow> main L f)"

section \<open>Events\<close>

record watched = labelled +
  watched_Namespace :: string
  watched_Name :: string

text \<open>The handler that each source is registered with.\<close>

fun requests :: "order \<Rightarrow> cached \<Rightarrow> source \<Rightarrow> watched \<Rightarrow> (string \<times> string) list" where
  "requests \<rho> c SrcAddon ob = [(watched_Namespace ob, watched_Name ob)]"
| "requests \<rho> c SrcWorkflow ob = [(watched_Namespace ob, watched_Name ob)]"
| "requests \<rho> c (SrcKind k) ob =
     (if k = KDeployment then mapDeploymentToAddonRequests \<rho> c (labelled.truncate ob)
      else if k = KService then mapServiceToAddonRequests \<rho> c (labelled.truncate ob)
      else if k = KDaemonSet then mapDaemonSetToAddonRequests \<rho> c (labelled.truncate ob)
      else if k = KReplicaSet then mapReplicaSetToAddonRequests \<rho> c (labelled.truncate ob)
      else if k = KStatefulSet then mapStatefulSetToAddonRequests \<rho> c (labelled.truncate ob)
      else if k = KJob then mapJobToAddonRequests \<rho> c (labelled.truncate ob)
      else [])"

lemmas map_requests_defs = mapDeploymentToAddonRequests_def mapServiceToAddonRequests_def
  mapDaemonSetToAddonRequests_def mapReplicaSetToAddonRequests_def mapStatefulSetToAddonRequests_def
  mapJobToAddonRequests_def

definition watched_kinds :: "kkind set" where
  "watched_kinds = {KDeployment, KService, KDaemonSet, KReplicaSet, KStatefulSet, KJob}"

lemma ethen_None:
  assumes "ethen m n s = (Ret None, s')"
  obtains s1 where "m s = (Ret None, s1)" and "n s1 = (Ret None, s')"
  using assms by (auto simp: ethen_def gbind_def split: prod.splits outcome.splits option.splits)

lemma Watch_None: "Watch L src s = (Ret None, s') \<Longrightarrow> s' = s\<lparr>addon_sources := addon_sources s @ [src]\<rparr>"
  by (auto simp: Watch_def split: option.splits)

lemma wrapping_None [simp]: "wrapping m f s = (Ret None, s') \<longleftrightarrow> f s = (Ret None, s')"
  by (auto simp: wrapping_def gbind_def split: prod.splits outcome.splits)

lemma NewAddonController_None:
  assumes "NewAddonController L s = (Ret None, s')"
  shows "set (addon_sources s') = insert SrcAddon (SrcKind ` watched_kinds) \<union> set (addon_sources s) \<and>
    wf_sources s' = wf_sources s \<and> runnables s' = runnables s"
proof -
  have "\<exists>cli. NewWFClient (wf_NewForConfig L) = Some cli" and new: "controller_New L = None"
    using assms by (auto simp: NewAddonController_def NewAddonReconciler_def gbind_def split: option.splits)
  then obtain cli where cli: "NewWFClient (wf_NewForConfig L) = Some cli" by blast
  show ?thesis
    using assms cli new
    by (auto simp: NewAddonController_def NewAddonReconciler_def watched_kinds_def elim!: ethen_None dest!: Watch_None)
qed

text \<open>
  C30: From an event to a reconciliation. Once the manager has started without an error, it
  watches addons, workflows and six kinds of resources. An event on one of these resources
  whose label names an addon enqueues one request: for an addon of that name in the version
  cache, in the namespace that the cache has for it. When no such addon is cached, or the
  resource has no such label, nothing is enqueued.
\<close>

theorem watch_dispatch:
  assumes "controllers_New L empty_registry = (Ret None, s)" and "rng_ok \<rho>" and "cache_ok c"
    and "k \<in> watched_kinds"
  shows "SrcKind k \<in> set (addon_sources s) \<and> SrcAddon \<in> set (addon_sources s) \<and> wf_sources s = [SrcWorkflow] \<and>
    (case map_of (GetLabels ob) ResourceDefaultOwnLabel of
       None \<Rightarrow> requests \<rho> c (SrcKind k) ob = []
     | Some n \<Rightarrow>
         if TrimSpace n \<noteq> [] \<and> (\<exists>p q v. entry_of c (p, q) = Some v \<and> Version_Name v = n)
         then \<exists>p q v. entry_of c (p, q) = Some v \<and> Version_Name v = n \<and>
           requests \<rho> c (SrcKind k) ob = [(Version_Namespace v, n)]
         else requests \<rho> c (SrcKind k) ob = [])"
proof -
  obtain s1 s2 where steps: "add_informers L empty_registry = (Ret None, s1)" "NewAddonController L s1 = (Ret None, s2)"
    "NewWFController L s2 = (Ret None, s)"
    using assms(1) by (auto simp: controllers_New_def elim!: ethen_None split: option.splits)
  have "SrcKind k \<in> set (addon_sources s) \<and> SrcAddon \<in> set (addon_sources s) \<and> wf_sources s = [SrcWorkflow]"
    using steps(1,3) NewAddonController_None [OF steps(2)] assms(4)
    by (auto simp: add_informers_def NewWFController_def empty_registry_def split: option.splits)
  moreover have req: "requests \<rho> c (SrcKind k) ob = getAddonRequestsFromLabels \<rho> c (GetLabels ob)"
    using assms(4) by (auto simp: watched_kinds_def map_requests_defs labelled.truncate_def)
  moreover have "(case HasVersionName \<rho> c n of None \<Rightarrow> [] | Some v \<Rightarrow> [(Version_Namespace v, Version_Name v)]) = []"
    if "\<not> (\<exists>p q v. entry_of c (p, q) = Some v \<and> Version_Name v = n)" for n
    using HasVersionName_None [OF assms(2,3), of n] that by (auto split: option.split)
  moreover have "\<exists>p q v. entry_of c (p, q) = Some v \<and> Version_Name v = n \<and>
      (case HasVersionName \<rho> c n of None \<Rightarrow> [] | Some v \<Rightarrow> [(Version_Namespace v, Version_Name v)]) = [(Version_Namespace v, n)]"
    if "\<exists>p q v. entry_of c (p, q) = Some v \<and> Version_Name v = n" for n
    using HasVersionName_None [OF assms(2,3), of n] HasVersionName_Some [OF assms(2,3), of n] that
    by (cases "HasVersionName \<rho> c n") auto
  ultimately show ?thesis
    by (auto simp: getAddonRequestsFromLabels_def split: option.split)
qed

text \<open>
  A process that ends without an error code has run both controllers, on a manager with the options of the
  command line that watches only the managed namespace; the only other way is a request for help.
\<close>

lemma scheme_init_state: "scheme_init L s = (Ret (), s') \<Longrightarrow> s' = s"
proof -
  have "gfor (\<lambda>pkg. case lib_AddToScheme L pkg of Some err \<Rightarrow> gpanic (Error err) | None \<Rightarrow> gret ()) rs s =
      (Ret (), s') \<Longrightarrow> s' = s" for rs
    by (induction rs) (auto simp: gbind_def split: option.splits)
  then show "scheme_init L s = (Ret (), s') \<Longrightarrow> s' = s" unfolding scheme_init_def by blast
qed

lemma main_started:
  assumes "main L f s = (Ret 0, s')"
  shows "lib_NewManager L (manager_Options f) = None \<and> controllers_New L s = (Ret None, s') \<and> mgr_Start L = None"
  using assms by (auto simp: main_def gbind_def exit_code_def split: prod.splits outcome.splits option.splits if_splits)

lemma process_started:
  assumes "process L others (flag_args f) s = (Ret 0, s')"
  shows "lib_NewManager L \<lparr>Options_Scheme = scheme_packages, BindAddress = metricsAddr f,
      LeaderElection = enableLeaderElection f, LeaderElectionID = ''addonmgr.keikoproj.io'',
      DefaultNamespaces = [ManagedNameSpace]\<rparr> = None \<and>
    controllers_New L s = (Ret None, s') \<and> mgr_Start L = None"
proof -
  have "main_init others (flag_args f) = Parsed f"
    using flag_args_roundtrip [of others f "[]"] by simp
  then have "main L f s = (Ret 0, s')"
    using assms scheme_init_state [of L s] by (auto simp: process_def gbind_def split: prod.splits outcome.splits)
  then show ?thesis using main_started [of L f s s'] by (simp add: manager_Options_def GetAddonMgrScheme_def)
qed

text \<open>Cron jobs are observed, but no event on one leads to a request.\<close>

lemma cron_jobs_not_watched:
  "(KCronJob, Some ns) \<in> observed_kinds ns" "KCronJob \<notin> watched_kinds" "requests \<rho> c (SrcKind KCronJob) ob = []"
  by (simp_all add: observed_kinds_def watched_kinds_def)

definition good_lib :: "unit start_lib" where
  "good_lib = \<lparr>lib_AddToScheme = (\<lambda>_. None), lib_GetConfigOrDie = None, lib_NewManager = (\<lambda>_. None),
     wf_NewForConfig = Inr (), dynamic_NewForConfigOrDie = None, mgr_Add = None, controller_New = None,
     controller_Watch = (\<lambda>_. None), builder_Complete = (\<lambda>_. None), mgr_Start = None\<rparr>"

theorem watch_dispatch_witness:
  "requests rev (versionCache occupied_mgr) (SrcKind KJob)
     \<lparr>GetLabels = [(ResourceDefaultOwnLabel, ''a'')], watched_Namespace = ''x'', watched_Name = ''j''\<rparr> = [(''ns'', ''a'')]"
proof -
  have start: "controllers_New good_lib empty_registry = (Ret None, snd (controllers_New good_lib empty_registry))"
    by (simp add: controllers_New_def good_lib_def wrapping_def add_informers_def NewAddonController_def
        NewAddonReconciler_def NewWFClient_def Watch_def NewWFController_def ethen_def gbind_def gret_def)
  have ok: "cache_ok (versionCache occupied_mgr)" using occupied_mgr_ok by (simp add: mgr_ok_def)
  have e: "entry_of (versionCache occupied_mgr) (p, q) = (if p = ''p'' \<and> q = ''1.0''
      then Some (sample_version ''a'' ''p'' ''1.0'' [] Succeeded) else None)" for p q
    by (simp add: occupied_mgr_def cache_run_def NewAddonVersionCacheClient_def AddVersion_def entry_of_def
        sample_version_def)
  show ?thesis
    using watch_dispatch [OF start rng_ok_rev ok, of KJob
        "\<lparr>GetLabels = [(ResourceDefaultOwnLabel, ''a'')], watched_Namespace = ''x'', watched_Name = ''j''\<rparr>"]
    by (auto simp: e watched_kinds_def sample_version_def TrimSpace_def is_space_def split: if_splits)
qed

end
