(* ===== verification/Histories.thy ===== *)
theory Histories
  imports Manager_Setup
begin

text \<open>
  The two controllers together, over whole histories: any interleaving of reconciliations of
  any addons and workflows, at any time and with any iteration order, with changes from
  outside (users, Argo, the garbage collector) in between. Shown: the manager's invariant in every
  state that is reached; a reconciliation of one addon leaves the reads of all others alone; an
  installed or failed addon stays so in every history in which nobody outside changes it.
\<close>

section \<open>Steps\<close>

text \<open>
  A reconciliation is one step; \<open>R\<close> relates the world before and after a change from outside.
\<close>

inductive sys_step ::
    "('w, 'f, 'c, 'sv) env \<Rightarrow> ('w \<Rightarrow> 'w \<Rightarrow> bool) \<Rightarrow> 'w mgr \<Rightarrow> 'w mgr \<Rightarrow> bool" for E R where
  addon_step: "rng_ok \<rho> \<Longrightarrow>
    sys_step E R t (snd (AddonReconciler_Reconcile (E\<lparr>now := \<tau>, env_order := \<rho>\<rparr>) ns n t))"
| workflow_step: "sys_step E R t (snd (WorkflowReconciler_Reconcile (env_kube E) gofmt ns n t))"
| outside_step: "R (world t) w \<Longrightarrow> sys_step E R t (t\<lparr>world := w\<rparr>)"

inductive_cases sys_stepE: "sys_step E R t t'"

lemma new_mgr_ok: "mgr_ok (new_mgr w)"
  using cache_run_ok [of "[]"] cache_run_keyed [of "[]"] by (simp add: mgr_ok_def new_mgr_def NewAddonUpdater_def cache_run_def)

lemma mgr_ok_step: "sys_step E R t t' \<Longrightarrow> mgr_ok t \<Longrightarrow> mgr_ok t'"
  by (auto elim!: sys_stepE simp: mgr_ok_Reconcile WorkflowReconciler_Reconcile_def mgr_ok_UpdateFromWorkflow
      split: sum.split option.split)



section \<open>Reads of one addon\<close>

text \<open>
  What the API promises about objects other than the one written: their reads do not change, an
  answer names the object that was sent, and workflows are not addons (\<open>frame_law\<close>). A
  failed status write changes no read; a successful one of an object that was just read stores the
  status and keeps spec and deletion mark (\<open>status_law\<close>).
\<close>

definition frame_law :: "'w kube \<Rightarrow> ('w, 'f) wf_lib \<Rightarrow> bool" where
  "frame_law K U \<longleftrightarrow>
     (\<forall>a w ns n. (GetNamespace a, GetName a) \<noteq> (ns, n) \<longrightarrow>
        kube_Get K ns n (snd (kube_StatusUpdate K a w)) = kube_Get K ns n w \<and>
        kube_Get K ns n (snd (kube_Update K a w)) = kube_Get K ns n w) \<and>
     (\<forall>a w b. fst (kube_Update K a w) = Inr b \<longrightarrow> GetNamespace b = GetNamespace a \<and> GetName b = GetName a) \<and>
     (\<forall>ns' x w ns n. kube_Get K ns n (snd (argo_Delete K ns' x w)) = kube_Get K ns n w) \<and>
     (\<forall>ns' x w ns n. kube_Get K ns n (snd (argo_Create U ns' x w)) = kube_Get K ns n w)"

definition status_law :: "'w kube \<Rightarrow> bool" where
  "status_law K \<longleftrightarrow>
     (\<forall>a w e w' ns n. kube_StatusUpdate K a w = (Some e, w') \<longrightarrow> kube_Get K ns n w' = kube_Get K ns n w) \<and>
     (\<forall>ns n cur st w w'. kube_Get K ns n w = Inr cur \<and> kube_StatusUpdate K (cur\<lparr>Status := st\<rparr>) w = (None, w') \<longrightarrow>
        (\<exists>b. kube_Get K ns n w' = Inr b \<and> Status b = st \<and> Spec b = Spec cur \<and>
             DeletionTimestamp (Addon_Meta b) = DeletionTimestamp (Addon_Meta cur)))"

text \<open>The read of the addon \<open>ns\<close>/\<open>n\<close> is \<open>g\<close>, while the instance at hand is another addon, \<open>k\<close>.\<close>

definition beside :: "'w kube \<Rightarrow> string \<Rightarrow> string \<Rightarrow> goerr + Addon \<Rightarrow> string \<times> string \<Rightarrow> 'w ctl \<Rightarrow> bool" where
  "beside K ns n g k s \<longleftrightarrow> kube_Get K ns n (world (mgr_of s)) = g \<and>
     (GetNamespace (inst s), GetName (inst s)) = k \<and> k \<noteq> (ns, n)"

lemma beside_emit [simp]: "beside K ns n g k (snd (emit ty rs msg s)) = beside K ns n g k s"
  by (simp add: beside_def emit_def record_event_def)

lemma beside_on_inst:
  "beside K ns n g k s \<Longrightarrow> (\<And>a. Addon_Meta (f a) = Addon_Meta a) \<Longrightarrow> beside K ns n g k (snd (on_inst f s))"
  by (simp add: beside_def on_inst_def)

lemma beside_inst [simp]:
  "Addon_Meta a = Addon_Meta (inst s) \<Longrightarrow> beside K ns n g k (s\<lparr>inst := a\<rparr>) = beside K ns n g k s"
  by (simp add: beside_def)

lemma beside_event [simp]:
  "beside K ns n g k (s\<lparr>mgr_of := record_event ty rs msg (mgr_of s)\<rparr>) = beside K ns n g k s"
  "Addon_Meta a = Addon_Meta (inst s) \<Longrightarrow>
     beside K ns n g k (s\<lparr>inst := a, mgr_of := record_event ty rs msg (mgr_of s)\<rparr>) = beside K ns n g k s"
  by (simp_all add: beside_def record_event_def)

lemma beside_on_mgr:
  assumes "beside K ns n g k s"
    and "\<And>t. kube_Get K ns n (world t) = g \<Longrightarrow> kube_Get K ns n (world (snd (m t))) = g"
  shows "beside K ns n g k (snd (on_mgr m s))"
  using assms by (simp add: beside_def on_mgr_def split_def)

text \<open>Retries of a status write of another addon.\<close>

lemma attempts_beside:
  assumes "frame_law K U" and "get_law K" and "(GetNamespace a, GetName a) \<noteq> (ns, n)"
    and "attempts (status_attempt K a) ws r" and "kube_Get K ns n (fst ws) = g"
  shows "kube_Get K ns n (fst (snd r)) = g"
proof -
  have step: "kube_Get K ns n (fst (snd (status_attempt K a ws))) = kube_Get K ns n (fst ws)" for ws
  proof -
    obtain w gd where ws: "ws = (w, gd)" by (cases ws)
    have "kube_Get K ns n (snd (kube_StatusUpdate K (cur\<lparr>Status := Status a\<rparr>) w)) = kube_Get K ns n w"
      if "kube_Get K (GetNamespace a) (GetName a) w = Inr cur" for cur
    proof -
      have "GetNamespace cur = GetNamespace a" "GetName cur = GetName a"
        using assms(2) that by (auto simp: get_law_def)
      then have "(GetNamespace (cur\<lparr>Status := Status a\<rparr>), GetName (cur\<lparr>Status := Status a\<rparr>)) \<noteq> (ns, n)"
        using assms(3) by simp
      then show ?thesis using assms(1) unfolding frame_law_def by blast
    qed
    then show ?thesis
      by (auto simp: ws status_attempt_def split_def split: sum.split)
  qed
  from assms(4,5) show ?thesis
  proof (induction rule: attempts.induct)
    case (last_attempt s)
    then show ?case using step by simp
  next
    case (next_attempt s e s' r)
    then show ?case using step [of s] by simp
  qed
qed

lemma UpdateStatus_beside:
  assumes "frame_law K U" and "get_law K" and "retry_law K" and "(GetNamespace a, GetName a) \<noteq> (ns, n)"
  shows "kube_Get K ns n (world (snd (UpdateStatus K a t))) = kube_Get K ns n (world t)"
proof -
  let ?fn = "status_attempt K a"
  obtain e w gd where R: "RetryOnConflict K ?fn (world t, None) = (e, (w, gd))"
    by (cases "RetryOnConflict K ?fn (world t, None)") auto
  have "kube_Get K ns n w = kube_Get K ns n (world t)"
    using attempts_beside [OF assms(1,2,4) retry_attempts [OF assms(3), of ?fn "(world t, None)"] refl]
    by (simp add: R)
  then show ?thesis by (simp add: UpdateStatus_def Let_def R record_event_def split: option.split prod.split)
qed

text \<open>A lifecycle that leaves the reads of an addon alone, as submitting workflows does.\<close>

definition quiet :: "'w kube \<Rightarrow> 'w lifecycle \<Rightarrow> string \<Rightarrow> string \<Rightarrow> bool" where
  "quiet K wfl ns n \<longleftrightarrow>
     (\<forall>a wp t. kube_Get K ns n (world (snd (wfl a wp t))) = kube_Get K ns n (world t))"

lemma quiet_Install: "frame_law K U \<Longrightarrow> quiet K (workflowLifecycle_Install U \<rho>) ns n"
  unfolding quiet_def
proof (intro allI)
  fix a wp t assume law: "frame_law K U"
  have "kube_Get K ns n (snd (argo_Create U ns' x w)) = kube_Get K ns n w" for ns' x w
    using law unfolding frame_law_def by blast
  then have "kube_Get K ns n (world (snd (submit U a x t))) = kube_Get K ns n (world t)" for x
    by (simp add: submit_def record_event_def split: sum.split prod.split option.split) (metis snd_conv)
  then show "kube_Get K ns n (world (snd (workflowLifecycle_Install U \<rho> a wp t))) = kube_Get K ns n (world t)"
    by (simp add: Install_state split: outcome.split sum.split)
qed

lemma set_step_meta [simp]: "Addon_Meta (set_step st p a) = Addon_Meta a"
  by (simp add: set_step_def)

lemma runWorkflow_beside:
  assumes "quiet K wfl ns n" and "beside K ns n g k s"
  shows "beside K ns n g k (snd (runWorkflow K wfl st s))"
proof -
  have sync: "beside K ns n g k (snd (syncPhase K st x s))" if "beside K ns n g k s" for x s
    using that by (simp add: syncPhase_def Let_def beside_inst split: sum.split)
  have wfl: "kube_Get K ns n (world (snd (wfl a wp t))) = g" if "kube_Get K ns n (world t) = g" for a wp t
    using assms(1) that by (simp add: quiet_def)
  show ?thesis
    using assms(2)
    by (auto simp: runWorkflow_def Let_def sync wfl beside_inst
        intro!: gbind_inv [where I = "beside K ns n g k"] beside_on_mgr beside_on_inst
        split: sum.split option.split)
qed

lemma executePrereqAndInstall_beside:
  assumes "quiet K wfl ns n" and "beside K ns n g k s"
  shows "beside K ns n g k (snd (executePrereqAndInstall K wfl s))"
  using assms(2)
  by (auto simp: executePrereqAndInstall_def Let_def runWorkflow_beside [OF assms(1)]
      intro!: gbind_inv [where I = "beside K ns n g k"] beside_on_inst split: outcome.split option.split)

lemma kube_update_inst_beside:
  assumes "frame_law K U" and "beside K ns n g k s"
  shows "beside K ns n g k (snd (kube_update_inst K s))"
proof -
  obtain r w where u: "kube_Update K (inst s) (world (mgr_of s)) = (r, w)"
    by (cases "kube_Update K (inst s) (world (mgr_of s))")
  have "kube_Get K ns n (snd (kube_Update K (inst s) (world (mgr_of s)))) = kube_Get K ns n (world (mgr_of s))"
    using assms unfolding frame_law_def beside_def by blast
  then have get: "kube_Get K ns n w = g" using assms(2) by (simp add: u beside_def)
  show ?thesis
  proof (cases r)
    case (Inl e)
    then show ?thesis using assms(2) get u by (simp add: kube_update_inst_def beside_def)
  next
    case (Inr b)
    then have "fst (kube_Update K (inst s) (world (mgr_of s))) = Inr b" by (simp add: u)
    then have "GetNamespace b = GetNamespace (inst s) \<and> GetName b = GetName (inst s)"
      using assms(1) unfolding frame_law_def by blast
    then show ?thesis using assms(2) get u Inr by (simp add: kube_update_inst_def beside_def)
  qed
qed

lemma finalizer_beside:
  assumes "finalizer_law K" and "beside K ns n g k s"
  shows "beside K ns n g k (snd (on_inst (AddFinalizer K f) s))"
    "beside K ns n g k (snd (on_inst (RemoveFinalizer K f) s))"
proof -
  obtain fs fs' where "AddFinalizer K f (inst s) = with_finalizers fs (inst s)"
    "RemoveFinalizer K f (inst s) = with_finalizers fs' (inst s)"
    using assms(1) unfolding finalizer_law_def by metis
  then show "beside K ns n g k (snd (on_inst (AddFinalizer K f) s))"
    "beside K ns n g k (snd (on_inst (RemoveFinalizer K f) s))"
    using assms(2) by (simp_all add: on_inst_def beside_def)
qed

lemma beside_remove:
  "beside K ns n g k s \<Longrightarrow> beside K ns n g k (s\<lparr>mgr_of := (mgr_of s)\<lparr>versionCache := c\<rparr>\<rparr>)"
  by (simp add: beside_def)

lemma Finalize_beside:
  assumes "frame_law K U" and "finalizer_law K" and "quiet K wfl ns n" and "beside K ns n g k s"
  shows "beside K ns n g k (snd (Finalize K wfl f s))"
proof -
  have drop: "beside K ns n g k (snd (dropFinalizer K f b s))" if "beside K ns n g k s" for b s
    using that
    by (auto simp: dropFinalizer_def beside_remove kube_update_inst_beside [OF assms(1)]
        intro!: gbind_inv [where I = "beside K ns n g k"] finalizer_beside [OF assms(2)]
        split: option.split)
  show ?thesis
    using assms(4)
    by (auto simp: Finalize_def runWorkflow_beside [OF assms(3)] drop
        intro!: gbind_inv [where I = "beside K ns n g k"] split: option.split)
qed

lemma observeAddon_beside:
  assumes "beside K ns n g k s"
  shows "beside K ns n g k (snd (observeAddon K s))"
proof -
  have meta: "Addon_Meta (share_labels a) = Addon_Meta a" for a by (simp add: share_labels_def)
  show ?thesis
    using assms
    by (auto simp: observeAddon_def Let_def meta intro!: gbind_inv [where I = "beside K ns n g k"] beside_on_inst
        split: option.split prod.split)
qed

lemma installAddon_beside:
  assumes "quiet K wfl ns n" and "beside K ns n g k s"
  shows "beside K ns n g k (snd (installAddon K wfl t s))"
  using assms(2)
  by (auto simp: installAddon_def Let_def executePrereqAndInstall_beside [OF assms(1)] observeAddon_beside
      intro!: gbind_inv [where I = "beside K ns n g k"] beside_on_inst split: option.split)

lemma deleteOldWorkflows_beside:
  assumes "frame_law K U"
  shows "kube_Get K ns n (world (snd (deleteOldWorkflows K a t))) = kube_Get K ns n (world t)"
proof -
  have "kube_Get K ns n (snd (argo_Delete K ns' x w)) = kube_Get K ns n w" for ns' x w
    using assms unfolding frame_law_def by blast
  then have "kube_Get K ns n (delete_workflows K ns' fs w) = kube_Get K ns n w" for ns' fs w
    by (induction K ns' fs w rule: delete_workflows.induct) simp_all
  then show ?thesis by (simp add: deleteOldWorkflows_def split: sum.split)
qed

lemma processAddon_beside:
  assumes "frame_law (env_kube E) U" and "finalizer_law (env_kube E)" and "quiet (env_kube E) wfl ns n"
    and "beside (env_kube E) ns n g k s"
  shows "beside (env_kube E) ns n g k (snd (processAddon E wfl s))"
proof -
  let ?K = "env_kube E"
  have reject: "beside ?K ns n g k (snd (rejectAddon e s))" if "beside ?K ns n g k s" for e s
    using that by (auto simp: rejectAddon_def Let_def)
  have fin: "beside ?K ns n g k (snd (SetFinalizer ?K f s))" if "beside ?K ns n g k s" for f s
    using that unfolding SetFinalizer_def
    by (auto intro!: gbind_inv [where I = "beside ?K ns n g k"] finalizer_beside [OF assms(2)]
        kube_update_inst_beside [OF assms(1)] simp del: gbind_on_inst)
  have restart: "beside ?K ns n g k (snd (restartAddon ?K t s))" if "beside ?K ns n g k s" for t s
    using that deleteOldWorkflows_beside [OF assms(1)]
    by (auto simp: restartAddon_def intro!: gbind_inv [where I = "beside ?K ns n g k"] beside_on_mgr
        split: option.split)
  have start: "beside ?K ns n g k (s\<lparr>inst := fresh_status (inst s)\<rparr>)" using assms(4) by simp
  show ?thesis
    unfolding processAddon_start Let_def using start
    by (auto simp: restart reject fin installAddon_beside [OF assms(3)]
        intro!: gbind_inv [where I = "beside ?K ns n g k"] split: option.split prod.split outcome.split)
qed

lemma UpdateStatus_inst_beside:
  assumes "frame_law K U" and "get_law K" and "retry_law K" and "beside K ns n g k s"
  shows "beside K ns n g k (snd (on_mgr (ret_mgr (UpdateStatus K (inst s))) s))"
proof -
  have "(GetNamespace (inst s), GetName (inst s)) \<noteq> (ns, n)" using assms(4) by (simp add: beside_def)
  from UpdateStatus_beside [OF assms(1-3) this] show ?thesis
    using assms(4) by (intro beside_on_mgr) simp_all
qed

lemma deleteAddon_beside:
  assumes "frame_law K U" and "finalizer_law K" and "get_law K" and "retry_law K" and "quiet K wfl ns n"
    and "beside K ns n g k s"
  shows "beside K ns n g k (snd (deleteAddon K wfl s))"
proof -
  have up: "beside K ns n g k (snd (gbind (on_mgr (ret_mgr (UpdateStatus K (inst s)))) (\<lambda>err. gret (zero_Result, err)) s))"
    if "beside K ns n g k s" for s
  proof -
    obtain r s1 where "on_mgr (ret_mgr (UpdateStatus K (inst s))) s = (r, s1)"
      by (cases "on_mgr (ret_mgr (UpdateStatus K (inst s))) s")
    then show ?thesis
      using UpdateStatus_inst_beside [OF assms(1,3,4) that] by (cases r) (simp_all add: gbind_def)
  qed
  show ?thesis
  proof (cases "phase_Deleting (GetInstallStatus (inst s))")
    case True
    then show ?thesis
      using assms(6)
      by (auto simp: deleteAddon_def Finalize_beside [OF assms(1,2,5)]
          intro!: gbind_inv [where I = "beside K ns n g k"] split: option.split)
  next
    case False
    then show ?thesis
      using assms(6) up [of "s\<lparr>inst := SetInstallStatus Deleting [] (inst s)\<rparr>"] by (simp add: deleteAddon_def)
  qed
qed

lemma Reconcile_beside:
  assumes "frame_law (env_kube E) (env_lib E)" and "finalizer_law (env_kube E)" and "get_law (env_kube E)"
    and "retry_law (env_kube E)" and "(ns', n') \<noteq> (ns, n)"
  shows "kube_Get (env_kube E) ns n (world (snd (AddonReconciler_Reconcile E ns' n' t))) =
    kube_Get (env_kube E) ns n (world t)"
proof (cases "kube_Get (env_kube E) ns' n' (world t)")
  case (Inl e)
  have "world (RemoveFromCache (env_order E) n' t) = world t"
    by (simp add: RemoveFromCache_def Let_def split: option.split)
  with Inl show ?thesis by (simp add: AddonReconciler_Reconcile_def)
next
  case (Inr a)
  let ?K = "env_kube E" and ?s = "\<lparr>mgr_of = t, inst = a\<rparr>"
  let ?wfl = "workflowLifecycle_Install (env_lib E) (env_order E)"
  let ?I = "beside ?K ns n (kube_Get ?K ns n (world t)) (ns', n')"
  have s: "?I ?s" using Inr assms(3,5) by (auto simp: beside_def get_law_def)
  have q: "quiet ?K ?wfl ns n" by (rule quiet_Install [OF assms(1)])
  have "?I (snd (execAddon E ?s))"
  proof (cases "DeletionTimestamp (Addon_Meta a)")
    case None
    obtain r s1 where p: "processAddon E ?wfl ?s = (r, s1)" by (cases "processAddon E ?wfl ?s")
    have i1: "?I s1" using processAddon_beside [OF assms(1,2) q s] by (simp add: p)
    have up: "?I (s1\<lparr>mgr_of := snd (UpdateStatus ?K (inst s1) (mgr_of s1))\<rparr>)"
      using UpdateStatus_inst_beside [OF assms(1,3,4) i1] by (simp add: on_mgr_def ret_mgr_def split_def)
    show ?thesis
      using None i1 up by (auto simp: execAddon_alive p split: outcome.split prod.split option.split)
  next
    case (Some d)
    then have "snd (execAddon E ?s) = snd (deleteAddon ?K ?wfl ?s)"
      by (simp add: execAddon_def Let_def grecover_def split: prod.split outcome.split)
    then show ?thesis using deleteAddon_beside [OF assms(1-4) q s] by simp
  qed
  then show ?thesis using Inr by (simp add: AddonReconciler_Reconcile_def beside_def split_def)
qed

section \<open>Completed addons\<close>

text \<open>
  The addon \<open>ns\<close>/\<open>n\<close> is alive, has the spec \<open>sp\<close>, is completed in the phase \<open>p\<close>, and its stored
  checksum belongs to its spec.
\<close>

definition settled :: "'w kube \<Rightarrow> string \<Rightarrow> string \<Rightarrow> AddonSpec \<Rightarrow> ApplicationAssemblyPhase \<Rightarrow> 'w \<Rightarrow> bool" where
  "settled K ns n sp p w \<longleftrightarrow>
     (\<exists>a. kube_Get K ns n w = Inr a \<and> DeletionTimestamp (Addon_Meta a) = None \<and> Spec a = sp \<and>
        GetInstallStatus a = p \<and> phase_Completed p \<and> Checksum (Status a) = CalculateChecksum a)"

lemma settled_cong: "kube_Get K ns n w' = kube_Get K ns n w \<Longrightarrow> settled K ns n sp p w' = settled K ns n sp p w"
  by (simp add: settled_def)

text \<open>A status write for a completed addon that keeps its phase and checksum, with all its retries.\<close>

lemma status_attempt_settled:
  assumes "status_law K" and "get_law K" and "GetNamespace a = ns" and "GetName a = n"
    and "GetInstallStatus a = p" and "Checksum (Status a) = CalculateChecksum a" and "Spec a = sp"
    and "settled K ns n sp p w"
  shows "settled K ns n sp p (fst (snd (status_attempt K a (w, g))))"
proof -
  obtain cur where cur: "kube_Get K ns n w = Inr cur" "DeletionTimestamp (Addon_Meta cur) = None"
    "Spec cur = sp" "phase_Completed p"
    using assms(8) by (auto simp: settled_def)
  let ?new = "cur\<lparr>Status := Status a\<rparr>"
  have guard: "\<not> race_guard cur a"
    using phase_Running_not_Completed [of p] cur(4) assms(5) by (auto simp: race_guard_def GetInstallStatus_def)
  obtain r w' where up: "kube_StatusUpdate K ?new w = (r, w')" by (cases "kube_StatusUpdate K ?new w")
  have "settled K ns n sp p w'"
  proof (cases r)
    case (Some e)
    then have "kube_Get K ns n w' = kube_Get K ns n w"
      using assms(1) up unfolding status_law_def by blast
    then show ?thesis using assms(8) by (simp add: settled_def)
  next
    case None
    then obtain b where b: "kube_Get K ns n w' = Inr b" "Status b = Status a"
      "Spec b = Spec cur" "DeletionTimestamp (Addon_Meta b) = DeletionTimestamp (Addon_Meta cur)"
      using assms(1) up cur(1) unfolding status_law_def by blast
    have "CalculateChecksum b = CalculateChecksum a"
      using b(3) cur(3) assms(7) by (simp add: CalculateChecksum_def)
    then show ?thesis
      using b cur assms(5,6) by (auto simp: settled_def GetInstallStatus_def)
  qed
  then show ?thesis using assms(3,4) cur(1) guard up by (simp add: status_attempt_def)
qed

lemma UpdateStatus_settled:
  assumes "status_law K" and "get_law K" and "retry_law K" and "GetNamespace a = ns" and "GetName a = n"
    and "GetInstallStatus a = p" and "Checksum (Status a) = CalculateChecksum a" and "Spec a = sp"
    and "settled K ns n sp p (world t)"
  shows "settled K ns n sp p (world (snd (UpdateStatus K a t)))"
proof -
  let ?fn = "status_attempt K a"
  obtain e w gd where R: "RetryOnConflict K ?fn (world t, None) = (e, (w, gd))"
    by (cases "RetryOnConflict K ?fn (world t, None)") auto
  have step: "settled K ns n sp p (fst (snd (?fn s)))" if "settled K ns n sp p (fst s)" for s
    using status_attempt_settled [OF assms(1,2,4-8), of "fst s" "snd s"] that by simp
  obtain s0 where s0: "settled K ns n sp p (fst s0)" "?fn s0 = (e, (w, gd))"
    using attempts_run_inv [of ?fn "(world t, None)" "(e, (w, gd))" "\<lambda>s. settled K ns n sp p (fst s)"]
      retry_attempts [OF assms(3), of ?fn "(world t, None)"] R assms(9) step by auto
  have "settled K ns n sp p w" using step [OF s0(1)] s0(2) by simp
  then show ?thesis by (simp add: UpdateStatus_def Let_def R record_event_def split: option.split prod.split)
qed

lemma Reconcile_settled:
  assumes "status_law (env_kube E)" and "get_law (env_kube E)" and "retry_law (env_kube E)"
    and "settled (env_kube E) ns n sp p (world t)"
  shows "settled (env_kube E) ns n sp p (world (snd (AddonReconciler_Reconcile E ns n t)))"
proof -
  obtain a where a: "kube_Get (env_kube E) ns n (world t) = Inr a" "DeletionTimestamp (Addon_Meta a) = None"
    "Spec a = sp" "GetInstallStatus a = p" "phase_Completed p" "Checksum (Status a) = CalculateChecksum a"
    using assms(4) by (auto simp: settled_def)
  have key: "GetNamespace (fresh_status a) = ns" "GetName (fresh_status a) = n"
    using assms(2) a(1) by (auto simp: get_law_def)
  have "snd (AddonReconciler_Reconcile E ns n t) = snd (UpdateStatus (env_kube E) (fresh_status a) t)"
    using a
    by (simp add: AddonReconciler_Reconcile_def execAddon_alive processAddon_start Let_def
        split: prod.split option.split)
  then show ?thesis
    using UpdateStatus_settled [OF assms(1-3) key _ _ _ assms(4)] a(3,4)
    by (simp add: CalculateChecksum_def GetInstallStatus_def)
qed

lemma UpdateFromWorkflow_settled:
  assumes "frame_law K U" and "get_law K" and "retry_law K" and "settled K ns n sp p (world t)"
  shows "settled K ns n sp p (world (snd (UpdateAddonStatusLifecycleFromWorkflow K ns' n' wfobj t)))"
proof (cases "(ns', n') = (ns, n)")
  case True
  obtain a where a: "kube_Get K ns n (world t) = Inr a" "phase_Completed (GetInstallStatus a)"
    using assms(4) by (auto simp: settled_def)
  then show ?thesis using UpdateFromWorkflow_ignored [OF a(1)] True assms(4) by simp
next
  case False
  have other: "kube_Get K ns n (world (snd (UpdateStatus K b t))) = kube_Get K ns n (world t)"
    if "kube_Get K ns' n' (world t) = Inr a" "SetStatusByLifecyleStep st ph rs a = (x, b)" for a b st ph rs x
  proof -
    have "Addon_Meta b = Addon_Meta a"
      using that(2) step_setter.keeps_meta [where a = a] by (metis snd_conv)
    then have "(GetNamespace b, GetName b) \<noteq> (ns, n)" using that(1) assms(2) False by (auto simp: get_law_def)
    then show ?thesis by (rule UpdateStatus_beside [OF assms(1-3)])
  qed
  have "kube_Get K ns n (world (snd (UpdateAddonStatusLifecycleFromWorkflow K ns' n' wfobj t))) =
      kube_Get K ns n (world t)"
    using other
    by (simp add: UpdateAddonStatusLifecycleFromWorkflow_def getExistingAddon_def Let_def
        split: sum.split prod.split option.split)
  then show ?thesis using assms(4) settled_cong by metis
qed

lemma settled_step:
  assumes "frame_law (env_kube E) (env_lib E)" and "status_law (env_kube E)" and "get_law (env_kube E)"
    and "retry_law (env_kube E)" and "finalizer_law (env_kube E)"
    and "sys_step E (\<lambda>w w'. kube_Get (env_kube E) ns n w' = kube_Get (env_kube E) ns n w) t t'"
    and "settled (env_kube E) ns n sp p (world t)"
  shows "settled (env_kube E) ns n sp p (world t')"
  using assms(6)
proof (cases rule: sys_step.cases)
  case (addon_step \<rho> \<tau> ns' n')
  let ?E = "E\<lparr>now := \<tau>, env_order := \<rho>\<rparr>"
  show ?thesis
  proof (cases "(ns', n') = (ns, n)")
    case True
    then show ?thesis using Reconcile_settled [of ?E ns n sp p t] assms(2-4,7) addon_step(1) by simp
  next
    case False
    then show ?thesis using Reconcile_beside [of ?E ns' n' ns n t] assms(1,3-5,7) addon_step(1)
      by (simp add: settled_def)
  qed
next
  case (workflow_step gofmt ns' n')
  show ?thesis
    unfolding workflow_step using assms(7) UpdateFromWorkflow_settled [OF assms(1,3,4,7)]
    by (simp add: WorkflowReconciler_Reconcile_def split: sum.split option.split)
next
  case (outside_step w)
  then show ?thesis using assms(7) by (simp add: settled_def)
qed


text \<open>The server in memory obeys the laws.\<close>

lemma find_map_other:
  assumes "\<And>b. P b \<Longrightarrow> \<not> Q b" and "\<not> P y"
  shows "List.find P (map (\<lambda>b. if Q b then y else b) xs) = List.find P xs"
  using assms by (induction xs) auto

lemma mem_put_other:
  assumes "(GetNamespace a, GetName a) \<noteq> (ns, n)" and "\<And>a old. Addon_Meta (m a old) = Addon_Meta a"
  shows "mem_get ns n (snd (mem_put m a w)) = mem_get ns n w"
proof -
  have "List.find (same_object ns n) (map (\<lambda>b. if same_object (GetNamespace a) (GetName a) b
      then Addon_Meta_update (ResourceVersion_update Suc) (m a old) else b) xs) =
    List.find (same_object ns n) xs" for old xs
    by (rule find_map_other) (use assms in \<open>auto simp: same_object_def\<close>)
  then show ?thesis
    by (simp add: mem_put_def mem_get_def Let_def split: sum.split option.split)
qed

lemma mem_put_result:
  "fst (mem_put m a w) = Inr b \<Longrightarrow> (\<And>a old. Addon_Meta (m a old) = Addon_Meta a) \<Longrightarrow>
     GetNamespace b = GetNamespace a \<and> GetName b = GetName a"
  by (auto simp: mem_put_def Let_def split: sum.splits if_splits)

lemma mem_status_snd: "snd (mem_status_update a w) = snd (mem_put (\<lambda>a old. a) a w)"
  by (simp add: mem_status_update_def split: prod.split sum.split)

lemma mem_get_workflows [simp]: "mem_get ns n (w\<lparr>mem_workflows := fs\<rparr>) = mem_get ns n w"
  by (simp add: mem_get_def)

lemma mem_frame_law: "frame_law mem_kube mem_lib"
proof -
  have "mem_get ns n (snd (kube_Update mem_kube a w)) = mem_get ns n w"
    if "(GetNamespace a, GetName a) \<noteq> (ns, n)" for a ns n w
    using mem_put_other [OF that, of "\<lambda>a old. a\<lparr>Status := Status old\<rparr>"] by (simp add: mem_kube_def)
  moreover have "mem_get ns n (snd (kube_StatusUpdate mem_kube a w)) = mem_get ns n w"
    if "(GetNamespace a, GetName a) \<noteq> (ns, n)" for a ns n w
    using mem_put_other [OF that, of "\<lambda>a old. a"] by (simp add: mem_kube_def mem_status_snd)
  moreover have "GetNamespace b = GetNamespace a \<and> GetName b = GetName a"
    if "fst (kube_Update mem_kube a w) = Inr b" for a w b
    using mem_put_result [of "\<lambda>a old. a\<lparr>Status := Status old\<rparr>" a w b] that by (simp add: mem_kube_def)
  moreover have "mem_get ns n (snd (argo_Delete mem_kube ns' x w)) = mem_get ns n w"
    "mem_get ns n (snd (argo_Create mem_lib ns' y w)) = mem_get ns n w" for ns' x y w ns n
    by (simp_all add: mem_kube_def mem_wf_delete_def mem_lib_def mem_create_def split: sum.split)
  moreover have "kube_Get mem_kube = mem_get" by (simp add: mem_kube_def)
  ultimately show ?thesis unfolding frame_law_def by metis
qed

lemma mem_status_law: "status_law mem_kube"
proof -
  have "mem_get ns n w' = mem_get ns n w" if "mem_status_update a w = (Some e, w')" for a w e w' ns n
    using that by (auto simp: mem_status_update_def mem_put_def Let_def split: sum.splits if_splits prod.splits)
  moreover have "\<exists>b. mem_get ns n w' = Inr b \<and> Status b = st \<and> Spec b = Spec cur \<and>
      DeletionTimestamp (Addon_Meta b) = DeletionTimestamp (Addon_Meta cur)"
    if "mem_get ns n w = Inr cur" "mem_status_update (cur\<lparr>Status := st\<rparr>) w = (None, w')" for ns n cur st w w'
    using mem_status_written [OF that(2)] mem_get_law that(1) by (auto simp: get_law_def mem_kube_def)
  moreover have sel: "kube_Get mem_kube = mem_get" "kube_StatusUpdate mem_kube = mem_status_update"
    by (simp_all add: mem_kube_def)
  ultimately show ?thesis unfolding status_law_def sel by blast
qed

lemmas mem_laws = mem_frame_law mem_status_law mem_get_law mem_retry_law mem_finalizer_law


end
