(* ===== verification/Installation.thy ===== *)
theory Installation
  imports Histories
begin

text \<open>
  That an installation makes progress: on an API that answers and accepts writes which carry the
  current resource version, two reconciliations install an addon that has no workflows
  and no dependencies. The lemmas follow the path of the code: the validation of such an
  addon, a status write that lands, the first reconciliation (restart), the finalizer,
  and the second reconciliation (prereqs, secrets, install, observation). And that a
  deletion does: two reconciliations release an addon without a delete workflow.
\<close>

section \<open>An API that answers\<close>

text \<open>
  Optimistic locking: a write that carries the stored resource version is accepted. The server
  answers with the object that it stores; one that is marked for deletion may be gone after the
  write, when it was the last finalizer that went.
\<close>

definition write_law :: "'w kube \<Rightarrow> bool" where
  "write_law K \<longleftrightarrow>
     (\<forall>ns n w cur a. kube_Get K ns n w = Inr cur \<and> GetNamespace a = ns \<and> GetName a = n \<and>
        ResourceVersion (Addon_Meta a) = ResourceVersion (Addon_Meta cur) \<and>
        DeletionTimestamp (Addon_Meta a) = DeletionTimestamp (Addon_Meta cur) \<longrightarrow>
        (\<exists>w'. kube_StatusUpdate K a w = (None, w')) \<and>
        (\<exists>b w'. kube_Update K a w = (Inr b, w') \<and> Spec b = Spec a \<and> Status b = Status cur \<and>
           Finalizers (Addon_Meta b) = Finalizers (Addon_Meta a) \<and>
           DeletionTimestamp (Addon_Meta b) = DeletionTimestamp (Addon_Meta cur) \<and>
           (kube_Get K ns n w' = Inr b \<or>
            DeletionTimestamp (Addon_Meta cur) \<noteq> None \<and> (\<exists>e. kube_Get K ns n w' = Inl e \<and> IsNotFound e))))"

text \<open>
  The listings of a reconciliation of the addon \<open>a\<close> succeed, and the secrets that it needs are
  among the secrets listed.
\<close>

definition answers :: "'w kube \<Rightarrow> Addon \<Rightarrow> bool" where
  "answers K a \<longleftrightarrow>
     (\<exists>sel. LabelSelectorAsSelector K
        \<lparr>MatchLabels = [(ResourceDefaultOwnLabel, GetName a)], MatchExpressions = []\<rparr> = Inr sel) \<and>
     (\<exists>sel. LabelSelectorAsSelector K (observe_selector a) = Inr sel) \<and>
     (\<forall>ns sel w. \<exists>fs. argo_List K ns sel w = Inr fs) \<and>
     (\<forall>k sc sel w. \<exists>items. kube_List K k sc sel w = Inr items) \<and>
     (\<forall>ns w. \<exists>items names. dyn_ListSecrets K ns w = Inr items \<and> secret_names items = Ret names \<and>
        Secret_Name ` set (Spec_Secrets (Spec a)) \<subseteq> set names)"

lemma answers_cong: "Spec b = Spec a \<Longrightarrow> GetName b = GetName a \<Longrightarrow> answers K b = answers K a"
  by (simp add: answers_def observe_selector_def managed_labels_def)

lemma answers_secrets: "answers K a \<Longrightarrow> validateSecrets K a w = Ret None"
proof -
  assume "answers K a"
  then obtain items names where l: "dyn_ListSecrets K (Params_Namespace (Spec_Params (Spec a))) w = Inr items"
    "secret_names items = Ret names" "Secret_Name ` set (Spec_Secrets (Spec a)) \<subseteq> set names"
    unfolding answers_def by blast
  then have "List.find (\<lambda>secret. Secret_Name secret \<notin> set names) (Spec_Secrets (Spec a)) = None"
    by (auto simp: find_None_iff)
  with l show ?thesis by (simp add: validateSecrets_def)
qed

lemma answers_observe:
  assumes "answers K a"
  obtains observed where "observeResources K a w = (observed, None)"
proof -
  obtain sel where sel: "LabelSelectorAsSelector K (observe_selector a) = Inr sel"
    using assms unfolding answers_def by blast
  have "\<exists>items. kube_List K k sc sel w = Inr items" for k sc
    using assms unfolding answers_def by blast
  then have "snd (observe_all K a sel w observers) = []"
    unfolding observe_all_ok by (simp add: observers_def observers_Inr)
  then have "observeResources K a w = (fst (observe_all K a sel w observers), None)"
    by (simp add: observeResources_def sel split_def)
  then show thesis by (rule that)
qed

lemma answers_delete_old:
  assumes "answers K a"
  obtains w where "deleteOldWorkflows K a t = (None, t\<lparr>world := w\<rparr>)"
proof -
  obtain sel where sel: "LabelSelectorAsSelector K
      \<lparr>MatchLabels = [(ResourceDefaultOwnLabel, GetName a)], MatchExpressions = []\<rparr> = Inr sel"
    using assms unfolding answers_def by blast
  obtain fs where "argo_List K (GetNamespace a) sel (world t) = Inr fs"
    using assms unfolding answers_def by blast
  with sel show thesis by (intro that) (simp add: deleteOldWorkflows_def)
qed

section \<open>Validation\<close>

text \<open>
  An addon without workflows that satisfies the checks on its name and namespace, and one that has no dependencies either.
\<close>

definition bare_spec :: "Addon \<Rightarrow> bool" where
  "bare_spec a \<longleftrightarrow>
     length (GetName a) \<le> 31 \<and> Params_Namespace (Spec_Params (Spec a)) \<noteq> [] \<and>
     (\<forall>(step, wt) \<in> set (workflowTypes a). Template wt = [])"

definition plain_spec :: "Addon \<Rightarrow> bool" where
  "plain_spec a \<longleftrightarrow> PkgDeps (Spec_PackageSpec (Spec a)) = [] \<and> bare_spec a"

lemma bare_spec_cong: "Spec b = Spec a \<Longrightarrow> GetName b = GetName a \<Longrightarrow> bare_spec b = bare_spec a"
  by (simp add: bare_spec_def workflowTypes_def)

lemma plain_spec_cong: "Spec b = Spec a \<Longrightarrow> GetName b = GetName a \<Longrightarrow> plain_spec b = plain_spec a"
  using bare_spec_cong [of b a] by (simp add: plain_spec_def)

lemma validate_templates_empty:
  "(\<forall>(k, wt) \<in> set kvs. Template wt = []) \<Longrightarrow> validate_templates U \<rho> a data kvs = Ret None"
  by (induction U \<rho> a data kvs rule: validate_templates.induct) auto

lemma version_of_addon_sel:
  "PkgDeps (Version_PackageSpec (version_of_addon a)) = PkgDeps (Spec_PackageSpec (Spec a))"
  "vPkgName (version_of_addon a) = PkgName (Spec_PackageSpec (Spec a))"
  "vPkgVersion (version_of_addon a) = PkgVersion (Spec_PackageSpec (Spec a))"
  by (simp_all add: version_of_addon_def GetPackageSpec_def Let_def)

text \<open>The checks before the dependencies, with the addon under its own package version in the cache.\<close>

lemma Validate_dependencies:
  assumes "rng_ok \<rho>" and "length (GetName a) \<le> 31" and "Params_Namespace (Spec_Params (Spec a)) \<noteq> []"
    and "validateWorkflow U \<rho> a = Ret None" and "cache_ok c"
    and "entry_of c (PkgName (Spec_PackageSpec (Spec a)), PkgVersion (Spec_PackageSpec (Spec a))) = Some v"
    and "Version_Name v = GetName a"
    and "resolveDependencies \<rho> L c 256 (version_of_addon a) [] = Ret (None, visited)"
  shows "addonValidator_Validate U \<rho> L c a =
    Ret (case ValidateDependencies \<rho> L c a of None \<Rightarrow> (True, None) | Some e \<Rightarrow> (False, Some e))"
proof -
  have "validateDuplicate \<rho> L c a (version_of_addon a) = None"
    using GetVersion_exact [OF assms(1,5,6), of L] assms(7)
    by (simp add: validateDuplicate_def version_of_addon_def GetPackageSpec_def Let_def)
  then show ?thesis
    using assms(2-4,8)
    by (simp add: addonValidator_Validate_def validateAddonNameLength_def Let_def split: option.split)
qed

lemma Validate_no_deps:
  assumes "rng_ok \<rho>" and "PkgDeps (Spec_PackageSpec (Spec a)) = []" and "length (GetName a) \<le> 31"
    and "Params_Namespace (Spec_Params (Spec a)) \<noteq> []" and "validateWorkflow U \<rho> a = Ret None" and "cache_ok c"
    and "entry_of c (PkgName (Spec_PackageSpec (Spec a)), PkgVersion (Spec_PackageSpec (Spec a))) = Some v"
    and "Version_Name v = GetName a"
  shows "addonValidator_Validate U \<rho> L c a = Ret (True, None)"
proof -
  have nil: "gm_range \<rho> ([] :: string gomap) = []" using set_gm_range [OF assms(1) gm_ok_Nil] by simp
  have "\<exists>visited. resolveDependencies \<rho> L c 256 (version_of_addon a) [] = Ret (None, visited)"
    using assms(2) nil by (simp add: resolveDependencies_pos version_of_addon_sel)
  then show ?thesis
    using Validate_dependencies [OF assms(1,3-8), of L] assms(2) nil by (auto simp: ValidateDependencies_def)
qed

lemma validateWorkflow_bare: "bare_spec a \<Longrightarrow> validateWorkflow U \<rho> a = Ret None"
  unfolding validateWorkflow_def
proof (rule validate_templates_empty, clarify)
  fix k wt assume "bare_spec a" and "(k, wt) \<in> set (gm_range \<rho> (workflowTypes a))"
  then have "map_of (workflowTypes a) k = Some wt" by (blast dest: gm_range_subset)
  then show "Template wt = []" using \<open>bare_spec a\<close> map_of_SomeD unfolding bare_spec_def by fastforce
qed

lemma Validate_plain:
  assumes "rng_ok \<rho>" and "plain_spec a" and "cache_ok c"
    and "entry_of c (PkgName (Spec_PackageSpec (Spec a)), PkgVersion (Spec_PackageSpec (Spec a))) = Some v"
    and "Version_Name v = GetName a"
  shows "addonValidator_Validate U \<rho> L c a = Ret (True, None)"
  using Validate_no_deps [OF assms(1) _ _ _ validateWorkflow_bare assms(3-5)] assms(2)
  by (simp add: plain_spec_def bare_spec_def)

section \<open>Writes that land\<close>

lemma UpdateStatus_lands:
  assumes "retry_law K" and "get_law K" and "status_law K" and "write_law K"
    and "kube_Get K ns n (world t) = Inr cur" and "GetNamespace a = ns" and "GetName a = n"
    and "\<not> race_guard cur a"
  obtains t' b where "UpdateStatus K a t = (None, t')" and "kube_Get K ns n (world t') = Inr b"
    and "Status b = Status a" and "Spec b = Spec cur"
    and "DeletionTimestamp (Addon_Meta b) = DeletionTimestamp (Addon_Meta cur)"
    and "versionCache t' = addAddonToCache a (versionCache t)"
proof -
  let ?new = "cur\<lparr>Status := Status a\<rparr>" and ?fn = "status_attempt K a"
  have key: "GetNamespace ?new = ns" "GetName ?new = n" using assms(2,5) by (auto simp: get_law_def)
  then have "\<exists>w'. kube_StatusUpdate K ?new (world t) = (None, w')"
    using assms(4) [unfolded write_law_def, rule_format, of ns n "world t" cur ?new] assms(5) by simp
  then obtain w' where up: "kube_StatusUpdate K ?new (world t) = (None, w')" ..
  from assms(3,5) up obtain b where b: "kube_Get K ns n w' = Inr b" "Status b = Status a" "Spec b = Spec cur"
    "DeletionTimestamp (Addon_Meta b) = DeletionTimestamp (Addon_Meta cur)"
    unfolding status_law_def by blast
  have fn: "?fn (world t, None) = (None, (w', None))" using assms(5-8) up by (simp add: status_attempt_def)
  have "RetryOnConflict K ?fn (world t, None) = ?fn (world t, None)"
    by (rule attempts_no_conflict [OF retry_attempts [OF assms(1)]]) (simp add: fn)
  then show thesis
    using b key by (intro that [of "t\<lparr>mutexMap := snd (getStatusMutex (GetName a) (mutexMap t)), world := w',
        versionCache := addAddonToCache a (versionCache t)\<rparr>" b]) (simp_all add: UpdateStatus_def Let_def fn)
qed

text \<open>
  The state of an installation before its workflows: the addon \<open>ns\<close>/\<open>n\<close> with the spec \<open>sp\<close> is stored,
  the instance in memory is that object at its resource version, both phases are pending, and
  the installation was started at \<open>\<tau>\<close>.
\<close>

definition pending_inst ::
    "'w kube \<Rightarrow> string \<Rightarrow> string \<Rightarrow> AddonSpec \<Rightarrow> int64 \<Rightarrow> 'w ctl \<Rightarrow> bool" where
  "pending_inst K ns n sp \<tau> s \<longleftrightarrow>
     (\<exists>cur. kube_Get K ns n (world (mgr_of s)) = Inr cur \<and> DeletionTimestamp (Addon_Meta cur) = None \<and>
        Spec cur = sp \<and> ResourceVersion (Addon_Meta (inst s)) = ResourceVersion (Addon_Meta cur) \<and>
        GetPrereqStatus cur = Pending \<and> GetInstallStatus cur = Pending \<and> StartTime (Status cur) = \<tau> \<and>
        Checksum (Status cur) = CalculateChecksum cur) \<and>
     GetNamespace (inst s) = ns \<and> GetName (inst s) = n \<and> DeletionTimestamp (Addon_Meta (inst s)) = None \<and>
     Spec (inst s) = sp \<and> GetPrereqStatus (inst s) = Pending \<and> GetInstallStatus (inst s) = Pending \<and>
     StartTime (Status (inst s)) = \<tau> \<and> Checksum (Status (inst s)) = CalculateChecksum (inst s)"

lemma SetFinalizer_lands:
  assumes "get_law K" and "write_law K" and "finalizer_law K" and "pending_inst K ns n sp \<tau> s"
  obtains s' where "SetFinalizer K f s = (Ret None, s')" and "pending_inst K ns n sp \<tau> s'"
proof (cases "ContainsFinalizer K (inst s) f")
  case True
  then show thesis using assms(4) by (intro that [of s]) (simp_all add: SetFinalizer_def)
next
  case False
  obtain cur where cur: "kube_Get K ns n (world (mgr_of s)) = Inr cur" "DeletionTimestamp (Addon_Meta cur) = None"
    "ResourceVersion (Addon_Meta (inst s)) = ResourceVersion (Addon_Meta cur)"
    "GetPrereqStatus cur = Pending" "GetInstallStatus cur = Pending" "StartTime (Status cur) = \<tau>"
    "Spec cur = sp" "Checksum (Status cur) = CalculateChecksum cur"
    using assms(4) by (auto simp: pending_inst_def)
  obtain fs where fs: "AddFinalizer K f (inst s) = with_finalizers fs (inst s)"
    using assms(3) unfolding finalizer_law_def by metis
  let ?a = "with_finalizers fs (inst s)"
  have inst: "GetNamespace ?a = ns" "GetName ?a = n" "Spec ?a = sp"
    "DeletionTimestamp (Addon_Meta (inst s)) = None"
    using assms(4) by (simp_all add: pending_inst_def)
  obtain b w' where b: "kube_Update K ?a (world (mgr_of s)) = (Inr b, w')" "kube_Get K ns n w' = Inr b"
    "Spec b = Spec ?a" "Status b = Status cur" "DeletionTimestamp (Addon_Meta b) = None"
    using assms(2) [unfolded write_law_def, rule_format, of ns n "world (mgr_of s)" cur ?a] inst cur by auto
  have "GetNamespace b = ns" "GetName b = n" using assms(1) b(2) by (auto simp: get_law_def)
  then have "pending_inst K ns n sp \<tau> \<lparr>mgr_of = (mgr_of s)\<lparr>world := w'\<rparr>, inst = b\<rparr>"
    using b inst cur by (simp add: pending_inst_def GetPrereqStatus_def GetInstallStatus_def CalculateChecksum_def)
  moreover have "SetFinalizer K f s = (Ret None, \<lparr>mgr_of = (mgr_of s)\<lparr>world := w'\<rparr>, inst = b\<rparr>)"
    using False inst b fs by (simp add: SetFinalizer_def kube_update_inst_def)
  ultimately show thesis by (intro that)
qed

section \<open>The workflows of a bare addon\<close>

lemma runWorkflow_no_template:
  assumes "\<not> step_completed step (inst s)" and "GetWorkflowType (inst s) step = Inr wt" and "Template wt = []"
  shows "runWorkflow K wfl step s = (Ret None, s\<lparr>inst := set_step step Succeeded (inst s)\<rparr>)"
  using assms by (simp add: runWorkflow_def Let_def)

lemma bare_workflow_types:
  assumes "bare_spec a" and "step \<in> lifecycle_steps"
  obtains wt where "GetWorkflowType a step = Inr wt" and "Template wt = []"
  using assms
  by (auto simp: bare_spec_def workflowTypes_def lifecycle_steps_def GetWorkflowType_def split: if_splits)

lemma execute_bare:
  assumes "bare_spec (inst s)" and "answers K (inst s)" and "GetPrereqStatus (inst s) = Pending"
  shows "executePrereqAndInstall K wfl s =
    (Ret None, s\<lparr>inst := set_step Install Succeeded (set_step Prereqs Succeeded (inst s))\<rparr>)"
proof -
  let ?a = "set_step Prereqs Succeeded (inst s)" and ?s = "s\<lparr>inst := set_step Prereqs Succeeded (inst s)\<rparr>"
  have spec: "Spec ?a = Spec (inst s)" "GetName ?a = GetName (inst s)"
    by (simp_all add: set_step_def step_setter.keeps_all)
  have status: "GetPrereqStatus ?a = Succeeded" "GetInstallStatus ?a = Pending"
    by (simp_all add: set_step_def SetStatusByLifecyleStep_def SetPrereqAndInstallStatuses_def)
  have steps: "Prereqs \<in> lifecycle_steps" "Install \<in> lifecycle_steps" by (simp_all add: lifecycle_steps_def)
  obtain wt where wt: "GetWorkflowType (inst s) Prereqs = Inr wt" "Template wt = []"
    using bare_workflow_types [OF assms(1) steps(1)] .
  obtain wt' where wt': "GetWorkflowType ?a Install = Inr wt'" "Template wt' = []"
    using bare_workflow_types [OF _ steps(2), of ?a] bare_spec_cong [OF spec] assms(1) by blast
  have pre: "runWorkflow K wfl Prereqs s = (Ret None, ?s)"
    using assms(3) wt by (intro runWorkflow_no_template) (simp_all add: step_completed_def phase_pred_defs)
  have ins: "runWorkflow K wfl Install ?s = (Ret None, ?s\<lparr>inst := set_step Install Succeeded ?a\<rparr>)"
    using runWorkflow_no_template [of Install ?s wt' K wfl] wt' status(2)
    by (simp add: step_completed_def phase_pred_defs)
  have "validateSecrets K ?a (world (mgr_of s)) = Ret None"
    by (rule answers_secrets) (simp add: answers_cong [OF spec] assms(2))
  then show ?thesis
    using pre ins status(1) by (simp add: executePrereqAndInstall_def gbind_Ret GetPrereqStatus_def phase_pred_defs)
qed

lemma observe_answers:
  assumes "answers K (inst s)"
  obtains s' where "observeAddon K s =
      (Ret (if phase_Running (GetInstallStatus (inst s)) then \<lparr>Result_Requeue = False, Result_RequeueAfter = 30\<rparr>
            else zero_Result, None), s')"
    and "mgr_of s' = mgr_of s" and "Addon_Meta (inst s') = Addon_Meta (inst s)"
    and "Status_Lifecycle (Status (inst s')) = Status_Lifecycle (Status (inst s))"
    and "Checksum (Status (inst s')) = Checksum (Status (inst s))"
proof -
  obtain obs where obs: "observeResources K (inst s) (world (mgr_of s)) = (obs, None)"
    using answers_observe [OF assms(1)] .
  let ?a = "share_labels (inst s)"
  let ?b = "if 0 < length obs then Status_update (Resources_update (\<lambda>_. obs)) ?a else ?a"
  have share: "Status ?a = Status (inst s)" "Addon_Meta ?a = Addon_Meta (inst s)"
    by (simp_all add: share_labels_def)
  then have "GetInstallStatus ?b = GetInstallStatus (inst s)" by (simp add: GetInstallStatus_def)
  then have "observeAddon K s =
      (Ret (if phase_Running (GetInstallStatus (inst s)) then \<lparr>Result_Requeue = False, Result_RequeueAfter = 30\<rparr>
            else zero_Result, None), s\<lparr>inst := ?b\<rparr>)"
    using obs by (cases "0 < length obs") (simp_all add: observeAddon_def)
  then show thesis using share by (intro that [of "s\<lparr>inst := ?b\<rparr>"]) simp_all
qed

lemma install_bare:
  assumes "pending_inst K ns n sp \<tau> s" and "bare_spec (inst s)" and "answers K (inst s)"
    and "\<not> IsExpired t \<tau> TTL_Milliseconds"
  obtains s' where "installAddon K wfl t s = (Ret (zero_Result, None), s')" and "mgr_of s' = mgr_of s"
    and "Addon_Meta (inst s') = Addon_Meta (inst s)" and "GetInstallStatus (inst s') = Succeeded"
    and "Checksum (Status (inst s')) = CalculateChecksum (inst s)"
proof -
  let ?a = "set_step Install Succeeded (set_step Prereqs Succeeded (inst s))" and ?s = "s\<lparr>inst :=
    set_step Install Succeeded (set_step Prereqs Succeeded (inst s))\<rparr>"
  have pend: "GetPrereqStatus (inst s) = Pending" "GetInstallStatus (inst s) = Pending"
    "StartTime (Status (inst s)) = \<tau>" "Checksum (Status (inst s)) = CalculateChecksum (inst s)"
    using assms(1) by (simp_all add: pending_inst_def)
  have a: "Addon_Meta ?a = Addon_Meta (inst s)" "Spec ?a = Spec (inst s)"
    "Checksum (Status ?a) = Checksum (Status (inst s))"
    by (simp_all add: set_step_def step_setter.keeps_all)
  have st: "GetInstallStatus ?a = Succeeded"
    by (simp add: set_step_def SetStatusByLifecyleStep_def)
  have "answers K (inst ?s)" using answers_cong [of ?a "inst s" K] a assms(3) by simp
  then obtain s' where s': "observeAddon K ?s = (Ret (zero_Result, None), s')" "mgr_of s' = mgr_of s"
    "Addon_Meta (inst s') = Addon_Meta ?a" "Status_Lifecycle (Status (inst s')) = Status_Lifecycle (Status ?a)"
    "Checksum (Status (inst s')) = Checksum (Status ?a)"
    by (rule observe_answers) (use st in \<open>simp add: phase_pred_defs\<close>)
  moreover have "installAddon K wfl t s = observeAddon K ?s"
    using pend assms(4) execute_bare [OF assms(2,3) pend(1), of wfl]
    by (simp add: installAddon_def GetInstallStatus_def phase_pred_defs gbind_Ret)
  ultimately show thesis using a pend st by (intro that [of s']) (simp_all add: GetInstallStatus_def)
qed

section \<open>The two reconciliations\<close>

text \<open>The cache holds the addon under its package version.\<close>

definition own_entry :: "string \<Rightarrow> AddonSpec \<Rightarrow> 'w mgr \<Rightarrow> bool" where
  "own_entry n sp t \<longleftrightarrow> cache_ok (versionCache t) \<and>
     (\<exists>v. entry_of (versionCache t) (PkgName (Spec_PackageSpec sp), PkgVersion (Spec_PackageSpec sp)) = Some v \<and>
        Version_Name v = n)"

lemma reconcile_first:
  assumes "retry_law K" and "get_law K" and "status_law K" and "write_law K" and "frame_law K U"
    and "env_kube E = K" and "mgr_ok t" and "kube_Get K ns n (world t) = Inr a"
    and "DeletionTimestamp (Addon_Meta a) = None" and "Checksum (Status a) \<noteq> CalculateChecksum a"
    and "answers K a"
  obtains t1 b where "AddonReconciler_Reconcile E ns n t =
      (Ret (\<lparr>Result_Requeue = True, Result_RequeueAfter = 0\<rparr>, None), t1)"
    and "kube_Get K ns n (world t1) = Inr b" and "pending_inst K ns n (Spec a) (now E) \<lparr>mgr_of = t1, inst = b\<rparr>"
    and "own_entry n (Spec a) t1"
proof -
  obtain w where old: "deleteOldWorkflows K a t = (None, t\<lparr>world := w\<rparr>)"
    using answers_delete_old [OF assms(11)] .
  have get: "kube_Get K ns n w = Inr a"
    using deleteOldWorkflows_beside [OF assms(5), of ns n a t] assms(8) old by simp
  define a1 where "a1 = snd (SetPrereqAndInstallStatuses Pending []
    (ClearStatus (Status_update (StartTime_update (\<lambda>_. now E)) (fresh_status a))))"
  have a1: "Addon_Meta a1 = Addon_Meta a" "Spec a1 = Spec a" "Checksum (Status a1) = CalculateChecksum a"
    "GetInstallStatus a1 = Pending" "GetPrereqStatus a1 = Pending" "StartTime (Status a1) = now E"
    by (simp_all add: a1_def prereq_setter.keeps_all restart_phases)
  have key: "GetNamespace a1 = ns" "GetName a1 = n" using assms(2,8) a1(1) by (auto simp: get_law_def)
  have "\<not> race_guard a a1" using assms(10) a1(3) by (simp add: race_guard_def)
  then obtain t1 b where up: "UpdateStatus K a1 (t\<lparr>world := w\<rparr>) = (None, t1)" "kube_Get K ns n (world t1) = Inr b"
    "Status b = Status a1" "Spec b = Spec a" "DeletionTimestamp (Addon_Meta b) = None"
    "versionCache t1 = addAddonToCache a1 (versionCache t)"
    using UpdateStatus_lands [OF assms(1-4), of ns n "t\<lparr>world := w\<rparr>" a a1] get key assms(9) by auto
  have rec: "AddonReconciler_Reconcile E ns n t = (Ret (\<lparr>Result_Requeue = True, Result_RequeueAfter = 0\<rparr>, None), t1)"
    using assms(6,8-10) old up(1) [unfolded a1_def]
    by (simp add: AddonReconciler_Reconcile_def execAddon_alive processAddon_start Let_def restartAddon_def
        gbind_ret_mgr deleteOldWorkflows_fresh)
  have "GetNamespace b = ns" "GetName b = n" using assms(2) up(2) by (auto simp: get_law_def)
  then have pend: "pending_inst K ns n (Spec a) (now E) \<lparr>mgr_of = t1, inst = b\<rparr>"
    using up a1(3-6) by (simp add: pending_inst_def GetPrereqStatus_def GetInstallStatus_def CalculateChecksum_def)
  have ok: "cache_ok (versionCache t)" using assms(7) by (simp add: mgr_ok_def)
  have "cache_ok (versionCache t1)" using ok up(6) by (simp add: addAddonToCache_def cache.ok_add)
  then have "own_entry n (Spec a) t1"
    using ok up(6) a1(2) key by (simp add: own_entry_def entry_addAddonToCache version_of_addon_def)
  with rec up(2) pend show thesis by (rule that)
qed

text \<open>
  A reconciliation of a valid addon whose installation was started: it succeeds when the workflows and
  the observation do, whatever they leave (\<open>R\<close>), and the API then reports the status they left.
\<close>

lemma reconcile_pending:
  assumes "retry_law K" and "get_law K" and "status_law K" and "write_law K" and "finalizer_law K"
    and "env_kube E = K" and "kube_Get K ns n (world t) = Inr a"
    and "pending_inst K ns n sp \<tau> \<lparr>mgr_of = t, inst = a\<rparr>"
    and valid: "addonValidator_Validate (template_lib.truncate (env_lib E)) (env_order E) (env_semver E)
      (versionCache t) (fresh_status a) = Ret (True, None)"
    and install: "\<And>s. pending_inst K ns n sp \<tau> s \<Longrightarrow>
      \<exists>r s'. installAddon K (workflowLifecycle_Install (env_lib E) (env_order E)) (now E) s = (Ret (r, None), s') \<and>
        R r s' \<and> kube_Get K ns n (world (mgr_of s')) = kube_Get K ns n (world (mgr_of s)) \<and>
        Addon_Meta (inst s') = Addon_Meta (inst s) \<and> Checksum (Status (inst s')) = CalculateChecksum (inst s)"
  obtains r s' t1 b where "AddonReconciler_Reconcile E ns n t = (Ret (r, None), t1)" and "R r s'"
    and "UpdateStatus K (inst s') (mgr_of s') = (None, t1)"
    and "kube_Get K ns n (world t1) = Inr b" and "DeletionTimestamp (Addon_Meta b) = None"
    and "Spec b = sp" and "Status b = Status (inst s')" and "Checksum (Status b) = CalculateChecksum b"
    and "GetName (inst s') = n" and "GetNamespace (inst s') = ns"
proof -
  let ?wfl = "workflowLifecycle_Install (env_lib E) (env_order E)" and ?a = "fresh_status a"
  define s where "s = \<lparr>mgr_of = record_event ''Normal'' ''Completed'' (''Addon '' @ addon_ref ?a @ '' is valid.'') t, inst = ?a\<rparr>"
  have pa: "GetInstallStatus a = Pending" "DeletionTimestamp (Addon_Meta a) = None" "Checksum (Status a) = CalculateChecksum a"
    using assms(8) by (simp_all add: pending_inst_def)
  have "pending_inst K ns n sp \<tau> s"
    using assms(8) by (simp add: s_def pending_inst_def GetPrereqStatus_def GetInstallStatus_def CalculateChecksum_def)
  then obtain s1 where fin: "SetFinalizer K FinalizerName s = (Ret None, s1)" "pending_inst K ns n sp \<tau> s1"
    using SetFinalizer_lands [OF assms(2,4,5)] by metis
  obtain r s2 where ins: "installAddon K ?wfl (now E) s1 = (Ret (r, None), s2)" "R r s2"
    "kube_Get K ns n (world (mgr_of s2)) = kube_Get K ns n (world (mgr_of s1))"
    "Addon_Meta (inst s2) = Addon_Meta (inst s1)" "Checksum (Status (inst s2)) = CalculateChecksum (inst s1)"
    using install [OF fin(2)] by blast
  have proc: "processAddon E ?wfl \<lparr>mgr_of = t, inst = a\<rparr> = (Ret (r, None), s2)"
    using pa valid fin(1) ins(1) assms(6) by (simp add: processAddon_start Let_def s_def gbind_Ret phase_pred_defs)
  obtain cur where cur: "kube_Get K ns n (world (mgr_of s2)) = Inr cur" "DeletionTimestamp (Addon_Meta cur) = None"
    "Spec cur = sp" "GetInstallStatus cur = Pending"
    using fin(2) ins(3) by (auto simp: pending_inst_def)
  have key: "GetNamespace (inst s2) = ns" "GetName (inst s2) = n" "Spec (inst s1) = sp"
    using fin(2) ins(4) by (simp_all add: pending_inst_def)
  have "\<not> race_guard cur (inst s2)" using cur(4) by (simp add: race_guard_def GetInstallStatus_def phase_pred_defs)
  then obtain t1 b where up: "UpdateStatus K (inst s2) (mgr_of s2) = (None, t1)"
    "kube_Get K ns n (world t1) = Inr b" "Status b = Status (inst s2)" "Spec b = sp" "DeletionTimestamp (Addon_Meta b) = None"
    using UpdateStatus_lands [OF assms(1-4) cur(1) key(1,2)] cur(2,3) by metis
  have "AddonReconciler_Reconcile E ns n t = (Ret (r, None), t1)"
    using assms(6,7) pa(2) proc up(1) by (simp add: AddonReconciler_Reconcile_def execAddon_alive)
  moreover have "Checksum (Status b) = CalculateChecksum b" using up(3,4) ins(5) key(3) by (simp add: CalculateChecksum_def)
  ultimately show thesis using that ins(2) up key(1,2) by blast
qed

lemma reconcile_bare:
  assumes "retry_law K" and "get_law K" and "status_law K" and "write_law K" and "finalizer_law K"
    and "env_kube E = K" and "kube_Get K ns n (world t) = Inr a"
    and "pending_inst K ns n sp \<tau> \<lparr>mgr_of = t, inst = a\<rparr>"
    and valid: "addonValidator_Validate (template_lib.truncate (env_lib E)) (env_order E) (env_semver E)
      (versionCache t) (fresh_status a) = Ret (True, None)"
    and "bare_spec a" and "answers K a" and "\<not> IsExpired (now E) \<tau> TTL_Milliseconds"
  obtains t1 b where "AddonReconciler_Reconcile E ns n t = (Ret (zero_Result, None), t1)"
    and "kube_Get K ns n (world t1) = Inr b" and "DeletionTimestamp (Addon_Meta b) = None"
    and "Spec b = sp" and "GetInstallStatus b = Succeeded" and "Checksum (Status b) = CalculateChecksum b"
proof -
  let ?wfl = "workflowLifecycle_Install (env_lib E) (env_order E)"
  have pa: "Spec a = sp" "GetName a = n" using assms(8) by (simp_all add: pending_inst_def)
  show thesis
  proof (rule reconcile_pending [where R = "\<lambda>r s'. r = zero_Result \<and> GetInstallStatus (inst s') = Succeeded",
        OF assms(1-8) valid])
    fix s assume pend: "pending_inst K ns n sp \<tau> s"
    then have eq: "Spec (inst s) = Spec a" "GetName (inst s) = GetName a" using pa by (simp_all add: pending_inst_def)
    have "bare_spec (inst s)" "answers K (inst s)"
      using bare_spec_cong [OF eq] answers_cong [OF eq] assms(10,11) by blast+
    then show "\<exists>r s'. installAddon K ?wfl (now E) s = (Ret (r, None), s') \<and>
        (r = zero_Result \<and> GetInstallStatus (inst s') = Succeeded) \<and>
        kube_Get K ns n (world (mgr_of s')) = kube_Get K ns n (world (mgr_of s)) \<and>
        Addon_Meta (inst s') = Addon_Meta (inst s) \<and> Checksum (Status (inst s')) = CalculateChecksum (inst s)"
      using install_bare [OF pend _ _ assms(12)] by metis
  next
    fix r s' t1 b
    assume "AddonReconciler_Reconcile E ns n t = (Ret (r, None), t1)" "r = zero_Result \<and> GetInstallStatus (inst s') = Succeeded"
      "kube_Get K ns n (world t1) = Inr b" "DeletionTimestamp (Addon_Meta b) = None" "Spec b = sp"
      "Status b = Status (inst s')" "Checksum (Status b) = CalculateChecksum b"
    then show thesis by (intro that [of t1 b]) (simp_all add: GetInstallStatus_def)
  qed
qed

lemma reconcile_second:
  assumes "retry_law K" and "get_law K" and "status_law K" and "write_law K" and "finalizer_law K"
    and "env_kube E = K" and "rng_ok (env_order E)" and "kube_Get K ns n (world t) = Inr a"
    and "pending_inst K ns n sp \<tau> \<lparr>mgr_of = t, inst = a\<rparr>" and "own_entry n sp t"
    and "plain_spec a" and "answers K a" and "\<not> IsExpired (now E) \<tau> TTL_Milliseconds"
  obtains t1 b where "AddonReconciler_Reconcile E ns n t = (Ret (zero_Result, None), t1)"
    and "kube_Get K ns n (world t1) = Inr b" and "DeletionTimestamp (Addon_Meta b) = None"
    and "Spec b = sp" and "GetInstallStatus b = Succeeded" and "Checksum (Status b) = CalculateChecksum b"
proof -
  have pa: "Spec a = sp" "GetName a = n" using assms(9) by (simp_all add: pending_inst_def)
  have valid: "addonValidator_Validate (template_lib.truncate (env_lib E)) (env_order E) (env_semver E)
      (versionCache t) (fresh_status a) = Ret (True, None)"
    using assms(10,11) pa plain_spec_cong [of "fresh_status a" a]
    by (auto simp: own_entry_def intro!: Validate_plain [OF assms(7)])
  have "bare_spec a" using assms(11) by (simp add: plain_spec_def)
  then show thesis by (rule reconcile_bare [OF assms(1-6,8,9) valid _ assms(12,13)]) (rule that)
qed

text \<open>
  C12: Two reconciliations install an addon that has no workflows. On an API whose listings succeed
  and that accepts writes carrying the current resource version, take a new or changed
  addon without dependencies and workflow templates, with a valid name and namespace, whose
  secrets exist. The first reconciliation succeeds and asks to be requeued; the second, if
  it comes within an hour, succeeds, and then the API reports the addon as installed, with
  the spec as it was and the checksum of that spec. This holds whatever the manager did
  before, whatever it has cached, and whatever the iteration order of the maps is.
\<close>

theorem two_reconciles_install:
  assumes "retry_law (env_kube E)" and "get_law (env_kube E)" and "status_law (env_kube E)"
    and "write_law (env_kube E)" and "finalizer_law (env_kube E)" and "frame_law (env_kube E) (env_lib E)"
    and "rng_ok \<rho>" and "rng_ok \<rho>'" and "mgr_ok t"
    and "kube_Get (env_kube E) ns n (world t) = Inr a" and "DeletionTimestamp (Addon_Meta a) = None"
    and "Checksum (Status a) \<noteq> CalculateChecksum a"
    and "plain_spec a" and "answers (env_kube E) a"
    and "0 \<le> sint \<tau>" and "0 \<le> sint \<tau>'" and "sint \<tau>' < sint \<tau> + 3600000"
  shows "\<exists>t1 t2 b. AddonReconciler_Reconcile (E\<lparr>now := \<tau>, env_order := \<rho>\<rparr>) ns n t =
      (Ret (\<lparr>Result_Requeue = True, Result_RequeueAfter = 0\<rparr>, None), t1) \<and>
    AddonReconciler_Reconcile (E\<lparr>now := \<tau>', env_order := \<rho>'\<rparr>) ns n t1 = (Ret (zero_Result, None), t2) \<and>
    kube_Get (env_kube E) ns n (world t2) = Inr b \<and> GetInstallStatus b = Succeeded \<and> Spec b = Spec a \<and>
    Checksum (Status b) = CalculateChecksum b"
proof -
  let ?K = "env_kube E" and ?E1 = "E\<lparr>now := \<tau>, env_order := \<rho>\<rparr>" and ?E2 = "E\<lparr>now := \<tau>', env_order := \<rho>'\<rparr>"
  obtain t1 a1 where one: "AddonReconciler_Reconcile ?E1 ns n t =
      (Ret (\<lparr>Result_Requeue = True, Result_RequeueAfter = 0\<rparr>, None), t1)"
    "kube_Get ?K ns n (world t1) = Inr a1" "pending_inst ?K ns n (Spec a) \<tau> \<lparr>mgr_of = t1, inst = a1\<rparr>"
    "own_entry n (Spec a) t1"
    by (rule reconcile_first [OF assms(1-4,6) _ assms(9-12,14), where E = ?E1]) simp_all
  have eq: "Spec a1 = Spec a" "GetName a1 = GetName a"
    using one(3) assms(2,10) by (auto simp: pending_inst_def get_law_def)
  have alive: "\<not> IsExpired \<tau>' \<tau> TTL_Milliseconds"
    using assms(17) by (simp add: IsExpired_nonneg [OF assms(16,15)] TTL_Milliseconds_def)
  have ready: "plain_spec a1" "answers ?K a1"
    using plain_spec_cong [OF eq] answers_cong [OF eq] assms(13,14) by blast+
  obtain t2 b where "AddonReconciler_Reconcile ?E2 ns n t1 = (Ret (zero_Result, None), t2)"
    "kube_Get ?K ns n (world t2) = Inr b" "Spec b = Spec a" "GetInstallStatus b = Succeeded"
    "Checksum (Status b) = CalculateChecksum b"
    by (rule reconcile_second [OF assms(1-5) _ _ one(2-4) ready, where E = ?E2]) (use assms(8) alive in simp_all)
  with one(1) show ?thesis by blast
qed

lemma mem_put_written:
  assumes "mem_get ns n w = Inr cur" and "GetNamespace a = ns" and "GetName a = n"
    and "ResourceVersion (Addon_Meta a) = ResourceVersion (Addon_Meta cur)"
    and "Addon_Meta (m a cur) = Addon_Meta a"
  shows "\<exists>w'. mem_put m a w = (Inr (Addon_Meta_update (ResourceVersion_update Suc) (m a cur)), w') \<and>
    mem_get ns n w' = Inr (Addon_Meta_update (ResourceVersion_update Suc) (m a cur))"
proof -
  let ?new = "Addon_Meta_update (ResourceVersion_update Suc) (m a cur)"
  have "List.find (same_object ns n) (mem_addons w) = Some cur"
    using assms(1) by (simp add: mem_get_def split: option.splits)
  moreover have "same_object ns n ?new" using assms(2,3,5) by (simp add: same_object_def)
  ultimately have "List.find (same_object ns n) (map (\<lambda>b. if same_object ns n b then ?new else b) (mem_addons w)) =
      Some ?new"
    by (rule find_map_replace)
  then show ?thesis using assms(1-4) by (simp add: mem_put_def Let_def) (simp add: mem_get_def)
qed

lemma mem_write_law: "write_law mem_kube"
proof -
  have up: "kube_Get mem_kube = mem_get" "kube_StatusUpdate mem_kube = mem_status_update"
    "kube_Update mem_kube = mem_put (\<lambda>a old. a\<lparr>Status := Status old\<rparr>)"
    by (simp_all add: mem_kube_def)
  show ?thesis
    unfolding write_law_def up
  proof (intro allI impI; elim conjE; intro conjI)
    fix ns n w cur a
    assume get: "mem_get ns n w = Inr cur" and key: "GetNamespace a = ns" "GetName a = n"
      and rv: "ResourceVersion (Addon_Meta a) = ResourceVersion (Addon_Meta cur)"
      and del: "DeletionTimestamp (Addon_Meta a) = DeletionTimestamp (Addon_Meta cur)"
    show "\<exists>w'. mem_status_update a w = (None, w')"
      using get key rv by (simp add: mem_status_update_def mem_put_def Let_def)
    show "\<exists>b w'. mem_put (\<lambda>a old. a\<lparr>Status := Status old\<rparr>) a w = (Inr b, w') \<and> Spec b = Spec a \<and>
        Status b = Status cur \<and> Finalizers (Addon_Meta b) = Finalizers (Addon_Meta a) \<and>
        DeletionTimestamp (Addon_Meta b) = DeletionTimestamp (Addon_Meta cur) \<and>
        (mem_get ns n w' = Inr b \<or>
         DeletionTimestamp (Addon_Meta cur) \<noteq> None \<and> (\<exists>e. mem_get ns n w' = Inl e \<and> IsNotFound e))"
      using mem_put_written [OF get key rv, of "\<lambda>a old. a\<lparr>Status := Status old\<rparr>"] del
      by (auto intro!: exI [of _ "Addon_Meta_update (ResourceVersion_update Suc) (a\<lparr>Status := Status cur\<rparr>)"])
  qed
qed

text \<open>The server in memory, on a cluster without secrets.\<close>

definition quiet_env :: "(mem, Workflow, unit, string) env" where
  "quiet_env = mem_env\<lparr>env_kube := mem_kube\<lparr>dyn_ListSecrets := (\<lambda>_ _. Inr [])\<rparr>\<rparr>"

lemma quiet_env_sel:
  "kube_Get (env_kube quiet_env) = kube_Get mem_kube" "kube_Update (env_kube quiet_env) = kube_Update mem_kube"
  "kube_StatusUpdate (env_kube quiet_env) = kube_StatusUpdate mem_kube"
  "RetryOnConflict (env_kube quiet_env) = RetryOnConflict mem_kube"
  "ContainsFinalizer (env_kube quiet_env) = ContainsFinalizer mem_kube"
  "AddFinalizer (env_kube quiet_env) = AddFinalizer mem_kube"
  "RemoveFinalizer (env_kube quiet_env) = RemoveFinalizer mem_kube"
  "argo_Delete (env_kube quiet_env) = argo_Delete mem_kube" "env_lib quiet_env = mem_lib"
  by (simp_all add: quiet_env_def mem_env_def)

lemma quiet_laws:
  "retry_law (env_kube quiet_env)" "get_law (env_kube quiet_env)" "status_law (env_kube quiet_env)"
  "write_law (env_kube quiet_env)" "finalizer_law (env_kube quiet_env)"
  "frame_law (env_kube quiet_env) (env_lib quiet_env)"
  using mem_laws mem_write_law
  unfolding retry_law_def get_law_def status_law_def write_law_def finalizer_law_def frame_law_def quiet_env_sel
  by blast+

theorem two_reconciles_install_witness:
  "\<exists>t1 t2 b. AddonReconciler_Reconcile (quiet_env\<lparr>now := 5, env_order := rev\<rparr>) ''ns'' ''a'' (start_mgr [valid_addon]) =
      (Ret (\<lparr>Result_Requeue = True, Result_RequeueAfter = 0\<rparr>, None), t1) \<and>
    AddonReconciler_Reconcile (quiet_env\<lparr>now := 9, env_order := rev\<rparr>) ''ns'' ''a'' t1 = (Ret (zero_Result, None), t2) \<and>
    kube_Get mem_kube ''ns'' ''a'' (world t2) = Inr b \<and> GetInstallStatus b = Succeeded"
proof -
  have get: "kube_Get (env_kube quiet_env) ''ns'' ''a'' (world (start_mgr [valid_addon])) = Inr valid_addon"
    by (simp add: quiet_env_sel mem_kube_def mem_get_def start_mgr_def same_object_def valid_addon_def zero_Addon_def)
  have chk: "Checksum (Status valid_addon) \<noteq> CalculateChecksum valid_addon"
    using new_checksum by (simp add: valid_addon_def)
  have plain: "plain_spec valid_addon"
    by (simp add: plain_spec_def bare_spec_def valid_addon_def zero_Addon_def workflowTypes_def zero_WorkflowType_def)
  have "answers (env_kube quiet_env) valid_addon"
    by (simp add: answers_def quiet_env_def mem_env_def mem_kube_def valid_addon_def zero_Addon_def)
  from two_reconciles_install [OF quiet_laws rng_ok_rev rng_ok_rev start_mgr_ok get _ chk plain this, of 5 9]
  show ?thesis by (simp add: quiet_env_sel valid_addon_def zero_Addon_def) blast
qed

section \<open>Deletion\<close>

lemma dropFinalizer_lands:
  assumes "write_law K" and "finalizer_law K" and "kube_Get K ns n (world (mgr_of s)) = Inr (inst s)"
    and "GetNamespace (inst s) = ns" and "GetName (inst s) = n"
  obtains s' where "dropFinalizer K f True s = (Ret None, s')"
    and "versionCache (mgr_of s') = RemoveVersion (PkgName (Spec_PackageSpec (Spec (inst s))))
      (PkgVersion (Spec_PackageSpec (Spec (inst s)))) (versionCache (mgr_of s))"
    and "case kube_Get K ns n (world (mgr_of s')) of
      Inl e \<Rightarrow> IsNotFound e | Inr b \<Rightarrow> f \<notin> set (Finalizers (Addon_Meta b))"
proof -
  obtain fs where fs: "RemoveFinalizer K f (inst s) = with_finalizers fs (inst s)"
    "set fs = set (Finalizers (Addon_Meta (inst s))) - {f}"
    using assms(2) unfolding finalizer_law_def by metis
  let ?a = "with_finalizers fs (inst s)"
  obtain b w' where b: "kube_Update K ?a (world (mgr_of s)) = (Inr b, w')" "Finalizers (Addon_Meta b) = fs"
    "kube_Get K ns n w' = Inr b \<or> (\<exists>e. kube_Get K ns n w' = Inl e \<and> IsNotFound e)"
    using assms(1) [unfolded write_law_def, rule_format, of ns n "world (mgr_of s)" "inst s" ?a] assms(3-5) by auto
  let ?c = "RemoveVersion (PkgName (Spec_PackageSpec (Spec (inst s)))) (PkgVersion (Spec_PackageSpec (Spec (inst s))))
    (versionCache (mgr_of s))"
  have "dropFinalizer K f True s = (Ret None, \<lparr>mgr_of = (mgr_of s)\<lparr>versionCache := ?c, world := w'\<rparr>, inst = b\<rparr>)"
    using b(1) fs(1) by (simp add: dropFinalizer_def kube_update_inst_def on_inst_def go_simps)
  moreover have "case kube_Get K ns n w' of Inl e \<Rightarrow> IsNotFound e | Inr b \<Rightarrow> f \<notin> set (Finalizers (Addon_Meta b))"
    using b(3) by (elim disjE exE conjE) (simp_all add: b(2) fs(2))
  ultimately show thesis
    using that [of "\<lparr>mgr_of = (mgr_of s)\<lparr>versionCache := ?c, world := w'\<rparr>, inst = b\<rparr>"] by simp
qed

text \<open>
  C13: Two reconciliations let a deleted addon go. Take an addon that is marked for deletion, has no
  delete workflow and is not yet in the phase for deletion. On an API that accepts writes carrying
  the current resource version both reconciliations succeed; after them the package version of
  the addon has left the cache, and the API has either removed the addon or stores it without the
  manager's finalizer.
\<close>

theorem two_reconciles_finalize:
  assumes "retry_law (env_kube E)" and "get_law (env_kube E)" and "status_law (env_kube E)"
    and "write_law (env_kube E)" and "finalizer_law (env_kube E)" and "mgr_ok t"
    and "kube_Get (env_kube E) ns n (world t) = Inr a" and "DeletionTimestamp (Addon_Meta a) \<noteq> None"
    and "\<not> phase_Deleting (GetInstallStatus a)"
    and "Template (Lifecycle_Delete (Spec_Lifecycle (Spec a))) = []"
  shows "\<exists>t1 t2. AddonReconciler_Reconcile (E\<lparr>now := \<tau>, env_order := \<rho>\<rparr>) ns n t = (Ret (zero_Result, None), t1) \<and>
    AddonReconciler_Reconcile (E\<lparr>now := \<tau>', env_order := \<rho>'\<rparr>) ns n t1 = (Ret (zero_Result, None), t2) \<and>
    entry_of (versionCache t2) (PkgName (Spec_PackageSpec (Spec a)), PkgVersion (Spec_PackageSpec (Spec a))) = None \<and>
    (case kube_Get (env_kube E) ns n (world t2) of
       Inl e \<Rightarrow> IsNotFound e | Inr b \<Rightarrow> FinalizerName \<notin> set (Finalizers (Addon_Meta b)))"
proof -
  let ?K = "env_kube E" and ?d = "SetInstallStatus Deleting [] a"
  have key: "GetNamespace a = ns" "GetName a = n" using assms(2,7) by (auto simp: get_law_def)
  have d: "Addon_Meta ?d = Addon_Meta a" "GetInstallStatus ?d = Deleting"
    by (simp_all add: install_setter.keeps_all)
  have "\<not> race_guard a ?d" using d(2) by (simp add: race_guard_def GetInstallStatus_def phase_pred_defs)
  then obtain t1 b where one: "UpdateStatus ?K ?d t = (None, t1)" "kube_Get ?K ns n (world t1) = Inr b"
    "Status b = Status ?d" "Spec b = Spec a" "DeletionTimestamp (Addon_Meta b) = DeletionTimestamp (Addon_Meta a)"
    "versionCache t1 = addAddonToCache ?d (versionCache t)"
    using UpdateStatus_lands [OF assms(1-4,7), of ?d] key d(1) by auto
  have first: "AddonReconciler_Reconcile (E\<lparr>now := \<tau>, env_order := \<rho>\<rparr>) ns n t = (Ret (zero_Result, None), t1)"
    using assms(7-9) one(1)
    by (simp add: AddonReconciler_Reconcile_def execAddon_def deleteAddon_def grecover_def gbind_ret_mgr Let_def)
  have bkey: "GetNamespace b = ns" "GetName b = n" using assms(2) one(2) by (auto simp: get_law_def)
  obtain s' where drop: "dropFinalizer ?K FinalizerName True \<lparr>mgr_of = t1, inst = b\<rparr> = (Ret None, s')"
    "versionCache (mgr_of s') = RemoveVersion (PkgName (Spec_PackageSpec (Spec b)))
      (PkgVersion (Spec_PackageSpec (Spec b))) (versionCache t1)"
    "case kube_Get ?K ns n (world (mgr_of s')) of Inl e \<Rightarrow> IsNotFound e
      | Inr b \<Rightarrow> FinalizerName \<notin> set (Finalizers (Addon_Meta b))"
    using dropFinalizer_lands [OF assms(4,5), of ns n "\<lparr>mgr_of = t1, inst = b\<rparr>" FinalizerName] one(2) bkey by auto
  have "phase_Deleting (GetInstallStatus b)" using one(3) d(2) by (simp add: GetInstallStatus_def phase_pred_defs)
  then have second: "AddonReconciler_Reconcile (E\<lparr>now := \<tau>', env_order := \<rho>'\<rparr>) ns n t1 =
      (Ret (zero_Result, None), mgr_of s')"
    using one(2,4,5) assms(8,10) drop(1)
    by (simp add: AddonReconciler_Reconcile_def execAddon_def deleteAddon_def Finalize_def grecover_def gbind_Ret Let_def)
  have "cache_ok (versionCache t1)" using assms(6) one(6) by (simp add: mgr_ok_def addAddonToCache_def cache.ok_add)
  then have "entry_of (versionCache (mgr_of s'))
      (PkgName (Spec_PackageSpec (Spec a)), PkgVersion (Spec_PackageSpec (Spec a))) = None"
    using drop(2) one(4) by (simp add: cache.entry_remove abs_remove_def)
  with first second drop(3) show ?thesis by blast
qed

definition leaving_addon :: Addon where
  "leaving_addon = Addon_Meta_update (\<lambda>m. m\<lparr>DeletionTimestamp := Some 1, Finalizers := [FinalizerName]\<rparr>) valid_addon"

theorem two_reconciles_finalize_witness:
  "\<exists>t1 t2. AddonReconciler_Reconcile (quiet_env\<lparr>now := 5, env_order := rev\<rparr>) ''ns'' ''a'' (start_mgr [leaving_addon]) =
      (Ret (zero_Result, None), t1) \<and>
    AddonReconciler_Reconcile (quiet_env\<lparr>now := 9, env_order := rev\<rparr>) ''ns'' ''a'' t1 = (Ret (zero_Result, None), t2) \<and>
    (case kube_Get mem_kube ''ns'' ''a'' (world t2) of
       Inl e \<Rightarrow> IsNotFound e | Inr b \<Rightarrow> FinalizerName \<notin> set (Finalizers (Addon_Meta b)))"
proof -
  have get: "kube_Get (env_kube quiet_env) ''ns'' ''a'' (world (start_mgr [leaving_addon])) = Inr leaving_addon"
    by (simp add: quiet_env_sel mem_kube_def mem_get_def start_mgr_def same_object_def leaving_addon_def
        valid_addon_def zero_Addon_def)
  have gone: "DeletionTimestamp (Addon_Meta leaving_addon) \<noteq> None" by (simp add: leaving_addon_def)
  have phase: "\<not> phase_Deleting (GetInstallStatus leaving_addon)"
    by (simp add: leaving_addon_def valid_addon_def zero_Addon_def GetInstallStatus_def phase_pred_defs)
  have "Template (Lifecycle_Delete (Spec_Lifecycle (Spec leaving_addon))) = []"
    by (simp add: leaving_addon_def valid_addon_def zero_Addon_def zero_WorkflowType_def)
  from two_reconciles_finalize [OF quiet_laws(1-5) start_mgr_ok get gone phase this, of rev 5 rev 9]
  show ?thesis unfolding quiet_env_sel by blast
qed

end
