(* ===== verification/Workflow_Install.thy ===== *)
theory Workflow_Install
  imports Installation
begin

text \<open>
  An installation by an Argo workflow, from the new addon to its recorded end, across both controllers: the
  addon controller restarts the addon and then submits the install workflow; Argo runs it,
  which is a step of the environment; and the workflow controller records how it ended.
\<close>

section \<open>What the API promises about workflows\<close>

text \<open>
  A workflow that is submitted is created or exists already, and can be read afterwards under its name;
  writing the status of an addon changes no workflow.
\<close>

definition create_law :: "'w kube \<Rightarrow> ('w, 'f) wf_lib \<Rightarrow> bool" where
  "create_law K U \<longleftrightarrow>
     (\<forall>a x f f' w r w'. WorkFlowFromUnstructured U x = Inr f \<and> SetControllerReference U a f = Inr f' \<and>
        argo_Create U (un_GetNamespace U x) f' w = (r, w') \<longrightarrow>
        (r = None \<or> (\<exists>e. r = Some e \<and> IsAlreadyExists e)) \<and>
        (\<exists>found. argo_Get K (un_GetNamespace U x) (un_GetName U x) w' = Inr found))"

definition workflow_frame_law :: "'w kube \<Rightarrow> bool" where
  "workflow_frame_law K \<longleftrightarrow> (\<forall>ns x a w. argo_Get K ns x (snd (kube_StatusUpdate K a w)) = argo_Get K ns x w)"

lemma UpdateStatus_keeps_workflows:
  assumes "retry_law K" and "workflow_frame_law K"
  shows "argo_Get K ns x (world (snd (UpdateStatus K a t))) = argo_Get K ns x (world t)"
proof -
  let ?fn = "status_attempt K a" and ?I = "\<lambda>s. argo_Get K ns x (fst s) = argo_Get K ns x (world t)"
  have "argo_Get K ns x (snd (kube_StatusUpdate K c w)) = argo_Get K ns x w" for c w
    using assms(2) by (simp add: workflow_frame_law_def)
  then have step: "?I (snd (?fn s))" if "?I s" for s
    using that by (cases s) (simp add: status_attempt_def split_def split: sum.split)
  obtain s0 where "?I s0" "?fn s0 = RetryOnConflict K ?fn (world t, None)"
    using attempts_run_inv [where I = ?I, OF retry_attempts [OF assms(1), of ?fn "(world t, None)"]] step by auto
  then have "?I (snd (RetryOnConflict K ?fn (world t, None)))" using step by metis
  then show ?thesis
    by (cases "RetryOnConflict K ?fn (world t, None)")
      (auto simp: UpdateStatus_def Let_def record_event_def split: option.split prod.split)
qed

section \<open>The workflow is submitted\<close>

text \<open>
  The workflows of the spec pass the validation, and from the install template a workflow can be
  built, converted and given its owner.
\<close>

definition install_proxy :: "Addon \<Rightarrow> WorkflowProxy" where
  "install_proxy b = NewWorkflowProxy (GetFormattedWorkflowName b Install) (Lifecycle_Install (Spec_Lifecycle (Spec b))) Install"

definition installable :: "('w, 'f) wf_lib \<Rightarrow> order \<Rightarrow> string \<Rightarrow> string \<Rightarrow> AddonSpec \<Rightarrow> bool" where
  "installable U \<rho> ns n sp \<longleftrightarrow>
     (\<forall>b. Spec b = sp \<and> GetName b = n \<and> GetNamespace b = ns \<longrightarrow>
        validateWorkflow (template_lib.truncate U) \<rho> b = Ret None \<and>
        (\<exists>x f f'. buildWorkflow U \<rho> b (install_proxy b) = Ret (Inr x) \<and> WorkFlowFromUnstructured U x = Inr f \<and>
           SetControllerReference U b f = Inr f'))"

text \<open>An addon with an install workflow, without prereqs and without dependencies.\<close>

definition workflow_spec :: "Addon \<Rightarrow> bool" where
  "workflow_spec a \<longleftrightarrow>
     PkgDeps (Spec_PackageSpec (Spec a)) = [] \<and> length (GetName a) \<le> 31 \<and>
     Params_Namespace (Spec_Params (Spec a)) \<noteq> [] \<and>
     Template (Lifecycle_Prereqs (Spec_Lifecycle (Spec a))) = [] \<and>
     Template (Lifecycle_Install (Spec_Lifecycle (Spec a))) \<noteq> []"

lemma submit_install:
  assumes "wf_law U" and "create_law K U" and "frame_law K U" and "installable U \<rho> ns n sp"
    and "Spec b = sp" and "GetName b = n" and "GetNamespace b = ns"
  obtains t' found where "workflowLifecycle_Install U \<rho> b (install_proxy b) t = (Ret None, t')"
    and "argo_Get K ns (GetFormattedWorkflowName b Install) (world t') = Inr found"
    and "kube_Get K ns n (world t') = kube_Get K ns n (world t)"
proof -
  obtain x f f' where x: "buildWorkflow U \<rho> b (install_proxy b) = Ret (Inr x)" "WorkFlowFromUnstructured U x = Inr f"
    "SetControllerReference U b f = Inr f'"
    using assms(4-7) unfolding installable_def by blast
  obtain r w' where r: "argo_Create U (un_GetNamespace U x) f' (world t) = (r, w')"
    by (cases "argo_Create U (un_GetNamespace U x) f' (world t)")
  have names: "un_GetName U x = GetFormattedWorkflowName b Install" "un_GetNamespace U x = ns"
    using built_workflow_names [OF assms(1) x(1)] assms(7) by (simp_all add: install_proxy_def NewWorkflowProxy_def)
  have accepted: "r = None \<or> (\<exists>e. r = Some e \<and> IsAlreadyExists e)"
    "\<exists>found. argo_Get K ns (GetFormattedWorkflowName b Install) w' = Inr found"
    using assms(2) [unfolded create_law_def, rule_format, of x f b f' "world t" r w'] x(2,3) r names by auto
  define t' where "t' = snd (workflowLifecycle_Install U \<rho> b (install_proxy b) t)"
  have t': "workflowLifecycle_Install U \<rho> b (install_proxy b) t = (Ret None, t')" "world t' = w'"
    using x r accepted(1) by (auto simp: t'_def workflowLifecycle_Install_def submit_def record_event_def)
  have "kube_Get K ns n (world t') = kube_Get K ns n (world t)"
    using quiet_Install [OF assms(3)] by (simp add: quiet_def t'_def)
  with t' accepted(2) show thesis using that by blast
qed

text \<open>The phase that is read back is none, pending or that of a finished workflow.\<close>

lemma run_install:
  assumes "\<not> step_completed Install (inst s)" and "Template (Lifecycle_Install (Spec_Lifecycle (Spec (inst s)))) \<noteq> []"
    and "wfl (inst s) (install_proxy (inst s)) (mgr_of s) = (Ret None, t')" and "GetInstallStatus (inst s) = Pending"
  obtains s' where "runWorkflow K wfl Install s = (Ret None, s')"
    and "world (mgr_of s') = world t'" and "Addon_Meta (inst s') = Addon_Meta (inst s)" and "Spec (inst s') = Spec (inst s)"
    and "Checksum (Status (inst s')) = Checksum (Status (inst s))" and "GetPrereqStatus (inst s') = GetPrereqStatus (inst s)"
    and "GetInstallStatus (inst s') \<in> {Pending, Succeeded, Failed}"
proof -
  let ?name = "GetFormattedWorkflowName (inst s) Install"
  have wt: "GetWorkflowType (inst s) Install = Inr (Lifecycle_Install (Spec_Lifecycle (Spec (inst s))))"
    by (simp add: GetWorkflowType_def)
  then have name: "?name \<noteq> []" by (simp add: GetFormattedWorkflowName_def Let_def)
  define s1 where "s1 = s\<lparr>mgr_of := record_event ''Normal'' ''Submitted'' (''Submitted '' @ Title Install @ '' workflow ''
    @ GetNamespace (inst s) @ ''/'' @ ?name @ ''.'') t'\<rparr>"
  have submitted: "on_mgr (wfl (inst s) (install_proxy (inst s))) s = (Ret None, s\<lparr>mgr_of := t'\<rparr>)"
    using assms(3) by (simp add: on_mgr_def)
  have run: "runWorkflow K wfl Install s = syncPhase K Install ?name s1"
    using assms(1,2) wt name
    by (simp add: runWorkflow_def Let_def s1_def gbind_Ret submitted [unfolded install_proxy_def])
  define p where "p = (case argo_Get K (GetNamespace (inst s)) ?name (world t') of
    Inl _ \<Rightarrow> [] | Inr found \<Rightarrow> ConvertWorkflowPhaseToAddonPhase Install (Workflow_Phase found))"
  have p: "p \<in> {[], Pending, Succeeded, Failed}"
    by (auto simp: p_def ConvertWorkflowPhaseToAddonPhase_def split: sum.split)
  have "syncPhase K Install ?name s1 = (Ret None, if p = [] then s1 else s1\<lparr>inst := set_step Install p (inst s)\<rparr>)"
    by (simp add: syncPhase_def s1_def p_def Let_def split: sum.split)
  moreover have "GetInstallStatus (set_step Install p (inst s)) = p" "GetPrereqStatus (set_step Install p (inst s)) = GetPrereqStatus (inst s)"
    "Spec (set_step Install p (inst s)) = Spec (inst s)" "Checksum (Status (set_step Install p (inst s))) = Checksum (Status (inst s))"
    by (simp_all add: set_step_def SetStatusByLifecyleStep_def step_setter.keeps_all)
  ultimately show thesis
    using p assms(4) run
    by (intro that [of "if p = [] then s1 else s1\<lparr>inst := set_step Install p (inst s)\<rparr>"]) (auto simp: s1_def)
qed

text \<open>What the part of the reconciliation after the validation leaves.\<close>

definition submitted_result :: "'w kube \<Rightarrow> string \<Rightarrow> string \<Rightarrow> Result \<Rightarrow> 'w ctl \<Rightarrow> bool" where
  "submitted_result K ns name r s \<longleftrightarrow>
     GetPrereqStatus (inst s) = Succeeded \<and> GetInstallStatus (inst s) \<in> {Pending, Succeeded, Failed} \<and>
     r = (if GetInstallStatus (inst s) = Pending then \<lparr>Result_Requeue = False, Result_RequeueAfter = 30\<rparr> else zero_Result) \<and>
     (\<exists>found. argo_Get K ns name (world (mgr_of s)) = Inr found)"

lemma execute_workflow:
  assumes "wf_law U" and "create_law K U" and "frame_law K U" and "installable U \<rho> ns n sp"
    and "pending_inst K ns n sp \<tau> s" and "workflow_spec (inst s)" and "answers K (inst s)"
  obtains s' found where "executePrereqAndInstall K (workflowLifecycle_Install U \<rho>) s = (Ret None, s')"
    and "argo_Get K ns (GetFormattedWorkflowName (inst s) Install) (world (mgr_of s')) = Inr found"
    and "kube_Get K ns n (world (mgr_of s')) = kube_Get K ns n (world (mgr_of s))"
    and "Addon_Meta (inst s') = Addon_Meta (inst s)" and "Spec (inst s') = Spec (inst s)"
    and "Checksum (Status (inst s')) = CalculateChecksum (inst s)" and "GetPrereqStatus (inst s') = Succeeded"
    and "GetInstallStatus (inst s') \<in> {Pending, Succeeded, Failed}"
proof -
  let ?wfl = "workflowLifecycle_Install U \<rho>" and ?a = "set_step Prereqs Succeeded (inst s)"
  define s1 where "s1 = s\<lparr>inst := ?a\<rparr>"
  have pend: "GetPrereqStatus (inst s) = Pending" "Checksum (Status (inst s)) = CalculateChecksum (inst s)"
    "Spec (inst s) = sp" "GetName (inst s) = n" "GetNamespace (inst s) = ns"
    using assms(5) by (simp_all add: pending_inst_def)
  have a: "Addon_Meta ?a = Addon_Meta (inst s)" "Spec ?a = Spec (inst s)" "Checksum (Status ?a) = Checksum (Status (inst s))"
    by (simp_all add: set_step_def step_setter.keeps_all)
  have st: "GetPrereqStatus ?a = Succeeded" "GetInstallStatus ?a = Pending"
    by (simp_all add: set_step_def SetStatusByLifecyleStep_def SetPrereqAndInstallStatuses_def)
  have pre: "runWorkflow K ?wfl Prereqs s = (Ret None, s1)"
    unfolding s1_def using assms(6) pend(1)
    by (intro runWorkflow_no_template [where wt = "Lifecycle_Prereqs (Spec_Lifecycle (Spec (inst s)))"]) (simp_all add: workflow_spec_def GetWorkflowType_def step_completed_def phase_pred_defs)
  have sec: "validateSecrets K (inst s1) (world (mgr_of s1)) = Ret None"
    by (rule answers_secrets) (use answers_cong [of ?a "inst s" K] a assms(7) in \<open>simp add: s1_def\<close>)
  have i1: "Spec (inst s1) = sp" "GetName (inst s1) = n" "GetNamespace (inst s1) = ns"
    using a pend by (simp_all add: s1_def)
  obtain t' found where sub: "?wfl (inst s1) (install_proxy (inst s1)) (mgr_of s1) = (Ret None, t')"
    "argo_Get K ns (GetFormattedWorkflowName (inst s1) Install) (world t') = Inr found"
    "kube_Get K ns n (world t') = kube_Get K ns n (world (mgr_of s1))"
    using submit_install [OF assms(1-4) i1] .
  have todo: "\<not> step_completed Install (inst s1)"
    "Template (Lifecycle_Install (Spec_Lifecycle (Spec (inst s1)))) \<noteq> []" "GetInstallStatus (inst s1) = Pending"
    using st(2) assms(6) a(2) by (simp_all add: s1_def step_completed_def phase_pred_defs workflow_spec_def)
  obtain s' where run: "runWorkflow K ?wfl Install s1 = (Ret None, s')" "world (mgr_of s') = world t'"
    "Addon_Meta (inst s') = Addon_Meta (inst s1)" "Spec (inst s') = Spec (inst s1)"
    "Checksum (Status (inst s')) = Checksum (Status (inst s1))" "GetPrereqStatus (inst s') = GetPrereqStatus (inst s1)"
    "GetInstallStatus (inst s') \<in> {Pending, Succeeded, Failed}"
    using run_install [where K = K and wfl = ?wfl and s = s1, OF todo(1,2) sub(1) todo(3)] .
  have "GetFormattedWorkflowName (inst s1) Install = GetFormattedWorkflowName (inst s) Install"
    using a by (simp add: s1_def GetFormattedWorkflowName_def GetWorkflowType_def CalculateChecksum_def)
  moreover have "executePrereqAndInstall K ?wfl s = (Ret None, s')"
    using pre sec run(1) st(1)
    by (simp add: executePrereqAndInstall_def gbind_Ret GetPrereqStatus_def phase_pred_defs s1_def)
  ultimately show thesis
    using sub(2,3) run(2-7) a pend(2) st(1) by (intro that [of s' found]) (simp_all add: s1_def)
qed

lemma install_workflow:
  assumes "wf_law U" and "create_law K U" and "frame_law K U" and "installable U \<rho> ns n sp"
    and "pending_inst K ns n sp \<tau> s" and "workflow_spec (inst s)" and "answers K (inst s)"
    and "\<not> IsExpired t \<tau> TTL_Milliseconds"
  shows "\<exists>r s'. installAddon K (workflowLifecycle_Install U \<rho>) t s = (Ret (r, None), s') \<and>
    submitted_result K ns (GetFormattedWorkflowName (inst s) Install) r s' \<and>
    kube_Get K ns n (world (mgr_of s')) = kube_Get K ns n (world (mgr_of s)) \<and>
    Addon_Meta (inst s') = Addon_Meta (inst s) \<and> Checksum (Status (inst s')) = CalculateChecksum (inst s)"
proof -
  obtain s1 found where ex: "executePrereqAndInstall K (workflowLifecycle_Install U \<rho>) s = (Ret None, s1)"
    "argo_Get K ns (GetFormattedWorkflowName (inst s) Install) (world (mgr_of s1)) = Inr found"
    "kube_Get K ns n (world (mgr_of s1)) = kube_Get K ns n (world (mgr_of s))"
    "Addon_Meta (inst s1) = Addon_Meta (inst s)" "Spec (inst s1) = Spec (inst s)"
    "Checksum (Status (inst s1)) = CalculateChecksum (inst s)" "GetPrereqStatus (inst s1) = Succeeded"
    "GetInstallStatus (inst s1) \<in> {Pending, Succeeded, Failed}"
    using execute_workflow [OF assms(1-7)] .
  have "answers K (inst s1)" using answers_cong [of "inst s1" "inst s" K] ex(4,5) assms(7) by simp
  then obtain s2 where ob: "observeAddon K s1 =
      (Ret (if phase_Running (GetInstallStatus (inst s1)) then \<lparr>Result_Requeue = False, Result_RequeueAfter = 30\<rparr>
            else zero_Result, None), s2)"
    "mgr_of s2 = mgr_of s1" "Addon_Meta (inst s2) = Addon_Meta (inst s1)"
    "Status_Lifecycle (Status (inst s2)) = Status_Lifecycle (Status (inst s1))"
    "Checksum (Status (inst s2)) = Checksum (Status (inst s1))"
    by (rule observe_answers)
  have "installAddon K (workflowLifecycle_Install U \<rho>) t s = observeAddon K s1"
    using assms(5,8) ex(1) by (simp add: installAddon_def pending_inst_def GetInstallStatus_def phase_pred_defs gbind_Ret)
  with ob ex show ?thesis
    by (auto simp: submitted_result_def GetInstallStatus_def GetPrereqStatus_def phase_pred_defs)
qed

section \<open>The whole installation\<close>

text \<open>The second reconciliation submits the workflow.\<close>

lemma reconcile_submits:
  assumes "retry_law K" and "get_law K" and "status_law K" and "write_law K" and "finalizer_law K"
    and "frame_law K (env_lib E)" and "wf_law (env_lib E)" and "create_law K (env_lib E)" and "workflow_frame_law K"
    and "env_kube E = K" and "rng_ok (env_order E)" and "kube_Get K ns n (world t) = Inr a"
    and "pending_inst K ns n sp \<tau> \<lparr>mgr_of = t, inst = a\<rparr>" and "own_entry n sp t"
    and "workflow_spec a" and "answers K a" and "installable (env_lib E) (env_order E) ns n sp"
    and "\<not> IsExpired (now E) \<tau> TTL_Milliseconds"
  obtains r t1 b found where "AddonReconciler_Reconcile E ns n t = (Ret (r, None), t1)"
    and "kube_Get K ns n (world t1) = Inr b" and "DeletionTimestamp (Addon_Meta b) = None" and "Spec b = sp"
    and "GetPrereqStatus b = Succeeded" and "GetInstallStatus b \<in> {Pending, Succeeded, Failed}"
    and "Checksum (Status b) = CalculateChecksum b"
    and "argo_Get K ns (GetFormattedWorkflowName b Install) (world t1) = Inr found"
proof -
  let ?a = "fresh_status a" and ?name = "GetFormattedWorkflowName a Install"
  have name: "GetFormattedWorkflowName c Install = ?name" if "Spec c = Spec a" "GetName c = GetName a" for c
    using that by (simp add: GetFormattedWorkflowName_def GetWorkflowType_def CalculateChecksum_def)
  have spec: "workflow_spec c" if "Spec c = Spec a" "GetName c = GetName a" for c
    using that assms(15) by (simp add: workflow_spec_def)
  have pa: "Spec a = sp" "GetName a = n" "GetNamespace a = ns" using assms(13) by (simp_all add: pending_inst_def)
  have "validateWorkflow (template_lib.truncate (env_lib E)) (env_order E) ?a = Ret None"
    using assms(17) pa unfolding installable_def by simp
  then have val: "addonValidator_Validate (template_lib.truncate (env_lib E)) (env_order E) (env_semver E)
      (versionCache t) ?a = Ret (True, None)"
    using assms(14) spec [of ?a] pa
    by (auto simp: own_entry_def workflow_spec_def intro!: Validate_no_deps [OF assms(11)])
  show thesis
  proof (rule reconcile_pending [where R = "submitted_result K ns ?name", OF assms(1-5,10,12,13) val])
    fix s assume pend: "pending_inst K ns n sp \<tau> s"
    then have eq: "Spec (inst s) = Spec a" "GetName (inst s) = GetName a" using pa by (simp_all add: pending_inst_def)
    have "answers K (inst s)" by (simp add: answers_cong [OF eq] assms(16))
    then show "\<exists>r s'. installAddon K (workflowLifecycle_Install (env_lib E) (env_order E)) (now E) s = (Ret (r, None), s') \<and>
        submitted_result K ns ?name r s' \<and> kube_Get K ns n (world (mgr_of s')) = kube_Get K ns n (world (mgr_of s)) \<and>
        Addon_Meta (inst s') = Addon_Meta (inst s) \<and> Checksum (Status (inst s')) = CalculateChecksum (inst s)"
      using install_workflow [OF assms(7,8,6,17) pend spec [OF eq] _ assms(18)] name [OF eq] by simp
  next
    fix r s' t1 b
    assume rec: "AddonReconciler_Reconcile E ns n t = (Ret (r, None), t1)" and res: "submitted_result K ns ?name r s'"
      and up: "UpdateStatus K (inst s') (mgr_of s') = (None, t1)" and get: "kube_Get K ns n (world t1) = Inr b"
      and b: "DeletionTimestamp (Addon_Meta b) = None" "Spec b = sp" "Status b = Status (inst s')"
        "Checksum (Status b) = CalculateChecksum b"
    have "GetName b = GetName a" using assms(2) get pa(2) by (auto simp: get_law_def)
    then have "GetFormattedWorkflowName b Install = ?name" using b(2) pa(1) by (intro name) simp_all
    moreover obtain found where "argo_Get K ns ?name (world t1) = Inr found"
      using res up UpdateStatus_keeps_workflows [OF assms(1,9), of ns ?name "inst s'" "mgr_of s'"]
      by (auto simp: submitted_result_def)
    ultimately show thesis
      using res b by (intro that [OF rec get b(1,2), of found])
        (simp_all add: submitted_result_def GetInstallStatus_def GetPrereqStatus_def)
  qed
qed

text \<open>The end of the workflow is recorded.\<close>

lemma end_recorded:
  assumes "retry_law K" and "get_law K" and "status_law K" and "write_law K"
    and "kube_Get K ns n (world t) = Inr b" and "\<not> phase_Completed (GetInstallStatus b)"
    and "kube_GetWorkflow K ns name (world t) = Inr wfobj" and "Workflow_Name wfobj = GetFormattedWorkflowName b Install"
    and "Workflow_Namespace wfobj = ns" and "Workflow_DeletionTimestamp wfobj = None"
    and "Workflow_Phase wfobj \<in> {WorkflowSucceeded, WorkflowFailed, WorkflowError}"
    and "Workflow_Controller wfobj = Some \<lparr>Owner_Kind = ''Addon'', Owner_Name = n\<rparr>"
  obtains t' c where "WorkflowReconciler_Reconcile K gofmt ns name t = (None, t')"
    and "kube_Get K ns n (world t') = Inr c" and "Spec c = Spec b" and "Checksum (Status c) = Checksum (Status b)"
    and "GetInstallStatus c = (if Workflow_Phase wfobj = WorkflowSucceeded then Succeeded else Failed)"
    and "UpdateStatus K (finished_install wfobj b) t = (None, t')"
    and "versionCache t' = addAddonToCache (finished_install wfobj b) (versionCache t)"
proof -
  let ?a = "finished_install wfobj b"
  have meta: "GetNamespace ?a = ns" "GetName ?a = n" using assms(2,5) by (auto simp: finished_install_def get_law_def)
  have "\<not> race_guard b ?a" using assms(6) by (simp add: race_guard_def GetInstallStatus_def)
  then obtain t' c where up: "UpdateStatus K ?a t = (None, t')" "kube_Get K ns n (world t') = Inr c"
    "Status c = Status ?a" "Spec c = Spec b" "versionCache t' = addAddonToCache ?a (versionCache t)"
    using UpdateStatus_lands [OF assms(1-5) meta] by metis
  have "WorkflowReconciler_Reconcile K gofmt ns name t = UpdateAddonStatusLifecycleFromWorkflow K ns n wfobj t"
    using assms(7,9-12) by (auto simp: WorkflowReconciler_Reconcile_def)
  then have "WorkflowReconciler_Reconcile K gofmt ns name t = (None, t')"
    using UpdateFromWorkflow_finished [OF assms(5,6,8,11)] up(1) by simp
  with up finished_install_status [of wfobj b] show thesis
    by (intro that [of t' c]) (simp_all add: GetInstallStatus_def)
qed

lemma install_submitted:
  assumes "retry_law (env_kube E)" and "get_law (env_kube E)" and "status_law (env_kube E)"
    and "write_law (env_kube E)" and "finalizer_law (env_kube E)" and "frame_law (env_kube E) (env_lib E)"
    and "wf_law (env_lib E)" and "create_law (env_kube E) (env_lib E)" and "workflow_frame_law (env_kube E)"
    and "rng_ok \<rho>" and "rng_ok \<rho>'" and "mgr_ok t"
    and "kube_Get (env_kube E) ns n (world t) = Inr a" and "DeletionTimestamp (Addon_Meta a) = None"
    and "Checksum (Status a) \<noteq> CalculateChecksum a"
    and "workflow_spec a" and "answers (env_kube E) a" and "installable (env_lib E) \<rho>' ns n (Spec a)"
    and "0 \<le> sint \<tau>" and "0 \<le> sint \<tau>'" and "sint \<tau>' < sint \<tau> + 3600000"
  obtains t1 t2 r b found where "AddonReconciler_Reconcile (E\<lparr>now := \<tau>, env_order := \<rho>\<rparr>) ns n t =
      (Ret (\<lparr>Result_Requeue = True, Result_RequeueAfter = 0\<rparr>, None), t1)"
    and "AddonReconciler_Reconcile (E\<lparr>now := \<tau>', env_order := \<rho>'\<rparr>) ns n t1 = (Ret (r, None), t2)"
    and "kube_Get (env_kube E) ns n (world t2) = Inr b" and "Spec b = Spec a"
    and "GetInstallStatus b \<in> {Pending, Succeeded, Failed}" and "Checksum (Status b) = CalculateChecksum b"
    and "argo_Get (env_kube E) ns (GetFormattedWorkflowName b Install) (world t2) = Inr found"
    and "GetFormattedWorkflowName b Install = GetFormattedWorkflowName a Install"
proof -
  let ?K = "env_kube E" and ?E1 = "E\<lparr>now := \<tau>, env_order := \<rho>\<rparr>" and ?E2 = "E\<lparr>now := \<tau>', env_order := \<rho>'\<rparr>"
  obtain t1 a1 where one: "AddonReconciler_Reconcile ?E1 ns n t =
      (Ret (\<lparr>Result_Requeue = True, Result_RequeueAfter = 0\<rparr>, None), t1)"
    "kube_Get ?K ns n (world t1) = Inr a1" "pending_inst ?K ns n (Spec a) \<tau> \<lparr>mgr_of = t1, inst = a1\<rparr>"
    "own_entry n (Spec a) t1"
    by (rule reconcile_first [OF assms(1-4,6) _ assms(12-15,17), where E = ?E1]) simp_all
  have eq: "Spec a1 = Spec a" "GetName a1 = GetName a"
    using one(3) assms(2,13) by (auto simp: pending_inst_def get_law_def)
  have alive: "\<not> IsExpired \<tau>' \<tau> TTL_Milliseconds"
    using assms(21) by (simp add: IsExpired_nonneg [OF assms(20,19)] TTL_Milliseconds_def)
  have ready: "workflow_spec a1" "answers ?K a1"
    using eq assms(16,17) by (simp_all add: workflow_spec_def answers_cong [OF eq])
  obtain r t2 b found where two: "AddonReconciler_Reconcile ?E2 ns n t1 = (Ret (r, None), t2)"
    "kube_Get ?K ns n (world t2) = Inr b" "Spec b = Spec a" "GetInstallStatus b \<in> {Pending, Succeeded, Failed}"
    "Checksum (Status b) = CalculateChecksum b"
    "argo_Get ?K ns (GetFormattedWorkflowName b Install) (world t2) = Inr found"
    by (rule reconcile_submits [OF assms(1-5) _ _ _ assms(9) _ _ one(2-4) ready, where E = ?E2])
      (use assms(6-8,11,18) alive in simp_all)
  have "GetName b = GetName a" using two(2) assms(2,13) by (auto simp: get_law_def)
  then have name: "GetFormattedWorkflowName b Install = GetFormattedWorkflowName a Install"
    using two(3) by (simp add: GetFormattedWorkflowName_def GetWorkflowType_def CalculateChecksum_def)
  show thesis by (rule that [OF one(1) two name])
qed

text \<open>
  C14: An addon with an install workflow is brought to its end by two reconciliations, Argo, and one
  reconciliation of the workflow. Take a new or changed addon with an install template
  that is valid and can be built, without prereqs and dependencies, on an API that answers and accepts writes
  of the current version. The first reconciliation succeeds and asks to be requeued; the
  second, if it comes within an hour, succeeds, and then the workflow of the installation exists and
  the addon is pending, unless the workflow has ended already. Whenever Argo has ended the
  workflow while the addon was pending, reconciling the workflow succeeds and the API reports the
  addon as installed if the workflow succeeded and as failed otherwise, with the spec as it was
  and its checksum.
\<close>

theorem workflow_install_completes:
  assumes "retry_law (env_kube E)" and "get_law (env_kube E)" and "status_law (env_kube E)"
    and "write_law (env_kube E)" and "finalizer_law (env_kube E)" and "frame_law (env_kube E) (env_lib E)"
    and "wf_law (env_lib E)" and "create_law (env_kube E) (env_lib E)" and "workflow_frame_law (env_kube E)"
    and "rng_ok \<rho>" and "rng_ok \<rho>'" and "mgr_ok t"
    and "kube_Get (env_kube E) ns n (world t) = Inr a" and "DeletionTimestamp (Addon_Meta a) = None"
    and "Checksum (Status a) \<noteq> CalculateChecksum a"
    and "workflow_spec a" and "answers (env_kube E) a" and "installable (env_lib E) \<rho>' ns n (Spec a)"
    and "0 \<le> sint \<tau>" and "0 \<le> sint \<tau>'" and "sint \<tau>' < sint \<tau> + 3600000"
  shows "\<exists>t1 t2 r b found. AddonReconciler_Reconcile (E\<lparr>now := \<tau>, env_order := \<rho>\<rparr>) ns n t =
      (Ret (\<lparr>Result_Requeue = True, Result_RequeueAfter = 0\<rparr>, None), t1) \<and>
    AddonReconciler_Reconcile (E\<lparr>now := \<tau>', env_order := \<rho>'\<rparr>) ns n t1 = (Ret (r, None), t2) \<and>
    argo_Get (env_kube E) ns (GetFormattedWorkflowName a Install) (world t2) = Inr found \<and>
    kube_Get (env_kube E) ns n (world t2) = Inr b \<and> Spec b = Spec a \<and>
    GetInstallStatus b \<in> {Pending, Succeeded, Failed} \<and>
    (\<forall>w wfobj. GetInstallStatus b = Pending \<and> kube_Get (env_kube E) ns n w = Inr b \<and>
       kube_GetWorkflow (env_kube E) ns (GetFormattedWorkflowName a Install) w = Inr wfobj \<and>
       Workflow_Name wfobj = GetFormattedWorkflowName a Install \<and> Workflow_Namespace wfobj = ns \<and>
       Workflow_DeletionTimestamp wfobj = None \<and>
       Workflow_Phase wfobj \<in> {WorkflowSucceeded, WorkflowFailed, WorkflowError} \<and>
       Workflow_Controller wfobj = Some \<lparr>Owner_Kind = ''Addon'', Owner_Name = n\<rparr> \<longrightarrow>
       (\<exists>t3 c. WorkflowReconciler_Reconcile (env_kube E) gofmt ns (GetFormattedWorkflowName a Install) (t2\<lparr>world := w\<rparr>) =
            (None, t3) \<and>
          kube_Get (env_kube E) ns n (world t3) = Inr c \<and> Spec c = Spec a \<and>
          GetInstallStatus c = (if Workflow_Phase wfobj = WorkflowSucceeded then Succeeded else Failed) \<and>
          Checksum (Status c) = CalculateChecksum c))"
proof -
  let ?K = "env_kube E" and ?name = "GetFormattedWorkflowName a Install"
  obtain t1 t2 r b found where run: "AddonReconciler_Reconcile (E\<lparr>now := \<tau>, env_order := \<rho>\<rparr>) ns n t =
      (Ret (\<lparr>Result_Requeue = True, Result_RequeueAfter = 0\<rparr>, None), t1)"
    "AddonReconciler_Reconcile (E\<lparr>now := \<tau>', env_order := \<rho>'\<rparr>) ns n t1 = (Ret (r, None), t2)"
    "kube_Get ?K ns n (world t2) = Inr b" "Spec b = Spec a" "GetInstallStatus b \<in> {Pending, Succeeded, Failed}"
    "Checksum (Status b) = CalculateChecksum b"
    "argo_Get ?K ns (GetFormattedWorkflowName b Install) (world t2) = Inr found" "GetFormattedWorkflowName b Install = ?name"
    by (rule install_submitted [OF assms])
  show ?thesis
  proof (rule exI [of _ t1], rule exI [of _ t2], rule exI [of _ r], rule exI [of _ b], rule exI [of _ found],
      intro conjI allI impI; (elim conjE)?)
    fix w wfobj
    assume "GetInstallStatus b = Pending" and get: "kube_Get ?K ns n w = Inr b" "kube_GetWorkflow ?K ns ?name w = Inr wfobj"
      "Workflow_Name wfobj = ?name" and wfobj: "Workflow_Namespace wfobj = ns" "Workflow_DeletionTimestamp wfobj = None"
        "Workflow_Phase wfobj \<in> {WorkflowSucceeded, WorkflowFailed, WorkflowError}"
        "Workflow_Controller wfobj = Some \<lparr>Owner_Kind = ''Addon'', Owner_Name = n\<rparr>"
    then have pend: "\<not> phase_Completed (GetInstallStatus b)" by (simp add: phase_pred_defs)
    obtain t3 c where "WorkflowReconciler_Reconcile ?K gofmt ns ?name (t2\<lparr>world := w\<rparr>) = (None, t3)"
      "kube_Get ?K ns n (world t3) = Inr c" "Spec c = Spec b" "Checksum (Status c) = Checksum (Status b)"
      "GetInstallStatus c = (if Workflow_Phase wfobj = WorkflowSucceeded then Succeeded else Failed)"
      by (rule end_recorded [OF assms(1-4) _ pend _ _ wfobj, of "t2\<lparr>world := w\<rparr>" ?name gofmt])
        (use get run(8) in simp_all)
    then show "\<exists>t3 c. WorkflowReconciler_Reconcile ?K gofmt ns ?name (t2\<lparr>world := w\<rparr>) = (None, t3) \<and>
        kube_Get ?K ns n (world t3) = Inr c \<and> Spec c = Spec a \<and>
        GetInstallStatus c = (if Workflow_Phase wfobj = WorkflowSucceeded then Succeeded else Failed) \<and>
        Checksum (Status c) = CalculateChecksum c"
      using run(4,6) by (intro exI [of _ t3] exI [of _ c]) (simp add: CalculateChecksum_def)
  qed (use run in simp_all)
qed

section \<open>An installation in memory\<close>

text \<open>Every document is an Argo workflow with an empty spec.\<close>

definition argo_lib :: "(mem, Workflow) wf_lib" where
  "argo_lib = mem_lib\<lparr>yaml_Unmarshal := (\<lambda>_ _. Inr (mem_set_kind argoGKV [(''spec'', JObj [])]))\<rparr>"

definition argo_env :: "(mem, Workflow, unit, string) env" where
  "argo_env = quiet_env\<lparr>env_lib := argo_lib\<rparr>"

lemma argo_sel:
  "un_SetName argo_lib = un_SetName mem_lib" "un_SetNamespace argo_lib = un_SetNamespace mem_lib"
  "un_SetLabels argo_lib = un_SetLabels mem_lib" "un_GetName argo_lib = un_GetName mem_lib"
  "un_GetNamespace argo_lib = un_GetNamespace mem_lib" "un_GetLabels argo_lib = un_GetLabels mem_lib"
  "GroupVersionKind_of argo_lib = GroupVersionKind_of mem_lib" "SetGroupVersionKind argo_lib = SetGroupVersionKind mem_lib"
  "SetNestedField argo_lib = SetNestedField mem_lib" "SetNestedSlice argo_lib = SetNestedSlice mem_lib"
  "NestedInt64 argo_lib = NestedInt64 mem_lib" "argo_Create argo_lib = argo_Create mem_lib"
  "env_kube argo_env = env_kube quiet_env" "env_lib argo_env = argo_lib"
  by (simp_all add: argo_lib_def argo_env_def)

lemma argo_laws: "wf_law (env_lib argo_env)" "frame_law (env_kube argo_env) (env_lib argo_env)"
  using mem_lib_law quiet_laws(6)
  unfolding wf_law_def meta_read_law_def meta_write_law_def meta_frame_law_def kind_law_def nested_law_def frame_law_def
    argo_sel quiet_env_sel
  by blast+

lemma argo_frame: "workflow_frame_law (env_kube argo_env)"
proof -
  have "mem_workflows (snd (mem_status_update a w)) = mem_workflows w" for a w
    by (simp add: mem_status_update_def mem_put_def Let_def split: sum.split)
  then have "mem_wf_get ns x (snd (mem_status_update a w)) = mem_wf_get ns x w" for ns x a w
    by (simp add: mem_wf_get_def)
  then show ?thesis
    by (simp add: workflow_frame_law_def argo_sel quiet_env_def mem_env_def mem_kube_def)
qed

lemma find_None_append: "List.find P xs = None \<Longrightarrow> List.find P (xs @ ys) = List.find P ys"
  by (induction xs) (auto split: if_splits)

lemma argo_create: "create_law (env_kube argo_env) (env_lib argo_env)"
  unfolding create_law_def
proof (intro allI impI; elim conjE)
  fix a x f f' w r w'
  assume f: "WorkFlowFromUnstructured (env_lib argo_env) x = Inr f" "SetControllerReference (env_lib argo_env) a f = Inr f'"
    and cr: "argo_Create (env_lib argo_env) (un_GetNamespace (env_lib argo_env) x) f' w = (r, w')"
  let ?ns = "mem_get_meta ''namespace'' x" and ?n = "mem_get_meta ''name'' x"
  have f': "Workflow_Name f' = ?n" "Workflow_Namespace f' = ?ns"
    using f by (auto simp: argo_env_def argo_lib_def mem_lib_def WorkFlowFromUnstructured_def FromUnstructuredObj_def mem_typed_def)
  have cr': "mem_create ?ns f' w = (r, w')" using cr by (simp add: argo_env_def argo_lib_def mem_lib_def)
  have "(r = None \<or> (\<exists>e. r = Some e \<and> IsAlreadyExists e)) \<and> (\<exists>found. mem_wf_get ?ns ?n w' = Inr found)"
  proof (cases "mem_wf_get ?ns ?n w")
    case (Inl e)
    then have "List.find (\<lambda>f. Workflow_Namespace f = ?ns \<and> Workflow_Name f = ?n) (mem_workflows w) = None"
      by (simp add: mem_wf_get_def split: option.splits)
    then have "List.find (\<lambda>f. Workflow_Namespace f = ?ns \<and> Workflow_Name f = ?n) (mem_workflows w @ [f']) = Some f'"
      using f' by (simp add: find_None_append)
    then show ?thesis using cr' Inl f'(1) by (auto simp: mem_create_def mem_wf_get_def split: option.splits)
  next
    case (Inr found)
    then show ?thesis using cr' f'(1) by (auto simp: mem_create_def IsAlreadyExists_def)
  qed
  then show "(r = None \<or> (\<exists>e. r = Some e \<and> IsAlreadyExists e)) \<and> (\<exists>found. argo_Get (env_kube argo_env)
      (un_GetNamespace (env_lib argo_env) x) (un_GetName (env_lib argo_env) x) w' = Inr found)"
    by (simp add: argo_sel quiet_env_def mem_env_def mem_kube_def mem_lib_def)
qed

definition workflow_addon :: Addon where
  "workflow_addon = Spec_update (Spec_Lifecycle_update (Lifecycle_Install_update (Template_update (\<lambda>_. ''t'')))) valid_addon"

lemma workflow_addon_installable: "installable argo_lib rev ''ns'' ''a'' (Spec workflow_addon)"
  unfolding installable_def
proof (intro allI impI; elim conjE; intro conjI)
  fix b assume b: "Spec b = Spec workflow_addon" "GetName b = ''a''" "GetNamespace b = ''ns''"
  show "validateWorkflow (template_lib.truncate argo_lib) rev b = Ret None"
    by (simp add: validateWorkflow_def workflowTypes_def gm_range_def List.map_filter_def b workflow_addon_def valid_addon_def
        zero_Addon_def zero_WorkflowType_def step_const_defs template_lib.truncate_def argo_lib_def mem_lib_def
        mem_set_kind_def mem_get_kind_def argoGKV_def)
  have "\<exists>x. buildWorkflow argo_lib rev b (install_proxy b) = Ret (Inr x)"
    by (simp add: buildWorkflow_def parse_def argo_lib_def mem_lib_def install_proxy_def NewWorkflowProxy_def
        configureGlobalWFParameters_def is_nil_def configureWorkflowArtifacts_def
        processWorkflowResources_def processTemplates_def injectTTLs_def mem_int_def ttl_path_def
        injectActiveDeadlineSeconds_def deadline_path_def mem_set_meta_def mem_set_kind_def Let_def)
  then show "\<exists>x f f'. buildWorkflow argo_lib rev b (install_proxy b) = Ret (Inr x) \<and>
      WorkFlowFromUnstructured argo_lib x = Inr f \<and> SetControllerReference argo_lib b f = Inr f'"
    by (auto simp: WorkFlowFromUnstructured_def FromUnstructuredObj_def argo_lib_def mem_lib_def)
qed

theorem workflow_install_completes_witness:
  "\<exists>t1 t2 r b found. AddonReconciler_Reconcile (argo_env\<lparr>now := 5, env_order := rev\<rparr>) ''ns'' ''a'' (start_mgr [workflow_addon]) =
      (Ret (\<lparr>Result_Requeue = True, Result_RequeueAfter = 0\<rparr>, None), t1) \<and>
    AddonReconciler_Reconcile (argo_env\<lparr>now := 9, env_order := rev\<rparr>) ''ns'' ''a'' t1 = (Ret (r, None), t2) \<and>
    argo_Get (env_kube argo_env) ''ns'' (GetFormattedWorkflowName workflow_addon Install) (world t2) = Inr found \<and>
    kube_Get (env_kube argo_env) ''ns'' ''a'' (world t2) = Inr b \<and> GetInstallStatus b \<in> {Pending, Succeeded, Failed}"
proof -
  have get: "kube_Get (env_kube argo_env) ''ns'' ''a'' (world (start_mgr [workflow_addon])) = Inr workflow_addon"
    by (simp add: argo_sel quiet_env_sel mem_kube_def mem_get_def start_mgr_def same_object_def workflow_addon_def
        valid_addon_def zero_Addon_def)
  have alive: "DeletionTimestamp (Addon_Meta workflow_addon) = None"
    by (simp add: workflow_addon_def valid_addon_def zero_Addon_def)
  have chk: "Checksum (Status workflow_addon) \<noteq> CalculateChecksum workflow_addon"
    using new_checksum by (simp add: workflow_addon_def valid_addon_def)
  have spec: "workflow_spec workflow_addon"
    by (simp add: workflow_spec_def workflow_addon_def valid_addon_def zero_Addon_def zero_WorkflowType_def)
  have ans: "answers (env_kube argo_env) workflow_addon"
    by (simp add: answers_def argo_sel quiet_env_def mem_env_def mem_kube_def workflow_addon_def valid_addon_def zero_Addon_def)
  have ins: "installable (env_lib argo_env) rev ''ns'' ''a'' (Spec workflow_addon)"
    using workflow_addon_installable by (simp add: argo_sel)
  show ?thesis
    using workflow_install_completes [of argo_env, unfolded argo_sel(13), OF quiet_laws(1-5)
        argo_laws(2) [unfolded argo_sel(13)] argo_laws(1) argo_create [unfolded argo_sel(13)] argo_frame [unfolded argo_sel(13)]
        rng_ok_rev rng_ok_rev start_mgr_ok get [unfolded argo_sel(13)] alive chk spec ans [unfolded argo_sel(13)] ins, of 5 9]
    unfolding argo_sel(13) by simp blast
qed

end
