(* ===== verification/Dependencies.thy ===== *)
theory Dependencies
  imports Workflow_Install
begin

text \<open>
  An addon that depends on another one, across the version cache, the validator and both controllers: it
  waits while the dependency is being installed, and it is installed by its next
  reconciliation once the end of the dependency's workflow has been recorded. What carries
  this from one addon to the other is the version cache alone, which every status write
  updates.
\<close>

section \<open>The validation of a dependent addon\<close>

lemma gm_range_single: "rng_ok \<rho> \<Longrightarrow> gm_range \<rho> [(k, v)] = [(k, v)]"
  using mset_gm_range [of \<rho> "[(k, v)]"] by (simp add: gm_ok_def)

text \<open>
  The addon has no workflows and one dependency, on an exact version of another package, written
  without blanks; the last condition keeps the two apart in the map of visited nodes.
\<close>

definition waits_for :: "Addon \<Rightarrow> string \<Rightarrow> string \<Rightarrow> bool" where
  "waits_for a p q \<longleftrightarrow>
     bare_spec a \<and> PkgDeps (Spec_PackageSpec (Spec a)) = [(p, q)] \<and> TrimSpace p = p \<and> TrimSpace q = q \<and>
     q \<noteq> ''*'' \<and> p \<noteq> PkgName (Spec_PackageSpec (Spec a)) \<and> node_name (version_of_addon a) \<noteq> p @ '':'' @ q"

lemma waits_for_cong:
  "Spec b = Spec a \<Longrightarrow> GetName b = GetName a \<Longrightarrow> waits_for b p q = waits_for a p q"
  using bare_spec_cong [of b a] by (simp add: waits_for_def node_name_def version_of_addon_sel)

text \<open>The entry of the dependency, which has no dependencies itself.\<close>

definition leaf_entry :: "cached \<Rightarrow> string \<Rightarrow> string \<Rightarrow> ApplicationAssemblyPhase \<Rightarrow> bool" where
  "leaf_entry c p q ph \<longleftrightarrow>
     (\<exists>v. entry_of c (p, q) = Some v \<and> PkgDeps (Version_PackageSpec v) = [] \<and> PkgPhase v = ph)"

lemma resolve_single:
  assumes "rng_ok \<rho>" and "waits_for a p q" and "GetVersion \<rho> L c p q = Some v"
    and "PkgDeps (Version_PackageSpec v) = []" and "node_name v = p @ '':'' @ q"
  shows "\<exists>visited. resolveDependencies \<rho> L c 256 (version_of_addon a) [] = Ret (None, visited)"
proof -
  have nil: "gm_range \<rho> ([] :: string gomap) = []" using set_gm_range [OF assms(1) gm_ok_Nil] by simp
  have "node_name v \<noteq> node_name (version_of_addon a)" using assms(2,5) by (auto simp: waits_for_def)
  then show ?thesis
    using assms(2-4) nil
    by (simp add: resolveDependencies_pos waits_for_def version_of_addon_sel gm_range_single [OF assms(1)])
qed

lemma Validate_waiting:
  assumes "rng_ok \<rho>" and "waits_for a p q" and "cache_ok c" and "keyed (entry_of c)" and "leaf_entry c p q ph"
    and "entry_of c (PkgName (Spec_PackageSpec (Spec a)), PkgVersion (Spec_PackageSpec (Spec a))) = Some v"
    and "Version_Name v = GetName a"
  shows "addonValidator_Validate U \<rho> L c a =
    Ret (if ph = Succeeded then (True, None)
         else (False, Some (Errorf ((if ph = Pending then ErrDepPending else ErrDepNotInstalled)
                @ '': '' @ quote p @ '':'' @ quote q))))"
proof -
  obtain d where d: "entry_of c (p, q) = Some d" "PkgDeps (Version_PackageSpec d) = []" "PkgPhase d = ph"
    using assms(5) by (auto simp: leaf_entry_def)
  have get: "GetVersion \<rho> L c p q = Some d" by (rule GetVersion_exact [OF assms(1,3) d(1)])
  have "node_name d = p @ '':'' @ q" using assms(4) d(1) by (simp add: keyed_def node_name_def)
  then obtain visited where "resolveDependencies \<rho> L c 256 (version_of_addon a) [] = Ret (None, visited)"
    using resolve_single [OF assms(1,2) get d(2)] by blast
  then have "addonValidator_Validate U \<rho> L c a =
      Ret (case ValidateDependencies \<rho> L c a of None \<Rightarrow> (True, None) | Some e \<Rightarrow> (False, Some e))"
    using assms(2) validateWorkflow_bare [of a U \<rho>] by (intro Validate_dependencies [OF assms(1) _ _ _ assms(3,6,7)])
      (auto simp: waits_for_def bare_spec_def)
  then show ?thesis
    using assms(2) get d(3)
    by (simp add: ValidateDependencies_def waits_for_def gm_range_single [OF assms(1)])
qed

section \<open>Waiting\<close>

text \<open>
  The addon \<open>ns\<close>/\<open>n\<close> is pending and cached under its package version, and the cache holds the
  dependency \<open>p\<close>:\<open>q\<close> in the phase \<open>ph\<close>.
\<close>

definition waiting :: "'w kube \<Rightarrow> string \<Rightarrow> string \<Rightarrow> AddonSpec \<Rightarrow> int64 \<Rightarrow> string \<Rightarrow> string \<Rightarrow>
    ApplicationAssemblyPhase \<Rightarrow> Addon \<Rightarrow> 'w mgr \<Rightarrow> bool" where
  "waiting K ns n sp \<tau> p q ph a t \<longleftrightarrow>
     mgr_ok t \<and> kube_Get K ns n (world t) = Inr a \<and> pending_inst K ns n sp \<tau> \<lparr>mgr_of = t, inst = a\<rparr> \<and>
     own_entry n sp t \<and> leaf_entry (versionCache t) p q ph"

lemma waiting_Validate:
  assumes "waiting K ns n sp \<tau> p q ph a t" and "rng_ok \<rho>" and "waits_for a p q"
  shows "addonValidator_Validate U \<rho> L (versionCache t) (fresh_status a) =
    Ret (if ph = Succeeded then (True, None)
         else (False, Some (Errorf ((if ph = Pending then ErrDepPending else ErrDepNotInstalled)
                @ '': '' @ quote p @ '':'' @ quote q))))"
proof -
  let ?key = "(PkgName (Spec_PackageSpec (Spec (fresh_status a))), PkgVersion (Spec_PackageSpec (Spec (fresh_status a))))"
  have "Spec a = sp" "GetName a = n" using assms(1) by (simp_all add: waiting_def pending_inst_def)
  then obtain v where v: "entry_of (versionCache t) ?key = Some v" "Version_Name v = GetName (fresh_status a)"
    using assms(1) by (auto simp: waiting_def own_entry_def)
  have "waits_for (fresh_status a) p q" using assms(3) waits_for_cong [of "fresh_status a" a] by simp
  then show ?thesis
    using assms(1) by (intro Validate_waiting [OF assms(2) _ _ _ _ v]) (simp_all add: waiting_def mgr_ok_def)
qed

text \<open>A status write of the addon keeps it waiting.\<close>

lemma waiting_addon_written:
  assumes "waiting K ns n sp \<tau> p q ph a t" and "get_law K" and "p \<noteq> PkgName (Spec_PackageSpec sp)"
    and "mgr_ok t'" and "kube_Get K ns n (world t') = Inr c" and "Status c = Status b" and "Spec c = sp"
    and "DeletionTimestamp (Addon_Meta c) = None" and "versionCache t' = addAddonToCache b (versionCache t)"
    and "Spec b = sp" and "GetName b = n" and "GetPrereqStatus b = Pending" and "GetInstallStatus b = Pending"
    and "StartTime (Status b) = \<tau>" and "Checksum (Status b) = CalculateChecksum b"
  shows "waiting K ns n sp \<tau> p q ph c t'"
proof -
  have key: "GetNamespace c = ns" "GetName c = n" using assms(2,5) by (auto simp: get_law_def)
  have ok: "cache_ok (versionCache t)" "cache_ok (versionCache t')"
    using assms(1,4) by (simp_all add: waiting_def mgr_ok_def)
  have "pending_inst K ns n sp \<tau> \<lparr>mgr_of = t', inst = c\<rparr>"
    using assms(5-15) key by (simp add: pending_inst_def GetPrereqStatus_def GetInstallStatus_def CalculateChecksum_def)
  moreover have "own_entry n sp t'"
    using ok assms(9-11) by (simp add: own_entry_def entry_addAddonToCache version_of_addon_def)
  moreover have "leaf_entry (versionCache t') p q ph"
    using assms(1,3,9,10) ok(1) by (simp add: waiting_def leaf_entry_def entry_addAddonToCache)
  ultimately show ?thesis using assms(4,5) by (simp add: waiting_def)
qed

lemma reconcile_waits:
  assumes "retry_law K" and "get_law K" and "status_law K" and "write_law K"
    and "env_kube E = K" and "rng_ok (env_order E)" and "waiting K ns n sp \<tau> p q Pending a t" and "waits_for a p q"
  obtains t' c where "AddonReconciler_Reconcile E ns n t =
      (Ret (\<lparr>Result_Requeue = True, Result_RequeueAfter = 10\<rparr>, None), t')"
    and "waiting K ns n sp \<tau> p q Pending c t'" and "Spec c = Spec a" and "GetName c = GetName a"
proof -
  let ?err = "Errorf (ErrDepPending @ '': '' @ quote p @ '':'' @ quote q)"
  have a: "kube_Get (env_kube E) ns n (world t) = Inr a" "DeletionTimestamp (Addon_Meta a) = None"
    "Checksum (Status a) = CalculateChecksum a" "\<not> phase_Completed (GetInstallStatus a)"
    and pa: "Spec a = sp" "GetName a = n" "GetNamespace a = ns" "GetPrereqStatus a = Pending"
      "StartTime (Status a) = \<tau>" "GetInstallStatus a = Pending"
    using assms(5,7) by (simp_all add: waiting_def pending_inst_def phase_pred_defs)
  have val: "addonValidator_Validate (template_lib.truncate (env_lib E)) (env_order E) (env_semver E)
      (versionCache t) (fresh_status a) = Ret (False, Some ?err)"
    using waiting_Validate [OF assms(7,6,8)] by simp
  have pre: "HasPrefix (Error ?err) ErrDepPending" by (simp add: HasPrefix_def Errorf_def)
  obtain b ty rs where rec: "AddonReconciler_Reconcile E ns n t =
      (case UpdateStatus (env_kube E) b (record_event ty rs (Reason (Status b)) t) of
         (Some e, t') \<Rightarrow> (Ret (\<lparr>Result_Requeue = False, Result_RequeueAfter = 1\<rparr>, Some e), t')
       | (None, t') \<Rightarrow> (Ret (rejected_result ?err), t'))"
    and b: "GetInstallStatus b = (if HasPrefix (Error ?err) ErrDepPending then Pending else ValidationFailed)"
      "Reason (Status b) \<noteq> []" "Spec b = Spec a" "Addon_Meta b = Addon_Meta a" "GetPrereqStatus b = GetPrereqStatus a"
      "StartTime (Status b) = StartTime (Status a)" "Checksum (Status b) = Checksum (Status a)" "Resources (Status b) = []"
    by (rule reconcile_rejects [OF a val])
  have "\<not> race_guard a b" using a(4) by (simp add: race_guard_def GetInstallStatus_def)
  then obtain t' c where up: "UpdateStatus K b (record_event ty rs (Reason (Status b)) t) = (None, t')"
    "kube_Get K ns n (world t') = Inr c" "Status c = Status b" "Spec c = Spec a"
    "DeletionTimestamp (Addon_Meta c) = None" "versionCache t' = addAddonToCache b (versionCache t)"
    using UpdateStatus_lands [OF assms(1-4), of ns n "record_event ty rs (Reason (Status b)) t" a b] a(1,2) b(4) pa(2,3) assms(5)
    by auto
  have "mgr_ok t'"
    using mgr_ok_UpdateStatus [of "record_event ty rs (Reason (Status b)) t" K b] assms(7) up(1)
    by (simp add: waiting_def)
  then have "waiting K ns n sp \<tau> p q Pending c t'"
    using waiting_addon_written [OF assms(7,2) _ _ up(2,3) _ up(5,6)] up(4) b pa a(3) assms(8) pre
    by (simp add: waits_for_def CalculateChecksum_def)
  moreover have "AddonReconciler_Reconcile E ns n t = (Ret (\<lparr>Result_Requeue = True, Result_RequeueAfter = 10\<rparr>, None), t')"
    using rec up(1) pre assms(5) by simp
  moreover have "GetName c = GetName a" using assms(2) up(2) pa(2) by (auto simp: get_law_def)
  ultimately show thesis using up(4) by (intro that)
qed

section \<open>The dependency is installed\<close>

lemma waiting_world:
  "waiting K ns n sp \<tau> p q ph a t \<Longrightarrow> kube_Get K ns n w = Inr a \<Longrightarrow>
     waiting K ns n sp \<tau> p q ph a (t\<lparr>world := w\<rparr>)"
  by (simp add: waiting_def pending_inst_def own_entry_def mgr_ok_frame)

text \<open>A workflow object that tells the end of the installation of the addon \<open>d\<close>.\<close>

definition succeeded_install :: "string \<Rightarrow> Addon \<Rightarrow> Workflow \<Rightarrow> bool" where
  "succeeded_install ns d wfobj \<longleftrightarrow>
     Workflow_Name wfobj = GetFormattedWorkflowName d Install \<and> Workflow_Namespace wfobj = ns \<and>
     Workflow_DeletionTimestamp wfobj = None \<and> Workflow_Phase wfobj = WorkflowSucceeded \<and>
     Workflow_Controller wfobj = Some \<lparr>Owner_Kind = ''Addon'', Owner_Name = GetName d\<rparr>"

lemma dependency_recorded:
  assumes "retry_law K" and "get_law K" and "status_law K" and "write_law K" and "frame_law K U"
    and "waiting K ns n sp \<tau> p q ph a t" and "p \<noteq> PkgName (Spec_PackageSpec sp)" and "(ns', n') \<noteq> (ns, n)"
    and "kube_Get K ns' n' (world t) = Inr d" and "\<not> phase_Completed (GetInstallStatus d)"
    and "PkgName (Spec_PackageSpec (Spec d)) = p" and "PkgVersion (Spec_PackageSpec (Spec d)) = q"
    and "PkgDeps (Spec_PackageSpec (Spec d)) = []"
    and "kube_GetWorkflow K ns' name (world t) = Inr wfobj" and "succeeded_install ns' d wfobj"
  obtains t' where "WorkflowReconciler_Reconcile K gofmt ns' name t = (None, t')"
    and "waiting K ns n sp \<tau> p q Succeeded a t'"
proof -
  let ?d = "finished_install wfobj d"
  have d: "GetNamespace d = ns'" "GetName d = n'" using assms(2,9) by (auto simp: get_law_def)
  have f: "Workflow_Name wfobj = GetFormattedWorkflowName d Install" "Workflow_Namespace wfobj = ns'"
    "Workflow_DeletionTimestamp wfobj = None" "Workflow_Phase wfobj \<in> {WorkflowSucceeded, WorkflowFailed, WorkflowError}"
    "Workflow_Controller wfobj = Some \<lparr>Owner_Kind = ''Addon'', Owner_Name = n'\<rparr>"
    using assms(15) d by (simp_all add: succeeded_install_def)
  obtain t' c where rec: "WorkflowReconciler_Reconcile K gofmt ns' name t = (None, t')"
    "kube_Get K ns' n' (world t') = Inr c" "Spec c = Spec d" "Checksum (Status c) = Checksum (Status d)"
    "GetInstallStatus c = (if Workflow_Phase wfobj = WorkflowSucceeded then Succeeded else Failed)"
    "UpdateStatus K ?d t = (None, t')" "versionCache t' = addAddonToCache ?d (versionCache t)"
    by (rule end_recorded [OF assms(1-4,9,10,14) f])
  have fin: "Spec ?d = Spec d" "Addon_Meta ?d = Addon_Meta d" by (simp_all add: finished_install_def)
  have "kube_Get K ns n (world t') = kube_Get K ns n (world t)"
    using UpdateStatus_beside [OF assms(5,2,1), of ?d ns n t] fin d assms(8) rec(6) by simp
  moreover have "mgr_ok t'" using mgr_ok_UpdateStatus [of t K ?d] assms(6) rec(6) by (simp add: waiting_def)
  moreover have ok: "cache_ok (versionCache t)" "cache_ok (versionCache t')"
    using assms(6) \<open>mgr_ok t'\<close> by (simp_all add: waiting_def mgr_ok_def)
  moreover have "leaf_entry (versionCache t') p q Succeeded"
    using ok(1) rec(7) fin(1) assms(11-13,15)
    by (simp add: leaf_entry_def entry_addAddonToCache version_of_addon_sel version_of_addon_def
        finished_install_status succeeded_install_def GetPackageSpec_def Let_def)
  moreover have "own_entry n sp t'"
    using assms(6,7,11) ok rec(7) fin(1) by (auto simp: waiting_def own_entry_def entry_addAddonToCache)
  ultimately have "waiting K ns n sp \<tau> p q Succeeded a t'" using assms(6) by (simp add: waiting_def pending_inst_def)
  with rec(1) show thesis by (rule that)
qed

lemma dependency_releases:
  assumes "retry_law K" and "get_law K" and "status_law K" and "write_law K" and "finalizer_law K"
    and "frame_law K U" and "env_kube E = K" and "rng_ok (env_order E)" and "waiting K ns n sp \<tau> p q ph b t"
    and "waits_for b p q" and "answers K b" and "\<not> IsExpired (now E) \<tau> TTL_Milliseconds" and "(ns', n') \<noteq> (ns, n)"
    and d: "kube_Get K ns' n' (world t) = Inr d" "\<not> phase_Completed (GetInstallStatus d)"
      "PkgName (Spec_PackageSpec (Spec d)) = p" "PkgVersion (Spec_PackageSpec (Spec d)) = q"
      "PkgDeps (Spec_PackageSpec (Spec d)) = []"
    and "kube_GetWorkflow K ns' name (world t) = Inr wfobj" and "succeeded_install ns' d wfobj"
  shows "\<exists>t2 t3 c. WorkflowReconciler_Reconcile K gofmt ns' name t = (None, t2) \<and>
      AddonReconciler_Reconcile E ns n t2 = (Ret (zero_Result, None), t3) \<and>
      kube_Get K ns n (world t3) = Inr c \<and> GetInstallStatus c = Succeeded \<and> Spec c = sp"
proof -
  have "Spec b = sp" using assms(9) by (simp add: waiting_def pending_inst_def)
  then have p: "p \<noteq> PkgName (Spec_PackageSpec sp)" using assms(10) by (auto simp: waits_for_def)
  obtain t2 where two: "WorkflowReconciler_Reconcile K gofmt ns' name t = (None, t2)"
    "waiting K ns n sp \<tau> p q Succeeded b t2"
    using dependency_recorded [OF assms(1-4,6,9) p assms(13-20)] .
  have get: "kube_Get K ns n (world t2) = Inr b" "pending_inst K ns n sp \<tau> \<lparr>mgr_of = t2, inst = b\<rparr>"
    using two(2) by (simp_all add: waiting_def)
  have "bare_spec b" using assms(10) by (simp add: waits_for_def)
  moreover have "addonValidator_Validate (template_lib.truncate (env_lib E)) (env_order E) (env_semver E)
      (versionCache t2) (fresh_status b) = Ret (True, None)"
    using waiting_Validate [OF two(2) assms(8,10)] by simp
  ultimately obtain t3 c where "AddonReconciler_Reconcile E ns n t2 = (Ret (zero_Result, None), t3)"
    "kube_Get K ns n (world t3) = Inr c" "Spec c = sp" "GetInstallStatus c = Succeeded"
    using reconcile_bare [OF assms(1-5,7) get _ _ assms(11,12)] by blast
  with two(1) show ?thesis by blast
qed

text \<open>
  C15: A dependency holds an installation back, and its end sets it free. Take a pending addon without
  workflows that depends on an exact version of another package, which the cache holds as pending. A
  reconciliation of the addon succeeds, leaves it pending and asks for another one after ten seconds. Whenever
  the install workflow of the addon with that package version has then succeeded, the reconciliation of the
  workflow succeeds, and the next reconciliation of the dependent addon, if it comes within
  an hour of its start, installs it: the API reports it as installed with its spec as it was.
\<close>

theorem dependency_gates_installation:
  assumes "retry_law (env_kube E)" and "get_law (env_kube E)" and "status_law (env_kube E)"
    and "write_law (env_kube E)" and "finalizer_law (env_kube E)" and "frame_law (env_kube E) (env_lib E)"
    and "rng_ok \<rho>" and "rng_ok \<rho>'" and "waiting (env_kube E) ns n (Spec a) \<tau> p q Pending a t" and "waits_for a p q"
    and "answers (env_kube E) a" and "(ns', n') \<noteq> (ns, n)"
    and "0 \<le> sint \<tau>" and "0 \<le> sint \<tau>'" and "sint \<tau>' < sint \<tau> + 3600000"
  shows "\<exists>t1 b. AddonReconciler_Reconcile (E\<lparr>env_order := \<rho>\<rparr>) ns n t =
      (Ret (\<lparr>Result_Requeue = True, Result_RequeueAfter = 10\<rparr>, None), t1) \<and>
    kube_Get (env_kube E) ns n (world t1) = Inr b \<and> GetInstallStatus b = Pending \<and> Spec b = Spec a \<and>
    (\<forall>w d name wfobj. kube_Get (env_kube E) ns n w = Inr b \<and> kube_Get (env_kube E) ns' n' w = Inr d \<and>
       \<not> phase_Completed (GetInstallStatus d) \<and> PkgName (Spec_PackageSpec (Spec d)) = p \<and>
       PkgVersion (Spec_PackageSpec (Spec d)) = q \<and> PkgDeps (Spec_PackageSpec (Spec d)) = [] \<and>
       kube_GetWorkflow (env_kube E) ns' name w = Inr wfobj \<and> succeeded_install ns' d wfobj \<longrightarrow>
       (\<exists>t2 t3 c. WorkflowReconciler_Reconcile (env_kube E) gofmt ns' name (t1\<lparr>world := w\<rparr>) = (None, t2) \<and>
          AddonReconciler_Reconcile (E\<lparr>now := \<tau>', env_order := \<rho>'\<rparr>) ns n t2 = (Ret (zero_Result, None), t3) \<and>
          kube_Get (env_kube E) ns n (world t3) = Inr c \<and> GetInstallStatus c = Succeeded \<and> Spec c = Spec a))"
proof -
  let ?K = "env_kube E" and ?E = "E\<lparr>now := \<tau>', env_order := \<rho>'\<rparr>"
  obtain t1 b where one: "AddonReconciler_Reconcile (E\<lparr>env_order := \<rho>\<rparr>) ns n t =
      (Ret (\<lparr>Result_Requeue = True, Result_RequeueAfter = 10\<rparr>, None), t1)"
    "waiting ?K ns n (Spec a) \<tau> p q Pending b t1" "Spec b = Spec a" "GetName b = GetName a"
    by (rule reconcile_waits [OF assms(1-4) _ _ assms(9,10), of "E\<lparr>env_order := \<rho>\<rparr>"]) (use assms(7) in simp_all)
  have ready: "waits_for b p q" "answers ?K b"
    using waits_for_cong [OF one(3,4), of p q] answers_cong [OF one(3,4), of ?K] assms(10,11) by blast+
  have alive: "\<not> IsExpired \<tau>' \<tau> TTL_Milliseconds"
    using assms(15) by (simp add: IsExpired_nonneg [OF assms(14,13)] TTL_Milliseconds_def)
  have release: "\<exists>t2 t3 c. WorkflowReconciler_Reconcile ?K gofmt ns' name (t1\<lparr>world := w\<rparr>) = (None, t2) \<and>
      AddonReconciler_Reconcile ?E ns n t2 = (Ret (zero_Result, None), t3) \<and>
      kube_Get ?K ns n (world t3) = Inr c \<and> GetInstallStatus c = Succeeded \<and> Spec c = Spec a"
    if "kube_Get ?K ns n w = Inr b" and "kube_Get ?K ns' n' w = Inr d" "\<not> phase_Completed (GetInstallStatus d)"
      "PkgName (Spec_PackageSpec (Spec d)) = p" "PkgVersion (Spec_PackageSpec (Spec d)) = q"
      "PkgDeps (Spec_PackageSpec (Spec d)) = []" "kube_GetWorkflow ?K ns' name w = Inr wfobj" "succeeded_install ns' d wfobj"
    for w d name wfobj
    by (rule dependency_releases [OF assms(1-6) _ _ waiting_world [OF one(2) that(1)] ready _ assms(12)])
      (use that assms(8) alive in simp_all)
  have read: "kube_Get ?K ns n (world t1) = Inr b" "GetInstallStatus b = Pending"
    using one(2) by (simp_all add: waiting_def pending_inst_def)
  show ?thesis
    by (rule exI [of _ t1], rule exI [of _ b], intro conjI allI impI; (elim conjE)?)
      (rule one read | rule release, assumption+)+
qed

section \<open>Two addons in memory\<close>

definition base_addon :: Addon where
  "base_addon = Spec_update (Spec_PackageSpec_update (\<lambda>p. p\<lparr>PkgName := ''base'', PkgVersion := ''1''\<rparr>))
     (SetInstallStatus Pending [] (zero_Addon ''d'' ''ns''))"

definition dependent_addon :: Addon where
  "dependent_addon =
     (let a = Spec_update (Spec_PackageSpec_update (\<lambda>p. p\<lparr>PkgName := ''p'', PkgVersion := ''1'', PkgDeps := [(''base'', ''1'')]\<rparr>))
        (snd (SetPrereqAndInstallStatuses Pending [] valid_addon))
      in Status_update (\<lambda>st. st\<lparr>Checksum := CalculateChecksum a, StartTime := 5\<rparr>) a)"

definition two_addons :: "mem mgr" where
  "two_addons = (start_mgr [dependent_addon, base_addon])\<lparr>versionCache :=
     addAddonToCache dependent_addon (addAddonToCache base_addon NewAddonVersionCacheClient)\<rparr>"

lemma base_addon_sel:
  "GetName base_addon = ''d''" "GetNamespace base_addon = ''ns''" "GetInstallStatus base_addon = Pending"
  "PkgName (Spec_PackageSpec (Spec base_addon)) = ''base''" "PkgVersion (Spec_PackageSpec (Spec base_addon)) = ''1''"
  "PkgDeps (Spec_PackageSpec (Spec base_addon)) = []"
  by (simp_all add: base_addon_def zero_Addon_def GetInstallStatus_def SetInstallStatus_def)

lemma dependent_addon_sel:
  "GetName dependent_addon = ''a''" "GetNamespace dependent_addon = ''ns''"
  "DeletionTimestamp (Addon_Meta dependent_addon) = None"
  "GetInstallStatus dependent_addon = Pending" "GetPrereqStatus dependent_addon = Pending"
  "StartTime (Status dependent_addon) = 5" "Checksum (Status dependent_addon) = CalculateChecksum dependent_addon"
  "PkgName (Spec_PackageSpec (Spec dependent_addon)) = ''p''" "PkgVersion (Spec_PackageSpec (Spec dependent_addon)) = ''1''"
  "PkgDeps (Spec_PackageSpec (Spec dependent_addon)) = [(''base'', ''1'')]"
  "Spec_Secrets (Spec dependent_addon) = []"
  by (simp_all add: dependent_addon_def valid_addon_def zero_Addon_def Let_def GetInstallStatus_def GetPrereqStatus_def
      SetPrereqAndInstallStatuses_def SetInstallStatus_def CalculateChecksum_def)

lemma two_addons_waiting:
  "waiting (env_kube quiet_env) ''ns'' ''a'' (Spec dependent_addon) 5 ''base'' ''1'' Pending dependent_addon two_addons"
proof -
  have new: "cache_ok NewAddonVersionCacheClient" "keyed (entry_of NewAddonVersionCacheClient)"
    using start_mgr_ok [of "[]"] by (simp_all add: mgr_ok_def start_mgr_def)
  have ok: "mgr_ok two_addons"
    using mgr_ok_add [OF mgr_ok_add [OF start_mgr_ok [of "[dependent_addon, base_addon]"]]] 
    by (simp add: two_addons_def start_mgr_def)
  have get: "kube_Get (env_kube quiet_env) ''ns'' ''a'' (world two_addons) = Inr dependent_addon"
    by (simp add: quiet_env_sel mem_kube_def mem_get_def two_addons_def start_mgr_def same_object_def dependent_addon_sel)
  have base: "cache_ok (addAddonToCache base_addon NewAddonVersionCacheClient)"
    using new by (simp add: addAddonToCache_def cache.ok_add)
  have entries: "own_entry ''a'' (Spec dependent_addon) two_addons" "leaf_entry (versionCache two_addons) ''base'' ''1'' Pending"
    using ok new(1) base
    by (simp_all add: own_entry_def leaf_entry_def mgr_ok_def two_addons_def entry_addAddonToCache dependent_addon_sel
        base_addon_sel version_of_addon_def GetPackageSpec_def Let_def)
  then show ?thesis using ok get by (simp add: waiting_def pending_inst_def dependent_addon_sel)
qed

theorem dependency_gates_installation_witness:
  "\<exists>t1 b. AddonReconciler_Reconcile (quiet_env\<lparr>env_order := rev\<rparr>) ''ns'' ''a'' two_addons =
      (Ret (\<lparr>Result_Requeue = True, Result_RequeueAfter = 10\<rparr>, None), t1) \<and>
    kube_Get mem_kube ''ns'' ''a'' (world t1) = Inr b \<and> GetInstallStatus b = Pending"
proof -
  have wait: "waits_for dependent_addon ''base'' ''1''"
    by (simp add: waits_for_def bare_spec_def dependent_addon_sel node_name_def version_of_addon_sel TrimSpace_def
        is_space_def workflowTypes_def)
      (simp add: dependent_addon_def valid_addon_def zero_Addon_def zero_WorkflowType_def Let_def)
  have ans: "answers (env_kube quiet_env) dependent_addon"
    by (simp add: answers_def quiet_env_def mem_env_def mem_kube_def dependent_addon_sel)
  show ?thesis
    using dependency_gates_installation [OF quiet_laws rng_ok_rev rng_ok_rev two_addons_waiting wait ans, of "''ns''" "''d''" 9]
    unfolding quiet_env_sel by simp blast
qed

end
