(* ===== verification/Template_Typing.thy ===== *)
theory Template_Typing
  imports Workflow_Lifecycle
begin

text \<open>
  Which templates a workflow can be built from without a panic. The code of
  \<^verbatim>\<open>pkg/workflows/workflow.go\<close> asserts the types of the values that it finds in a template; a panic in it is
  recovered by the addon controller and leaves no trace, so the addon stays as it is. \<open>spec_typed\<close> spells
  out the shape that every assertion relies on, and is shown to be enough.
\<close>

section \<open>Shapes\<close>

definition is_obj :: "json \<Rightarrow> bool" where
  "is_obj j = (case j of JObj _ \<Rightarrow> True | _ \<Rightarrow> False)"

text \<open>The value under two keys, when the first holds an object.\<close>

definition nested2 :: "json \<Rightarrow> string \<Rightarrow> string \<Rightarrow> json option" where
  "nested2 j k l = (case j of JObj x \<Rightarrow> (case map_of x k of Some (JObj y) \<Rightarrow> map_of y l | _ \<Rightarrow> None) | _ \<Rightarrow> None)"

text \<open>What \<open>processWorkflowResources\<close> asserts: artifacts are a list of objects, a manifest is a string.\<close>

definition step_typed :: "json \<Rightarrow> bool" where
  "step_typed j \<longleftrightarrow> is_obj j \<and>
     (case nested2 j ''arguments'' ''artifacts'' of None \<Rightarrow> True | Some (JList l) \<Rightarrow> list_all is_obj l | Some _ \<Rightarrow> False) \<and>
     (case nested2 j ''resource'' ''manifest'' of None \<Rightarrow> True | Some (JStr _) \<Rightarrow> True | Some _ \<Rightarrow> False)"

text \<open>A template that is not an object, or steps that are no lists of lists, are errors and not panics.\<close>

definition template_typed :: "json \<Rightarrow> bool" where
  "template_typed t =
     (case t of
        JObj m \<Rightarrow>
          step_typed t \<and>
          (case map_of m ''steps'' of
             Some (JList gs) \<Rightarrow> list_all (\<lambda>g. case g of JList js \<Rightarrow> list_all step_typed js | _ \<Rightarrow> True) gs
           | _ \<Rightarrow> True)
      | _ \<Rightarrow> True)"

text \<open>The arguments are missing or an object, and so are the parameters of which they are a list.\<close>

definition arguments_typed :: "json gomap \<Rightarrow> bool" where
  "arguments_typed spec =
     (case map_of spec ''arguments'' of
        None \<Rightarrow> True
      | Some JNull \<Rightarrow> True
      | Some (JObj args) \<Rightarrow>
          (case map_of args ''parameters'' of None \<Rightarrow> True | Some JNull \<Rightarrow> True | Some (JList _) \<Rightarrow> True | Some _ \<Rightarrow> False)
      | Some _ \<Rightarrow> False)"

definition spec_typed :: "json gomap \<Rightarrow> bool" where
  "spec_typed wfobj =
     (case map_of wfobj ''spec'' of
        Some (JObj spec) \<Rightarrow>
          arguments_typed spec \<and> step_typed (JObj spec) \<and>
          (case map_of spec ''templates'' of Some (JList ts) \<Rightarrow> list_all template_typed ts | _ \<Rightarrow> True)
      | _ \<Rightarrow> False)"

section \<open>What the accessors promise\<close>

text \<open>
  A nested read finds what is stored under its keys; storing a list under three keys never
  panics and, when the first two hold objects, leaves everything beside that list as it was.
\<close>

definition access_law :: "('w, 'f) wf_lib \<Rightarrow> bool" where
  "access_law U \<longleftrightarrow>
     (\<forall>x k. NestedFieldNoCopy U x [k] = Inr (map_of x k)) \<and>
     (\<forall>x k l v. NestedFieldNoCopy U x [k, l] = Inr (Some v) \<longrightarrow> nested2 (JObj x) k l = Some v) \<and>
     (\<forall>x vs p. \<exists>r. SetNestedSlice U x vs p = Ret r) \<and>
     (\<forall>x vs k l m y z x'. map_of x k = Some (JObj y) \<and> map_of y l = Some (JObj z) \<and>
        SetNestedSlice U x vs [k, l, m] = Ret (Inr x') \<longrightarrow>
        (\<exists>y' z'. map_of x' k = Some (JObj y') \<and> same_outside l y y' \<and> map_of y' l = Some (JObj z') \<and> same_outside m z z'))"

lemma access_slice:
  assumes "access_law U" and "map_of x k = Some (JObj y)" and "map_of y l = Some (JObj z)"
    and "SetNestedSlice U x vs [k, l, m] = Ret (Inr x')"
  shows "\<exists>y' z'. map_of x' k = Some (JObj y') \<and> same_outside l y y' \<and> map_of y' l = Some (JObj z') \<and> same_outside m z z'"
  using assms(1) [unfolded access_law_def, THEN conjunct2, THEN conjunct2, THEN conjunct2, rule_format, of x k y l z vs m x']
    assms(2-4) by simp

section \<open>No panic\<close>

lemma ebind_returns:
  "(\<And>q. m \<noteq> Panic q) \<Longrightarrow> (\<And>x. m = Ret (Inr x) \<Longrightarrow> f x \<noteq> Panic p) \<Longrightarrow> ebind m f \<noteq> Panic p"
  by (auto simp: ebind_Panic)

lemma stored_result:
  "(case s of Inl e \<Rightarrow> Ret (Inl e) | Inr x \<Rightarrow> Ret (Inr (JObj x))) = Ret (Inr j) \<longleftrightarrow> (\<exists>x. s = Inr x \<and> j = JObj x)"
  by (auto split: sum.split)

lemma manifest_returns: "\<exists>r. processManifest U a data = Ret r"
proof -
  have "emap (\<lambda>obj. Ret (processArtifact U a obj)) xs \<noteq> Panic p" for xs p by (rule emap_no_Panic) simp
  then show ?thesis
    by (cases "emap (\<lambda>obj. Ret (processArtifact U a obj)) (Split data manifest_sep)")
      (auto simp: processManifest_def ebind_def split: sum.split)
qed

lemma raw_artifact_returns: "is_obj j \<Longrightarrow> processRawArtifact U a j \<noteq> Panic p"
  using manifest_returns [of U a]
  by (auto simp: processRawArtifact_def is_obj_def ebind_def split: json.splits sum.splits option.splits outcome.splits)
    (metis outcome.distinct(1))+

lemma step_returns:
  assumes "access_law U" and "step_typed j"
  shows "processWorkflowResources U a j \<noteq> Panic p"
proof -
  obtain m where j: "j = JObj m" using assms(2) by (cases j) (simp_all add: step_typed_def is_obj_def)
  have art: "emap (processRawArtifact U a) l \<noteq> Panic p" if "list_all is_obj l" for l p
    by (rule emap_no_Panic) (use that in \<open>auto simp: list_all_iff raw_artifact_returns\<close>)
  have read: "nested2 j k l = Some v" if "NestedFieldNoCopy U m [k, l] = Inr (Some v)" for k l v
    using assms(1) that unfolding access_law_def j by blast
  show ?thesis
  proof (cases "NestedFieldNoCopy U m [''arguments'', ''artifacts'']")
    case (Inl e)
    then show ?thesis by (simp add: processWorkflowResources_def j)
  next
    case (Inr found)
    show ?thesis
    proof (cases found)
      case (Some v)
      then obtain l where "v = JList l" "list_all is_obj l"
        using assms(2) read Inr by (auto simp: step_typed_def split: json.splits)
      with art [of l] show ?thesis
        using Inr Some by (cases "emap (processRawArtifact U a) l")
          (auto simp: processWorkflowResources_def j ebind_def split: sum.split)
    next
      case None
      have man: "\<exists>s. v = JStr s" if "NestedFieldNoCopy U m [''resource'', ''manifest''] = Inr (Some v)" for v
        using assms(2) read [OF that] by (cases v) (auto simp: step_typed_def)
      obtain r where r: "processManifest U a s = Ret (r s)" for s using manifest_returns by metis
      show ?thesis
        using Inr None man
        by (auto simp: processWorkflowResources_def j ebind_def r split: sum.split option.split json.split)
    qed
  qed
qed

text \<open>A processed step is an object that differs from the original under \<open>arguments\<close> and \<open>resource\<close> only.\<close>

lemma step_result:
  assumes "wf_law U" and "processWorkflowResources U a (JObj m) = Ret (Inr j)"
  shows "\<exists>m'. j = JObj m' \<and> (\<forall>k. k \<noteq> ''arguments'' \<and> k \<noteq> ''resource'' \<longrightarrow> map_of m' k = map_of m k)"
proof -
  have put: "map_of (put_ref [''arguments'', ''artifacts''] v m) k = map_of m k" if "k \<noteq> ''arguments''" for v k
    using same_outside_put_ref [of "''arguments''" m "[''artifacts'']" v] that by (simp add: same_outside_def)
  have set: "map_of m' k = map_of m k"
    if "SetNestedField U m v [''resource'', ''manifest''] = Inr m'" "k \<noteq> ''resource''" for v m' k
    using set_field_outside [OF assms(1) that(1)] that(2) by (simp add: same_outside_def)
  obtain art where art: "NestedFieldNoCopy U m [''arguments'', ''artifacts''] = Inr art"
    using assms(2) by (auto simp: processWorkflowResources_def split: sum.splits)
  show ?thesis
  proof (cases art)
    case (Some v)
    then obtain l where "j = JObj (put_ref [''arguments'', ''artifacts''] (JList l) m)"
      using assms(2) art
      by (auto simp: processWorkflowResources_def ebind_Inr simp del: put_ref.simps split: json.splits)
    then show ?thesis using put by (simp del: put_ref.simps)
  next
    case None
    then obtain man where man: "NestedFieldNoCopy U m [''resource'', ''manifest''] = Inr man"
      using assms(2) art by (auto simp: processWorkflowResources_def split: sum.splits)
    show ?thesis
    proof (cases man)
      case (Some v)
      then obtain d m' where "SetNestedField U m (JStr d) [''resource'', ''manifest''] = Inr m'" "j = JObj m'"
        using assms(2) art man None
        by (auto simp: processWorkflowResources_def ebind_Inr stored_result split: json.splits)
      then show ?thesis using set by simp
    qed (use assms(2) art man None in \<open>auto simp: processWorkflowResources_def\<close>)
  qed
qed

lemma template_returns:
  assumes "wf_law U" and "access_law U" and "template_typed t"
  shows "processTemplate U a t \<noteq> Panic p"
proof (cases t)
  case (JObj m)
  have step: "step_typed t" using assms(3) JObj by (simp add: template_typed_def)
  have steps: "processSteps U a g \<noteq> Panic p" if "map_of m ''steps'' = Some (JList gs)" "g \<in> set gs" for g gs p
  proof (cases g)
    case (JList js)
    then have "list_all step_typed js"
      using assms(3) that by (auto simp: template_typed_def \<open>t = JObj m\<close> list_all_iff split: json.splits)
    then have "emap (processWorkflowResources U a) js \<noteq> Panic p" for p
      by (intro emap_no_Panic) (auto simp: list_all_iff step_returns [OF assms(2)])
    then show ?thesis
      using JList by (cases "emap (processWorkflowResources U a) js") (auto simp: processSteps_def ebind_def split: sum.split)
  qed (simp_all add: processSteps_def)
  have "emap (processSteps U a) gs \<noteq> Panic q" if "map_of m ''steps'' = Some (JList gs)" for gs q
    by (rule emap_no_Panic) (use steps that in blast)
  then have rest: "NestedFieldNoCopy U m' [''steps''] = Inr (map_of m ''steps'') \<Longrightarrow>
      (case NestedFieldNoCopy U m' [''steps''] of
         Inl err \<Rightarrow> Ret (Inl err)
       | Inr None \<Rightarrow> Ret (Inr j)
       | Inr (Some (JList gs)) \<Rightarrow>
           ebind (emap (processSteps U a) gs) (\<lambda>ss. Ret (Inr (JObj (put_ref [''steps''] (JList ss) m'))))
       | Inr (Some v) \<Rightarrow> Ret (Inl (Errorf (''template.steps is not a list: got '' @ go_type v)))) \<noteq> Panic p" for j m'
    by (auto simp: ebind_Panic split: option.split json.split)
  have "processWorkflowResources U a t \<noteq> Panic q" for q by (rule step_returns [OF assms(2) step])
  moreover have "\<exists>m'. j = JObj m' \<and> NestedFieldNoCopy U m' [''steps''] = Inr (map_of m ''steps'')"
    if "processWorkflowResources U a t = Ret (Inr j)" for j
    using step_result [OF assms(1) that [unfolded JObj]] assms(2) by (auto simp: access_law_def)
  ultimately show ?thesis
    unfolding processTemplate_def JObj json.case
    by (intro ebind_returns) (use rest in \<open>force simp del: put_ref.simps\<close>)+
qed (simp_all add: processTemplate_def)

lemma templates_return:
  assumes "wf_law U" and "access_law U" and "map_of wfobj ''spec'' = Some (JObj spec)"
    and "case map_of spec ''templates'' of Some (JList ts) \<Rightarrow> list_all template_typed ts | _ \<Rightarrow> True"
  shows "processTemplates U a wfobj \<noteq> Panic p"
proof -
  have "emap (processTemplate U a) ts \<noteq> Panic p"
    if "NestedFieldNoCopy U wfobj [''spec'', ''templates''] = Inr (Some (JList ts))" for ts p
  proof (rule emap_no_Panic)
    have "nested2 (JObj wfobj) ''spec'' ''templates'' = Some (JList ts)"
      using assms(2) that unfolding access_law_def by blast
    then have "list_all template_typed ts" using assms(3,4) by (simp add: nested2_def)
    then show "processTemplate U a t \<noteq> Panic q" if "t \<in> set ts" for t q
      using template_returns [OF assms(1,2)] that by (auto simp: list_all_iff)
  qed
  then show ?thesis
    by (auto simp: processTemplates_def ebind_def split: sum.split option.split json.split outcome.split)
qed

lemma artifacts_return:
  assumes "wf_law U" and "access_law U" and "map_of wfobj ''spec'' = Some (JObj spec)" and "step_typed (JObj spec)"
    and "case map_of spec ''templates'' of Some (JList ts) \<Rightarrow> list_all template_typed ts | _ \<Rightarrow> True"
  shows "configureWorkflowArtifacts U a wfobj \<noteq> Panic p"
proof -
  have read: "NestedFieldNoCopy U wfobj [''spec''] = Inr (Some (JObj spec))"
    using assms(2,3) by (simp add: access_law_def)
  have "processTemplates U a (put_ref [''spec''] j wfobj) \<noteq> Panic p"
    if step: "processWorkflowResources U a (JObj spec) = Ret (Inr j)" for j
  proof -
    obtain m where m: "j = JObj m"
      "\<forall>k. k \<noteq> ''arguments'' \<and> k \<noteq> ''resource'' \<longrightarrow> map_of m k = map_of spec k"
      using step_result [OF assms(1) step] by blast
    then show ?thesis by (intro templates_return [OF assms(1,2), of _ m]) (use assms(5) in simp_all)
  qed
  moreover have "processWorkflowResources U a (JObj spec) \<noteq> Panic q" for q by (rule step_returns [OF assms(2,4)])
  ultimately show ?thesis
    by (auto simp: configureWorkflowArtifacts_def read ebind_Panic simp del: put_ref.simps)
qed

text \<open>The parameters that are added change the arguments' list of parameters and nothing beside it.\<close>

lemma arguments_cases:
  assumes "arguments_typed spec"
  obtains "is_nil (map_of spec ''arguments'')"
  | args where "map_of spec ''arguments'' = Some (JObj args)" and "is_nil (map_of args ''parameters'')"
  | args ps where "map_of spec ''arguments'' = Some (JObj args)" and "map_of args ''parameters'' = Some (JList ps)"
proof (cases "is_nil (map_of spec ''arguments'')")
  case False
  then obtain args where args: "map_of spec ''arguments'' = Some (JObj args)"
    using assms
    by (cases "map_of spec ''arguments''"; cases "the (map_of spec ''arguments'')") (simp_all add: arguments_typed_def is_nil_def)
  show thesis
  proof (cases "is_nil (map_of args ''parameters'')")
    case False
    then obtain ps where "map_of args ''parameters'' = Some (JList ps)"
      using assms args
      by (cases "map_of args ''parameters''"; cases "the (map_of args ''parameters'')")
        (simp_all add: arguments_typed_def is_nil_def)
    with args show ?thesis by (rule that(3))
  qed (rule that(2) [OF args])
qed (rule that(1))

lemma parameters_return:
  assumes "access_law U" and "map_of wfobj ''spec'' = Some (JObj spec)" and "arguments_typed spec"
  shows "\<exists>b y. configureGlobalWFParameters U \<rho> a wfobj = Ret (b, y) \<and>
     (b \<longrightarrow> (\<exists>spec'. map_of y ''spec'' = Some (JObj spec') \<and> same_outside ''arguments'' spec spec' \<and>
        nested2 (JObj spec') ''arguments'' ''artifacts'' = nested2 (JObj spec) ''arguments'' ''artifacts''))"
proof -
  define spec1 where "spec1 =
    (if is_nil (map_of spec ''arguments'') then AList.update ''arguments'' (JObj []) spec else spec)"
  obtain args where args: "map_of spec1 ''arguments'' = Some (JObj args)"
    "nested2 (JObj spec) ''arguments'' ''artifacts'' = map_of args ''artifacts''"
    using assms(3) by (cases rule: arguments_cases) (auto simp: spec1_def is_nil_def nested2_def)
  define args1 where "args1 =
    (if is_nil (map_of args ''parameters'') then AList.update ''parameters'' (JList []) args else args)"
  obtain ps where ps: "map_of args1 ''parameters'' = Some (JList ps)"
    using assms(3) args(1) by (cases rule: arguments_cases) (auto simp: args1_def spec1_def is_nil_def)
  define y1 where "y1 = AList.update ''spec'' (JObj (AList.update ''arguments'' (JObj args1) spec1)) wfobj"
  define params where "params = ps @ map (\<lambda>(k, v). param k v) (global_params \<rho> a)"
  have run: "configureGlobalWFParameters U \<rho> a wfobj =
      (case SetNestedSlice U y1 params [''spec'', ''arguments'', ''parameters''] of
         Panic p \<Rightarrow> Panic p | Ret (Inl _) \<Rightarrow> Ret (False, y1) | Ret (Inr y2) \<Rightarrow> Ret (True, y2))"
    by (simp only: configureGlobalWFParameters_def Let_def assms(2) option.case json.case spec1_def [symmetric]
        args(1) args1_def [symmetric] ps y1_def params_def)
  have same: "same_outside ''arguments'' spec spec1" "map_of args1 ''artifacts'' = map_of args ''artifacts''"
    by (simp_all add: spec1_def args1_def)
  obtain r where r: "SetNestedSlice U y1 params [''spec'', ''arguments'', ''parameters''] = Ret r"
    using assms(1) unfolding access_law_def by blast
  show ?thesis
  proof (cases r)
    case (Inr y2)
    have "\<exists>s' z'. map_of y2 ''spec'' = Some (JObj s') \<and>
        same_outside ''arguments'' (AList.update ''arguments'' (JObj args1) spec1) s' \<and>
        map_of s' ''arguments'' = Some (JObj z') \<and> same_outside ''parameters'' args1 z'"
      by (rule access_slice [OF assms(1) _ _ r [unfolded Inr]]) (simp_all add: y1_def)
    then obtain s' z' where "map_of y2 ''spec'' = Some (JObj s')" "same_outside ''arguments'' spec s'"
      "map_of s' ''arguments'' = Some (JObj z')" "map_of z' ''artifacts'' = map_of args ''artifacts''"
      using same by (auto simp: same_outside_def)
    then show ?thesis using run r Inr args(2) by (auto simp: nested2_def)
  qed (use run r in \<open>simp, blast\<close>)
qed

lemma step_typed_arguments:
  assumes "step_typed (JObj m)" and "same_outside ''arguments'' m m'"
    and "nested2 (JObj m') ''arguments'' ''artifacts'' = nested2 (JObj m) ''arguments'' ''artifacts''"
  shows "step_typed (JObj m')"
proof -
  have "nested2 (JObj m') ''resource'' ''manifest'' = nested2 (JObj m) ''resource'' ''manifest''"
    using assms(2) by (simp add: nested2_def same_outside_def)
  then show ?thesis using assms(1,3) by (simp add: step_typed_def is_obj_def)
qed

section \<open>The theorem\<close>

text \<open>
  C25: A workflow is built from every template of the right shape without a panic: whatever the
  documents of its artifacts and manifests hold, \<open>Install\<close> either has a workflow to submit or an error to
  report.
\<close>

theorem typed_template_returns:
  assumes "wf_law U" and "access_law U"
    and "parse U a (proxy_template wp) (proxy_name wp) = Inr w0" and "spec_typed w0"
  shows "\<exists>r. buildWorkflow U \<rho> a wp = Ret r"
proof -
  obtain spec where w0: "map_of w0 ''spec'' = Some (JObj spec)"
    using assms(4) unfolding spec_typed_def
    by (cases "map_of w0 ''spec''"; cases "the (map_of w0 ''spec'')") simp_all
  with assms(4) have spec: "arguments_typed spec" "step_typed (JObj spec)"
    "case map_of spec ''templates'' of Some (JList ts) \<Rightarrow> list_all template_typed ts | _ \<Rightarrow> True"
    by (simp_all add: spec_typed_def)
  obtain b y where y: "configureGlobalWFParameters U \<rho> a w0 = Ret (b, y)"
    "b \<longrightarrow> (\<exists>spec'. map_of y ''spec'' = Some (JObj spec') \<and> same_outside ''arguments'' spec spec' \<and>
       nested2 (JObj spec') ''arguments'' ''artifacts'' = nested2 (JObj spec) ''arguments'' ''artifacts'')"
    using parameters_return [OF assms(2) w0 spec(1)] by blast
  have "configureWorkflowArtifacts U a y \<noteq> Panic p" if ok: b for p
  proof -
    obtain spec' where spec': "map_of y ''spec'' = Some (JObj spec')" "same_outside ''arguments'' spec spec'"
      "nested2 (JObj spec') ''arguments'' ''artifacts'' = nested2 (JObj spec) ''arguments'' ''artifacts''"
      using y(2) ok by blast
    show ?thesis
      by (rule artifacts_return [OF assms(1,2) spec'(1) step_typed_arguments [OF spec(2) spec'(2,3)]])
        (use spec(3) spec'(2) in \<open>simp add: same_outside_def\<close>)
  qed
  then have "buildWorkflow U \<rho> a wp \<noteq> Panic p" for p
    using assms(3) y(1) by (cases b) (auto simp: buildWorkflow_def ebind_Panic)
  then show ?thesis by (cases "buildWorkflow U \<rho> a wp") blast+
qed

lemma mem_access_law: "access_law mem_lib"
proof -
  have sel: "NestedFieldNoCopy mem_lib = path_get" "SetNestedSlice mem_lib = (\<lambda>x v p. Ret (path_set x (JList v) p))"
    by (simp_all add: mem_lib_def)
  have read: "path_get x [k, l] = Inr (Some v) \<Longrightarrow> nested2 (JObj x) k l = Some v" for x k l v
    by (simp add: nested2_def split: option.splits json.splits)
  show ?thesis
    unfolding access_law_def sel
    using read by (auto simp: map_sum_Inr)
qed

text \<open>A template with a manifest, the steps of a second one and arguments.\<close>

definition typed_spec :: "json gomap" where
  "typed_spec =
     [(''arguments'', JObj [(''parameters'', JList []), (''artifacts'', JList [JObj []])]),
      (''templates'', JList
        [JObj [(''name'', JStr ''submit''), (''resource'', JObj [(''manifest'', JStr ''kind: A'')])],
         JObj [(''name'', JStr ''entry''), (''steps'', JList [JList [JObj [(''template'', JStr ''submit'')]]])]])]"

definition typed_lib :: "(mem, Workflow) wf_lib" where
  "typed_lib = mem_lib\<lparr>UnmarshalJSON := (\<lambda>_. Inr [(''spec'', JObj typed_spec)])\<rparr>"

lemma typed_sel:
  "un_SetName typed_lib = un_SetName mem_lib" "un_SetNamespace typed_lib = un_SetNamespace mem_lib"
  "un_SetLabels typed_lib = un_SetLabels mem_lib" "un_GetName typed_lib = un_GetName mem_lib"
  "un_GetNamespace typed_lib = un_GetNamespace mem_lib" "un_GetLabels typed_lib = un_GetLabels mem_lib"
  "GroupVersionKind_of typed_lib = GroupVersionKind_of mem_lib" "SetGroupVersionKind typed_lib = SetGroupVersionKind mem_lib"
  "SetNestedField typed_lib = SetNestedField mem_lib" "SetNestedSlice typed_lib = SetNestedSlice mem_lib"
  "NestedInt64 typed_lib = NestedInt64 mem_lib" "NestedFieldNoCopy typed_lib = NestedFieldNoCopy mem_lib"
  by (simp_all add: typed_lib_def)

theorem typed_template_returns_witness:
  "\<exists>w0. parse typed_lib (zero_Addon ''a'' ''ns'') (proxy_template sample_proxy) (proxy_name sample_proxy) = Inr w0 \<and>
     spec_typed w0 \<and> (\<exists>r. buildWorkflow typed_lib rev (zero_Addon ''a'' ''ns'') sample_proxy = Ret r)"
proof -
  have "wf_law typed_lib" "access_law typed_lib"
    using mem_lib_law mem_access_law
    unfolding wf_law_def meta_read_law_def meta_write_law_def meta_frame_law_def kind_law_def nested_law_def
      access_law_def typed_sel
    by - assumption+
  moreover obtain w0 where w0: "parse typed_lib (zero_Addon ''a'' ''ns'') (proxy_template sample_proxy) (proxy_name sample_proxy) = Inr w0"
    "map_of w0 ''spec'' = Some (JObj typed_spec)"
    by (simp add: parse_def typed_lib_def mem_lib_def mem_set_meta_def mem_set_kind_def Let_def)
  moreover have "spec_typed w0"
    by (simp add: spec_typed_def w0(2) arguments_typed_def step_typed_def nested2_def is_obj_def template_typed_def typed_spec_def)
  ultimately show ?thesis
    using typed_template_returns [of typed_lib "zero_Addon ''a'' ''ns''" sample_proxy w0 rev] by metis
qed

section \<open>Artifacts without raw data\<close>

text \<open>
  The flag of \<open>NestedString\<close> is discarded: an artifact that has no raw data, such as one that is read from a
  bucket or from another step, is stored with a raw location of empty data.
\<close>

lemma raw_data_added:
  assumes "NestedString U art [''raw'', ''data''] = Inr None"
    and "SetNestedField U art (JStr []) [''raw'', ''data''] = Inr art'"
  shows "processRawArtifact U a (JObj art) = Ret (Inr (JObj art'))"
proof -
  have "processManifest U a [] = Ret (Inr [])"
    by (simp add: processManifest_def processArtifact_def TrimSpace_def Split_def manifest_sep_def)
  then show ?thesis using assms by (simp add: processRawArtifact_def)
qed

lemma bucket_artifact_stored:
  "processRawArtifact mem_lib a (JObj [(''name'', JStr ''in''), (''s3'', JObj [(''key'', JStr ''k'')])]) =
     Ret (Inr (JObj [(''name'', JStr ''in''), (''s3'', JObj [(''key'', JStr ''k'')]), (''raw'', JObj [(''data'', JStr [])])]))"
  by (rule raw_data_added) (simp_all add: mem_lib_def)

end
