(* ===== verification/Workflow_Builder.thy ===== *)
theory Workflow_Builder
  imports Workflow_Lifecycle
begin

text \<open>
  The builder of workflow objects, \<^verbatim>\<open>pkg/workflows/workflow_builder.go\<close>. Its parts are maps
  \<^verbatim>\<open>map[string]interface{}\<close> that are shared by reference: the entry template holds the submit
  step, the built object is the content of the builder itself. The maps therefore live in
  a heap (\<open>go_heap\<close>), and the dynamic type of a value matters, because the code asserts
  it (\<open>gval\<close>, \<open>as_map\<close> and its siblings). A slice is stored in one place only, so slices are
  values. The package variable \<open>doDelete\<close> is part of the state.
\<close>

section \<open>Values and the heap\<close>

type_synonym addr = nat

datatype gval =
    GStr string
  | GStrs "string list"
  | GMap addr
  | GMaps "addr list"
  | GMapss "addr list list"
  | GAnys "gval list"

record go_heap =
  objs :: "addr \<rightharpoonup> gval gomap"
  nxt :: addr

record wb_state =
  wb_heap :: go_heap
  doDelete :: bool

definition fld :: "go_heap \<Rightarrow> addr \<Rightarrow> string \<Rightarrow> gval option" where
  "fld h a k = (case objs h a of None \<Rightarrow> None | Some m \<Rightarrow> map_of m k)"

text \<open>\<open>make(map[string]interface{})\<close>, \<open>m[k]\<close> and \<open>m[k] = v\<close>.\<close>

definition make_map :: "(wb_state, addr) gom" where
  "make_map = (\<lambda>s. let h = wb_heap s in
     (Ret (nxt h), s\<lparr>wb_heap := h\<lparr>objs := (objs h)(nxt h \<mapsto> []), nxt := Suc (nxt h)\<rparr>\<rparr>))"

definition map_at :: "addr \<Rightarrow> string \<Rightarrow> (wb_state, gval option) gom" where
  "map_at a k = gget (\<lambda>s. fld (wb_heap s) a k)"

definition put_heap :: "addr \<Rightarrow> string \<Rightarrow> gval \<Rightarrow> go_heap \<Rightarrow> go_heap" where
  "put_heap a k v h =
     (case objs h a of None \<Rightarrow> h
      | Some m \<Rightarrow> h\<lparr>objs := (objs h)(a \<mapsto> AList.update k v m)\<rparr>)"

definition map_put :: "addr \<Rightarrow> string \<Rightarrow> gval \<Rightarrow> (wb_state, unit) gom" where
  "map_put a k v = (\<lambda>s.
     if objs (wb_heap s) a = None then (Panic ''assignment to entry in nil map'', s)
     else (Ret (), s\<lparr>wb_heap := put_heap a k v (wb_heap s)\<rparr>))"

text \<open>Type assertions \<open>x.(T)\<close>; a missing key reads as nil.\<close>

fun gval_type :: "gval option \<Rightarrow> string" where
  "gval_type None = ''nil''"
| "gval_type (Some (GStr s)) = ''string''"
| "gval_type (Some (GStrs ss)) = ''[]string''"
| "gval_type (Some (GMap a)) = ''map[string]interface {}''"
| "gval_type (Some (GMaps as)) = ''[]map[string]interface {}''"
| "gval_type (Some (GMapss rs)) = ''[][]map[string]interface {}''"
| "gval_type (Some (GAnys vs)) = ''[]interface {}''"

definition conversion_panic :: "gval option \<Rightarrow> string \<Rightarrow> string" where
  "conversion_panic v want =
     ''interface conversion: interface {} is '' @ gval_type v @ '', not '' @ want"

definition as_map :: "gval option \<Rightarrow> (wb_state, addr) gom" where
  "as_map v = (case v of Some (GMap a) \<Rightarrow> gret a
     | _ \<Rightarrow> gpanic (conversion_panic v ''map[string]interface {}''))"

definition as_maps :: "gval option \<Rightarrow> (wb_state, addr list) gom" where
  "as_maps v = (case v of Some (GMaps as) \<Rightarrow> gret as
     | _ \<Rightarrow> gpanic (conversion_panic v ''[]map[string]interface {}''))"

definition as_mapss :: "gval option \<Rightarrow> (wb_state, addr list list) gom" where
  "as_mapss v = (case v of Some (GMapss rs) \<Rightarrow> gret rs
     | _ \<Rightarrow> gpanic (conversion_panic v ''[][]map[string]interface {}''))"

definition as_anys :: "gval option \<Rightarrow> (wb_state, gval list) gom" where
  "as_anys v = (case v of Some (GAnys vs) \<Rightarrow> gret vs
     | _ \<Rightarrow> gpanic (conversion_panic v ''[]interface {}''))"

text \<open>
  The statement forms the builder repeats: \<open>a[k].(map)\<close>, \<open>a[k] = make(map)\<close>,
  \<open>a[k] = append(a[k].([]map), xs...)\<close> and \<open>a["steps"][0] = append(a["steps"][0], x)\<close>.
\<close>

definition sub_map :: "addr \<Rightarrow> string \<Rightarrow> (wb_state, addr) gom" where
  "sub_map a k = gbind (map_at a k) as_map"

definition put_new_map :: "addr \<Rightarrow> string \<Rightarrow> (wb_state, unit) gom" where
  "put_new_map a k = gbind make_map (\<lambda>b. map_put a k (GMap b))"

definition append_maps :: "addr \<Rightarrow> string \<Rightarrow> addr list \<Rightarrow> (wb_state, unit) gom" where
  "append_maps a k xs =
     gbind (map_at a k) (\<lambda>v. gbind (as_maps v) (\<lambda>as. map_put a k (GMaps (as @ xs))))"

definition push_step :: "addr \<Rightarrow> addr \<Rightarrow> (wb_state, unit) gom" where
  "push_step a x =
     gbind (map_at a ''steps'') (\<lambda>v. gbind (as_mapss v) (\<lambda>rs.
       case rs of [] \<Rightarrow> gpanic ''index out of range [0] with length 0''
       | r # rest \<Rightarrow> map_put a ''steps'' (GMapss ((r @ [x]) # rest))))"

section \<open>The builder\<close>

definition defaultPython3ScriptImage :: string where
  "defaultPython3ScriptImage = ''python:3''"

definition defaultSubmitContainerImage :: string where
  "defaultSubmitContainerImage = ''expert360/kubectl-awscli:v1.11.2''"

record workflowBuilder =
  defaultContent :: addr
  defaultEntryTemplate :: addr
  defaultSubmitStep :: addr
  defaultSubmitTemplate :: addr
  deleteTemplates :: "addr list"
  workflowName :: string
  workflowNamespace :: string

text \<open>\<open>New\<close>, one definition per group of statements.\<close>

definition new_content :: "(wb_state, addr) gom" where
  "new_content =
     gbind make_map (\<lambda>content.
     gbind (put_new_map content ''spec'') (\<lambda>_.
     gbind (sub_map content ''spec'') (\<lambda>spec.
     gbind (map_put spec ''entrypoint'' (GStr ''entry'')) (\<lambda>_.
     gbind (map_put spec ''serviceAccountName'' (GStr ''addon-manager-workflow-installer-sa'')) (\<lambda>_.
     gbind (map_put spec ''templates'' (GMaps [])) (\<lambda>_.
     gret content))))))"

definition new_container :: "string \<Rightarrow> addr \<Rightarrow> (wb_state, unit) gom" where
  "new_container arg dsc =
     gbind (map_put dsc ''image'' (GStr defaultSubmitContainerImage)) (\<lambda>_.
     gbind (map_put dsc ''command'' (GStrs [''sh'', ''-c''])) (\<lambda>_.
     map_put dsc ''args'' (GStrs [arg])))"

definition new_lists :: "addr \<Rightarrow> string \<Rightarrow> (wb_state, unit) gom" where
  "new_lists a k =
     gbind (put_new_map a k) (\<lambda>_.
     gbind (sub_map a k) (\<lambda>b.
     gbind (map_put b ''parameters'' (GMaps [])) (\<lambda>_.
     map_put b ''artifacts'' (GMaps []))))"

definition new_submit_template :: "(wb_state, addr) gom" where
  "new_submit_template =
     gbind make_map (\<lambda>dsc.
     gbind (new_container ''kubectl apply -f /tmp/doc'' dsc) (\<lambda>_.
     gbind make_map (\<lambda>submitTemplate.
     gbind (map_put submitTemplate ''name'' (GStr ''submit'')) (\<lambda>_.
     gbind (new_lists submitTemplate ''inputs'') (\<lambda>_.
     gbind (map_put submitTemplate ''container'' (GMap dsc)) (\<lambda>_.
     gret submitTemplate))))))"

definition new_entry_template :: "string \<Rightarrow> (wb_state, addr) gom" where
  "new_entry_template n =
     gbind make_map (\<lambda>entryTemplate.
     gbind (map_put entryTemplate ''name'' (GStr n)) (\<lambda>_.
     gbind (map_put entryTemplate ''steps'' (GMapss [[]])) (\<lambda>_.
     gret entryTemplate)))"

definition new_submit_step :: "(wb_state, addr) gom" where
  "new_submit_step =
     gbind make_map (\<lambda>submitStep.
     gbind (map_put submitStep ''name'' (GStr ''install'')) (\<lambda>_.
     gbind (new_lists submitStep ''arguments'') (\<lambda>_.
     gbind (map_put submitStep ''template'' (GStr ''submit'')) (\<lambda>_.
     gret submitStep))))"

definition new_delete_templates :: "(wb_state, addr list) gom" where
  "new_delete_templates =
     gbind (new_entry_template ''delete-wf'') (\<lambda>deleteEntryTemplate.
     gbind make_map (\<lambda>deleteStepsTemp.
     gbind (map_put deleteStepsTemp ''name'' (GStr ''delete-ns'')) (\<lambda>_.
     gbind (map_put deleteStepsTemp ''template'' (GStr ''delete-ns'')) (\<lambda>_.
     gbind (push_step deleteEntryTemplate deleteStepsTemp) (\<lambda>_.
     gbind make_map (\<lambda>deleteNSTemplate.
     gbind (map_put deleteNSTemplate ''name'' (GStr ''delete-ns'')) (\<lambda>_.
     gbind (put_new_map deleteNSTemplate ''container'') (\<lambda>_.
     gbind (sub_map deleteNSTemplate ''container'') (\<lambda>c.
     gbind (new_container ''kubectl delete all -n {{workflow.parameters.namespace}} --all'' c) (\<lambda>_.
     gret [deleteEntryTemplate, deleteNSTemplate]))))))))))"

definition builder_New :: "(wb_state, workflowBuilder) gom" where
  "builder_New =
     gbind new_content (\<lambda>content.
     gbind new_submit_template (\<lambda>submitTemplate.
     gbind (new_entry_template ''entry'') (\<lambda>entryTemplate.
     gbind new_submit_step (\<lambda>submitStep.
     gbind new_delete_templates (\<lambda>deleteTemplates.
     gret \<lparr>defaultContent = content, defaultEntryTemplate = entryTemplate,
           defaultSubmitStep = submitStep, defaultSubmitTemplate = submitTemplate,
           deleteTemplates = deleteTemplates, workflowName = [], workflowNamespace = []\<rparr>)))))"

text \<open>
  The methods of \<open>unstructured.Unstructured\<close> that \<open>Build\<close> calls, on the heap: they are
  arguments. \<open>SetUnstructuredContent\<close> makes the object hold the given map itself, so the
  result of \<open>Build\<close> is the address of that map.
\<close>

record object_lib =
  o_SetGroupVersionKind :: "string \<Rightarrow> string \<Rightarrow> string \<Rightarrow> addr \<Rightarrow> go_heap \<Rightarrow> go_heap"
  o_SetGenerateName :: "string \<Rightarrow> addr \<Rightarrow> go_heap \<Rightarrow> go_heap"

definition on_heap :: "(go_heap \<Rightarrow> go_heap) \<Rightarrow> (wb_state, unit) gom" where
  "on_heap f = gmodify (\<lambda>s. s\<lparr>wb_heap := f (wb_heap s)\<rparr>)"

definition list_at :: "'a list \<Rightarrow> nat \<Rightarrow> ('s, 'a) gom" where
  "list_at xs i = (if i < length xs then gret (xs ! i) else gpanic ''index out of range'')"

definition builder_Build :: "object_lib \<Rightarrow> workflowBuilder \<Rightarrow> (wb_state, addr) gom" where
  "builder_Build B wb =
     gbind (gget doDelete) (\<lambda>del.
     gbind (if \<not> del then gret [defaultEntryTemplate wb, defaultSubmitTemplate wb]
            else gbind (list_at (deleteTemplates wb) 0) (\<lambda>d0.
                 gbind (list_at (deleteTemplates wb) 1) (\<lambda>d1. gret [d0, d1]))) (\<lambda>ts.
     gbind (sub_map (defaultContent wb) ''spec'') (\<lambda>spec.
     gbind (append_maps spec ''templates'' ts) (\<lambda>_.
     gbind (on_heap (o_SetGroupVersionKind B ''argoproj.io'' ''v1alpha1'' ''Workflow'' (defaultContent wb))) (\<lambda>_.
     gbind (on_heap (o_SetGenerateName B ''-'' (defaultContent wb))) (\<lambda>_.
     gret (defaultContent wb)))))))"

text \<open>
  \<open>ConvertUnstructuredWorkflowToString\<close>: \<open>yaml.Marshal\<close> is an argument. \<open>log.Fatal\<close> ends the
  process; no caller of the builder recovers from panics, so it is one here.
\<close>

definition ConvertUnstructuredWorkflowToString ::
    "(go_heap \<Rightarrow> addr \<Rightarrow> goerr + string) \<Rightarrow> addr \<Rightarrow> (wb_state, string) gom" where
  "ConvertUnstructuredWorkflowToString Marshal u =
     gbind (gget wb_heap) (\<lambda>h. case Marshal h u of
       Inl err \<Rightarrow> gpanic (Error err) | Inr wfYAMLBytes \<Rightarrow> gret wfYAMLBytes)"

definition builder_Delete :: "workflowBuilder \<Rightarrow> (wb_state, workflowBuilder) gom" where
  "builder_Delete wb = gbind (gmodify (\<lambda>s. s\<lparr>doDelete := True\<rparr>)) (\<lambda>_. gret wb)"

definition newline :: string where "newline = [CHR 0x0A]"

definition with_separator :: "string \<Rightarrow> string" where
  "with_separator resource =
     (let separator = ''---'' @ newline;
          separator = (if \<not> HasSuffix resource newline then newline @ separator else separator)
      in resource @ separator)"

definition artifact_data :: "string list \<Rightarrow> string" where
  "artifact_data resources =
     fold (\<lambda>resource resourceArtifactData. resourceArtifactData @ with_separator resource) resources []"

definition new_artifact :: "string \<Rightarrow> (wb_state, addr) gom" where
  "new_artifact resourceArtifactData =
     gbind make_map (\<lambda>resourceArtifact.
     gbind (map_put resourceArtifact ''name'' (GStr ''doc'')) (\<lambda>_.
     gbind (map_put resourceArtifact ''path'' (GStr ''/tmp/doc'')) (\<lambda>_.
     gbind (put_new_map resourceArtifact ''raw'') (\<lambda>_.
     gbind (sub_map resourceArtifact ''raw'') (\<lambda>raw.
     gbind (map_put raw ''data'' (GStr resourceArtifactData)) (\<lambda>_.
     gret resourceArtifact))))))"

definition builder_Resources :: "string list \<Rightarrow> workflowBuilder \<Rightarrow> (wb_state, workflowBuilder) gom" where
  "builder_Resources resources wb =
     gbind (new_artifact (artifact_data resources)) (\<lambda>resourceArtifact.
     gbind (sub_map (defaultSubmitTemplate wb) ''inputs'') (\<lambda>inputs.
     gbind (append_maps inputs ''artifacts'' [resourceArtifact]) (\<lambda>_.
     gbind (push_step (defaultEntryTemplate wb) (defaultSubmitStep wb)) (\<lambda>_.
     gret wb))))"

definition new_script :: "string \<Rightarrow> string \<Rightarrow> (wb_state, addr) gom" where
  "new_script tempName scriptData =
     gbind make_map (\<lambda>tempScript.
     gbind (map_put tempScript ''name'' (GStr tempName)) (\<lambda>_.
     gbind (put_new_map tempScript ''script'') (\<lambda>_.
     gbind (sub_map tempScript ''script'') (\<lambda>script.
     gbind (map_put script ''image'' (GStr defaultPython3ScriptImage)) (\<lambda>_.
     gbind (map_put script ''command'' (GStrs [''pyhton''])) (\<lambda>_.
     gbind (map_put script ''source'' (GStr scriptData)) (\<lambda>_.
     gret tempScript)))))))"

definition new_pair :: "string \<Rightarrow> string \<Rightarrow> string \<Rightarrow> (wb_state, addr) gom" where
  "new_pair n k v =
     gbind make_map (\<lambda>m.
     gbind (map_put m ''name'' (GStr n)) (\<lambda>_.
     gbind (map_put m k (GStr v)) (\<lambda>_. gret m)))"

definition add_script :: "workflowBuilder \<Rightarrow> string \<times> string \<Rightarrow> (wb_state, unit) gom" where
  "add_script wb = (\<lambda>(name, scriptData).
     let tempName = TrimSuffix name ''.py''
     in gbind (new_script tempName scriptData) (\<lambda>tempScript.
        gbind (new_pair tempName ''template'' tempName) (\<lambda>tempStep.
        gbind (sub_map (defaultContent wb) ''spec'') (\<lambda>spec.
        gbind (map_at spec ''templates'') (\<lambda>v.
        gbind (as_anys v) (\<lambda>templates.
        gbind (map_put spec ''templates'' (GAnys (templates @ [GMap tempScript]))) (\<lambda>_.
        gbind (push_step (defaultEntryTemplate wb) tempStep) (\<lambda>_.
        gbind (new_pair tempName ''value'' (''{{steps.'' @ tempName @ ''.outputs.result}}'')) (\<lambda>scriptParamArgument.
        gbind make_map (\<lambda>scriptParamInput.
        gbind (map_put scriptParamInput ''name'' (GStr tempName)) (\<lambda>_.
        gbind (sub_map (defaultSubmitStep wb) ''arguments'') (\<lambda>arguments.
        gbind (append_maps arguments ''parameters'' [scriptParamArgument]) (\<lambda>_.
        gbind (sub_map (defaultSubmitTemplate wb) ''inputs'') (\<lambda>inputs.
        append_maps inputs ''parameters'' [scriptParamInput]))))))))))))))"

definition builder_Scripts ::
    "order \<Rightarrow> string gomap \<Rightarrow> workflowBuilder \<Rightarrow> (wb_state, workflowBuilder) gom" where
  "builder_Scripts \<rho> scripts wb = gbind (gfor (add_script wb) (gm_range \<rho> scripts)) (\<lambda>_. gret wb)"

lemmas builder_ops = make_map_def map_at_def map_put_def sub_map_def put_new_map_def
  append_maps_def push_step_def on_heap_def list_at_def

section \<open>Allocated maps and the types of their values\<close>

definition alloc :: "go_heap \<Rightarrow> addr \<Rightarrow> bool" where
  "alloc h a \<longleftrightarrow> objs h a \<noteq> None"

definition new_heap :: "go_heap \<Rightarrow> go_heap" where
  "new_heap h = h\<lparr>objs := (objs h)(nxt h \<mapsto> []), nxt := Suc (nxt h)\<rparr>"

text \<open>Keys whose value is never stored again after its map has been made: the links.\<close>

definition link_keys :: "string set" where
  "link_keys = {''spec'', ''inputs'', ''arguments''}"

text \<open>The dynamic type that each key of a builder's map has.\<close>

definition val_ok :: "go_heap \<Rightarrow> string \<Rightarrow> gval \<Rightarrow> bool" where
  "val_ok h k v \<longleftrightarrow>
     (if k \<in> link_keys \<union> {''container'', ''raw'', ''script'', ''metadata''}
        then \<exists>a. v = GMap a \<and> alloc h a
      else if k \<in> {''templates'', ''parameters'', ''artifacts''}
        then \<exists>as. v = GMaps as \<and> list_all (alloc h) as
      else if k = ''steps''
        then \<exists>r rs. v = GMapss (r # rs) \<and> list_all (list_all (alloc h)) (r # rs)
      else (\<exists>x. v = GStr x) \<or> (\<exists>xs. v = GStrs xs))"

definition hconf :: "go_heap \<Rightarrow> bool" where
  "hconf h \<longleftrightarrow> (\<forall>a. alloc h a \<longrightarrow> a < nxt h) \<and> (\<forall>a k v. fld h a k = Some v \<longrightarrow> val_ok h k v)"

definition hext :: "go_heap \<Rightarrow> go_heap \<Rightarrow> bool" where
  "hext h h' \<longleftrightarrow> (\<forall>a. alloc h a \<longrightarrow> alloc h' a) \<and>
     (\<forall>a k v. fld h a k = Some v \<longrightarrow> (\<exists>v'. fld h' a k = Some v' \<and> (k \<in> link_keys \<longrightarrow> v' = v)))"

text \<open>What a builder's methods find when they follow its maps.\<close>

definition has_lists :: "go_heap \<Rightarrow> addr \<Rightarrow> string \<Rightarrow> bool" where
  "has_lists h a k \<longleftrightarrow> (\<exists>b. fld h a k = Some (GMap b) \<and>
     fld h b ''parameters'' \<noteq> None \<and> fld h b ''artifacts'' \<noteq> None)"

definition wb_conf :: "go_heap \<Rightarrow> workflowBuilder \<Rightarrow> bool" where
  "wb_conf h wb \<longleftrightarrow>
     (\<exists>sp. fld h (defaultContent wb) ''spec'' = Some (GMap sp) \<and> fld h sp ''templates'' \<noteq> None) \<and>
     fld h (defaultEntryTemplate wb) ''steps'' \<noteq> None \<and>
     has_lists h (defaultSubmitTemplate wb) ''inputs'' \<and>
     has_lists h (defaultSubmitStep wb) ''arguments'' \<and>
     length (deleteTemplates wb) = 2 \<and> list_all (alloc h) (deleteTemplates wb)"

text \<open>
  What the manual of \<open>unstructured\<close> says of the two setters: they change the version, the
  kind and the generated name of the given object and nothing else, and make the metadata map when
  there is none.
\<close>

definition set_kind_law :: "object_lib \<Rightarrow> bool" where
  "set_kind_law B \<longleftrightarrow> (\<forall>g v k ob h. alloc h ob \<longrightarrow>
     (let h' = o_SetGroupVersionKind B g v k ob h
      in nxt h' = nxt h \<and> (\<forall>a. alloc h' a \<longleftrightarrow> alloc h a) \<and>
         (\<forall>a j. fld h' a j =
           (if a = ob \<and> j = ''apiVersion'' then Some (GStr (g @ ''/'' @ v))
            else if a = ob \<and> j = ''kind'' then Some (GStr k) else fld h a j))))"

definition set_name_law :: "object_lib \<Rightarrow> bool" where
  "set_name_law B \<longleftrightarrow> (\<forall>n ob h. n \<noteq> [] \<longrightarrow> alloc h ob \<longrightarrow> (\<forall>a. alloc h a \<longrightarrow> a < nxt h) \<longrightarrow>
     (let h' = o_SetGenerateName B n ob h
      in (fld h ob ''metadata'' = None \<longrightarrow>
           (\<exists>b. \<not> alloc h b \<and> b < nxt h' \<and> nxt h \<le> nxt h' \<and> (\<forall>a. alloc h' a \<longleftrightarrow> a = b \<or> alloc h a) \<and>
             (\<forall>a j. fld h' a j =
               (if a = b then (if j = ''generateName'' then Some (GStr n) else None)
                else if a = ob \<and> j = ''metadata'' then Some (GMap b) else fld h a j)))) \<and>
         (\<forall>b. fld h ob ''metadata'' = Some (GMap b) \<longrightarrow> alloc h b \<longrightarrow>
           nxt h' = nxt h \<and> (\<forall>a. alloc h' a \<longleftrightarrow> alloc h a) \<and>
             (\<forall>a j. fld h' a j =
               (if a = b \<and> j = ''generateName'' then Some (GStr n) else fld h a j)))))"

definition object_law :: "object_lib \<Rightarrow> bool" where
  "object_law B \<longleftrightarrow> set_kind_law B \<and> set_name_law B"

section \<open>Lemmas on the heap\<close>

lemma fld_not_alloc: "\<not> alloc h a \<Longrightarrow> fld h a k = None"
  by (simp add: fld_def alloc_def)

lemma fld_alloc: "fld h a k = Some v \<Longrightarrow> alloc h a"
  using fld_not_alloc by fastforce

lemma put_heap_simps [simp]:
  "nxt (put_heap a k v h) = nxt h"
  "alloc (put_heap a k v h) = alloc h"
  by (auto simp: put_heap_def alloc_def fun_eq_iff split: option.split)

lemma fld_put_heap [simp]:
  "alloc h a \<Longrightarrow> fld (put_heap a k v h) b j = (if b = a \<and> j = k then Some v else fld h b j)"
  by (auto simp: put_heap_def fld_def alloc_def split: option.split)

lemma new_heap_simps [simp]:
  "nxt (new_heap h) = Suc (nxt h)"
  "alloc (new_heap h) b \<longleftrightarrow> b = nxt h \<or> alloc h b"
  by (auto simp: new_heap_def alloc_def)

lemma hconf_fresh: "hconf h \<Longrightarrow> \<not> alloc h (nxt h)"
  by (auto simp: hconf_def)

lemma fld_new_heap [simp]: "\<not> alloc h (nxt h) \<Longrightarrow> fld (new_heap h) b j = fld h b j"
  by (auto simp: alloc_def new_heap_def fld_def)

lemma val_ok_mono:
  assumes "val_ok h k v" and "\<And>a. alloc h a \<Longrightarrow> alloc h' a"
  shows "val_ok h' k v"
proof -
  have "list_all (alloc h') as" if "list_all (alloc h) as" for as
    using that assms(2) by (auto elim: list.pred_mono_strong)
  moreover have "list_all (list_all (alloc h')) rs" if "list_all (list_all (alloc h)) rs" for rs
    using that calculation by (auto elim: list.pred_mono_strong)
  ultimately show ?thesis
    using assms unfolding val_ok_def by (smt (verit, best))
qed

lemma returns_map_at [simp]: "returns (map_at a k) s Q \<longleftrightarrow> Q (fld (wb_heap s) a k) s"
  by (simp add: map_at_def)

lemma returns_make_map [simp]:
  "returns make_map s Q \<longleftrightarrow> Q (nxt (wb_heap s)) (s\<lparr>wb_heap := new_heap (wb_heap s)\<rparr>)"
  by (simp add: returns_def make_map_def new_heap_def Let_def)

lemma returns_map_put [simp]:
  "returns (map_put a k v) s Q \<longleftrightarrow>
     alloc (wb_heap s) a \<and> Q () (s\<lparr>wb_heap := put_heap a k v (wb_heap s)\<rparr>)"
  by (simp add: returns_def map_put_def alloc_def)

lemma returns_on_heap [simp]: "returns (on_heap f) s Q \<longleftrightarrow> Q () (s\<lparr>wb_heap := f (wb_heap s)\<rparr>)"
  by (simp add: on_heap_def)

lemma returns_as_map [simp]:
  "returns (as_map (Some (GMap a))) s Q \<longleftrightarrow> Q a s"
  by (simp add: as_map_def)

lemma returns_sub_map [simp]:
  "fld (wb_heap s) a k = Some (GMap b) \<Longrightarrow> returns (sub_map a k) s Q \<longleftrightarrow> Q b s"
  by (simp add: sub_map_def)

lemma returns_append_maps [simp]:
  "fld (wb_heap s) a k = Some (GMaps as) \<Longrightarrow>
     returns (append_maps a k xs) s Q \<longleftrightarrow>
       Q () (s\<lparr>wb_heap := put_heap a k (GMaps (as @ xs)) (wb_heap s)\<rparr>)"
  using fld_alloc by (fastforce simp: append_maps_def as_maps_def)

lemma returns_push_step [simp]:
  "fld (wb_heap s) a ''steps'' = Some (GMapss (r # rs)) \<Longrightarrow>
     returns (push_step a x) s Q \<longleftrightarrow>
       Q () (s\<lparr>wb_heap := put_heap a ''steps'' (GMapss ((r @ [x]) # rs)) (wb_heap s)\<rparr>)"
  using fld_alloc by (fastforce simp: push_step_def as_mapss_def)

lemma returns_list_at [simp]: "i < length xs \<Longrightarrow> returns (list_at xs i) s Q \<longleftrightarrow> Q (xs ! i) s"
  by (simp add: list_at_def)

lemma val_ok_meta:
  "val_ok h ''apiVersion'' (GStr x)" "val_ok h ''kind'' (GStr x)" "val_ok h ''generateName'' (GStr x)"
  by (simp_all add: val_ok_def link_keys_def)

lemma returns_put_new_map [simp]:
  "returns (put_new_map a k) s Q \<longleftrightarrow>
     (a = nxt (wb_heap s) \<or> alloc (wb_heap s) a) \<and>
     Q () (s\<lparr>wb_heap := put_heap a k (GMap (nxt (wb_heap s))) (new_heap (wb_heap s))\<rparr>)"
  by (simp add: put_new_map_def)

lemma hext_refl [simp, intro]: "hext h h"
  by (simp add: hext_def)

lemma hext_trans: "hext h h' \<Longrightarrow> hext h' h'' \<Longrightarrow> hext h h''"
  unfolding hext_def by metis

lemma hconf_put_heap:
  assumes "hconf h" and "alloc h a" and "val_ok h k v"
  shows "hconf (put_heap a k v h)"
proof -
  have "val_ok (put_heap a k v h) j w" if "val_ok h j w" for j w
    using that by (rule val_ok_mono) simp
  with assms show ?thesis by (auto simp: hconf_def)
qed

lemma hext_put_heap: "alloc h a \<Longrightarrow> k \<notin> link_keys \<or> fld h a k = None \<Longrightarrow> hext h (put_heap a k v h)"
  by (auto simp: hext_def)

lemma hconf_new_heap: assumes "hconf h" shows "hconf (new_heap h)"
proof -
  have "val_ok (new_heap h) j w" if "val_ok h j w" for j w
    using that by (rule val_ok_mono) simp
  with assms hconf_fresh [OF assms] show ?thesis by (auto simp: hconf_def intro: less_SucI)
qed

lemma hext_new_heap: "hconf h \<Longrightarrow> hext h (new_heap h)"
  by (simp add: hext_def hconf_fresh)

lemma hconf_val: "hconf h \<Longrightarrow> fld h a k = Some v \<Longrightarrow> val_ok h k v"
  by (simp add: hconf_def)

lemma wb_conf_mono:
  assumes "hext h h'" and "wb_conf h wb"
  shows "wb_conf h' wb"
proof -
  have link: "fld h' a k = Some v" if "fld h a k = Some v" "k \<in> link_keys" for a k v
    using assms(1) that unfolding hext_def by metis
  have key: "fld h' a k \<noteq> None" if "fld h a k \<noteq> None" for a k
    using assms(1) that unfolding hext_def by (metis not_None_eq)
  have lists: "has_lists h' a k" if l: "has_lists h a k" "k \<in> link_keys" for a k
  proof -
    from l(1) obtain b where b: "fld h a k = Some (GMap b)" "fld h b ''parameters'' \<noteq> None"
      "fld h b ''artifacts'' \<noteq> None" by (auto simp: has_lists_def)
    show ?thesis
      unfolding has_lists_def using link [OF b(1) l(2)] key [OF b(2)] key [OF b(3)] by blast
  qed
  have "list_all (alloc h') (deleteTemplates wb)"
    using assms by (auto simp: wb_conf_def hext_def elim: list.pred_mono_strong)
  moreover obtain sp where "fld h (defaultContent wb) ''spec'' = Some (GMap sp)" "fld h sp ''templates'' \<noteq> None"
    using assms(2) by (auto simp: wb_conf_def)
  then have "fld h' (defaultContent wb) ''spec'' = Some (GMap sp)" "fld h' sp ''templates'' \<noteq> None"
    using link [of _ "''spec''"] key by (simp_all add: link_keys_def)
  ultimately show ?thesis
    using assms(2) lists key by (simp add: wb_conf_def link_keys_def)
qed

lemma hext_put: "hext h h' \<Longrightarrow> alloc h' a \<Longrightarrow> k \<notin> link_keys \<or> fld h a k = None \<Longrightarrow> hext h (put_heap a k v h')"
  by (auto simp: hext_def)

lemma hext_new: "hext h h' \<Longrightarrow> \<not> alloc h' (nxt h') \<Longrightarrow> hext h (new_heap h')"
  by (simp add: hext_def)

lemmas conf_rules = hconf_put_heap hconf_new_heap hext_put hext_new hconf_fresh

subsection \<open>What a builder finds\<close>

lemma typed_spec:
  assumes "hconf h" and "wb_conf h wb"
  obtains sp ts where "fld h (defaultContent wb) ''spec'' = Some (GMap sp)"
    and "fld h sp ''templates'' = Some (GMaps ts)" and "list_all (alloc h) ts"
proof -
  from assms(2) obtain sp v where "fld h (defaultContent wb) ''spec'' = Some (GMap sp)"
    and v: "fld h sp ''templates'' = Some v"
    by (auto simp: wb_conf_def)
  moreover have "val_ok h ''templates'' v" using assms(1) v by (rule hconf_val)
  ultimately show thesis using that by (auto simp: val_ok_def link_keys_def)
qed

lemma typed_steps:
  assumes "hconf h" and "wb_conf h wb"
  obtains r rs where "fld h (defaultEntryTemplate wb) ''steps'' = Some (GMapss (r # rs))"
    and "list_all (list_all (alloc h)) (r # rs)"
proof -
  from assms(2) obtain v where v: "fld h (defaultEntryTemplate wb) ''steps'' = Some v"
    by (auto simp: wb_conf_def)
  have "val_ok h ''steps'' v" using assms(1) v by (rule hconf_val)
  with v show thesis using that by (auto simp: val_ok_def link_keys_def)
qed

lemma typed_artifacts:
  assumes "hconf h" and "wb_conf h wb"
  obtains b as where "fld h (defaultSubmitTemplate wb) ''inputs'' = Some (GMap b)"
    and "fld h b ''artifacts'' = Some (GMaps as)" and "list_all (alloc h) as"
proof -
  from assms(2) obtain b v where "fld h (defaultSubmitTemplate wb) ''inputs'' = Some (GMap b)"
    and v: "fld h b ''artifacts'' = Some v"
    by (auto simp: wb_conf_def has_lists_def)
  moreover have "val_ok h ''artifacts'' v" using assms(1) v by (rule hconf_val)
  ultimately show thesis using that by (auto simp: val_ok_def link_keys_def)
qed

lemma hconf_above: "hconf h \<Longrightarrow> nxt h \<le> a \<Longrightarrow> \<not> alloc h a"
  unfolding hconf_def by (meson leD)

lemma new_artifact_returns:
  assumes "hconf (wb_heap s)"
  shows "returns (new_artifact d) s (\<lambda>x s'. \<exists>r. x = nxt (wb_heap s) \<and> r = Suc x \<and>
      doDelete s' = doDelete s \<and> hconf (wb_heap s') \<and> hext (wb_heap s) (wb_heap s') \<and>
      alloc (wb_heap s') x \<and> fld (wb_heap s') x ''raw'' = Some (GMap r) \<and>
      fld (wb_heap s') r ''data'' = Some (GStr d) \<and>
      (\<forall>a k. alloc (wb_heap s) a \<longrightarrow> fld (wb_heap s') a k = fld (wb_heap s) a k))"
proof -
  let ?n = "nxt (wb_heap s)"
  have f: "\<not> alloc (wb_heap s) ?n" "\<not> alloc (wb_heap s) (Suc ?n)" "fld (wb_heap s) ?n k = None"
      "fld (wb_heap s) (Suc ?n) k = None" for k
    using hconf_above [OF assms] fld_not_alloc by auto
  show ?thesis
    using assms f by (auto simp: new_artifact_def conf_rules val_ok_def link_keys_def)
qed

subsection \<open>The methods keep the types\<close>

text \<open>
  \<open>wb_keeps s s'\<close>: the heap reached conforms and extends the earlier one, so what every
  builder finds in its maps is still there.
\<close>

definition wb_keeps :: "wb_state \<Rightarrow> wb_state \<Rightarrow> bool" where
  "wb_keeps s s' \<longleftrightarrow> hconf (wb_heap s') \<and> hext (wb_heap s) (wb_heap s')"

lemma wb_keeps_conf: "wb_keeps s s' \<Longrightarrow> wb_conf (wb_heap s) wb \<Longrightarrow> wb_conf (wb_heap s') wb"
  unfolding wb_keeps_def using wb_conf_mono by blast

lemma list_all_alloc_mono:
  assumes "hext h h'"
  shows "list_all (alloc h) as \<Longrightarrow> list_all (alloc h') as"
    and "list_all (list_all (alloc h)) rs \<Longrightarrow> list_all (list_all (alloc h')) rs"
proof -
  have *: "list_all (alloc h') as" if "list_all (alloc h) as" for as
    using that assms by (auto simp: hext_def elim: list.pred_mono_strong)
  show "list_all (alloc h) as \<Longrightarrow> list_all (alloc h') as" by (rule *)
  show "list_all (list_all (alloc h)) rs \<Longrightarrow> list_all (list_all (alloc h')) rs"
    using * by (auto elim: list.pred_mono_strong)
qed

lemma exI2: "P x y \<Longrightarrow> \<exists>x y. P x y"
  by blast

lemma Resources_returns:
  assumes ok: "hconf (wb_heap s)" "wb_conf (wb_heap s) wb"
    and i: "fld (wb_heap s) (defaultSubmitTemplate wb) ''inputs'' = Some (GMap b)"
    and a: "fld (wb_heap s) b ''artifacts'' = Some (GMaps as)"
    and st: "fld (wb_heap s) (defaultEntryTemplate wb) ''steps'' = Some (GMapss (r # rs))"
  shows "returns (builder_Resources res wb) s (\<lambda>wb' s'. \<exists>x y. wb' = wb \<and> wb_keeps s s' \<and>
      doDelete s' = doDelete s \<and> \<not> alloc (wb_heap s) x \<and> fld (wb_heap s') x ''raw'' = Some (GMap y) \<and>
      fld (wb_heap s') y ''data'' = Some (GStr (artifact_data res)) \<and>
      (\<forall>c k. alloc (wb_heap s) c \<longrightarrow> fld (wb_heap s') c k =
        (if c = defaultEntryTemplate wb \<and> k = ''steps'' then Some (GMapss ((r @ [defaultSubmitStep wb]) # rs))
         else if c = b \<and> k = ''artifacts'' then Some (GMaps (as @ [x]))
         else fld (wb_heap s) c k)))" (is "returns _ _ ?Q")
  unfolding builder_Resources_def returns_gbind
proof (rule returns_mono [OF new_artifact_returns [OF ok(1)]], elim exE conjE)
  fix x y :: addr and t :: wb_state
  assume new: "x = nxt (wb_heap s)" "y = Suc x" "doDelete t = doDelete s" "hconf (wb_heap t)"
    "hext (wb_heap s) (wb_heap t)" "alloc (wb_heap t) x" "fld (wb_heap t) x ''raw'' = Some (GMap y)"
    "fld (wb_heap t) y ''data'' = Some (GStr (artifact_data res))"
    "\<forall>a k. alloc (wb_heap s) a \<longrightarrow> fld (wb_heap t) a k = fld (wb_heap s) a k"
  have fresh: "\<not> alloc (wb_heap s) x" "\<not> alloc (wb_heap s) y"
    using hconf_above [OF ok(1)] new(1,2) by simp_all
  have al: "alloc (wb_heap s) (defaultSubmitTemplate wb)" "alloc (wb_heap s) b"
    "alloc (wb_heap s) (defaultEntryTemplate wb)" "alloc (wb_heap s) (defaultSubmitStep wb)"
    using i a st ok(2) fld_alloc by (auto simp: wb_conf_def has_lists_def)
  have al': "alloc (wb_heap t) b" "alloc (wb_heap t) (defaultEntryTemplate wb)"
     "alloc (wb_heap t) (defaultSubmitStep wb)"
    using al new(5) by (auto simp: hext_def)
  have ne: "defaultEntryTemplate wb \<noteq> x" "defaultEntryTemplate wb \<noteq> y" "b \<noteq> x" "b \<noteq> y"
    using fresh al by auto
  have lists: "list_all (alloc (wb_heap t)) as" "list_all (list_all (alloc (wb_heap t))) (r # rs)"
    using list_all_alloc_mono [OF new(5)] hconf_val [OF ok(1) a] hconf_val [OF ok(1) st]
    by (auto simp: val_ok_def link_keys_def)
  show "returns (sub_map (defaultSubmitTemplate wb) ''inputs'') t (\<lambda>inputs s'.
      returns (append_maps inputs ''artifacts'' [x]) s' (\<lambda>_ s'.
      returns (push_step (defaultEntryTemplate wb) (defaultSubmitStep wb)) s' (\<lambda>_ s'.
      returns (gret wb) s' ?Q)))"
    using i a st al al' new(3-9) ne fresh lists
    by (auto simp: wb_keeps_def conf_rules val_ok_def link_keys_def intro!: exI2 [of _ x y])
qed

lemma Delete_returns [simp]: "builder_Delete wb s = (Ret wb, s\<lparr>doDelete := True\<rparr>)"
  by (simp add: builder_Delete_def gom_defs)

lemma set_kind_step:
  fixes g v k :: string
  assumes "set_kind_law B" and "hconf h" and "alloc h ob"
  defines "h' \<equiv> o_SetGroupVersionKind B g v k ob h"
  shows "hconf h'" "hext h h'" "alloc h' = alloc h"
    "\<And>a j. fld h' a j = (if a = ob \<and> j = ''apiVersion'' then Some (GStr (g @ ''/'' @ v))
       else if a = ob \<and> j = ''kind'' then Some (GStr k) else fld h a j)"
proof -
  have law: "nxt h' = nxt h" "\<And>a. alloc h' a = alloc h a"
    "\<And>a j. fld h' a j = (if a = ob \<and> j = ''apiVersion'' then Some (GStr (g @ ''/'' @ v))
       else if a = ob \<and> j = ''kind'' then Some (GStr k) else fld h a j)"
    using assms(1) [unfolded set_kind_law_def Let_def, rule_format, OF assms(3), of g v k, folded h'_def]
    by blast+
  show "alloc h' = alloc h" using law(2) by blast
  show "\<And>a j. fld h' a j = (if a = ob \<and> j = ''apiVersion'' then Some (GStr (g @ ''/'' @ v))
       else if a = ob \<and> j = ''kind'' then Some (GStr k) else fld h a j)" by (rule law(3))
  have "val_ok h' j w \<longleftrightarrow> val_ok h j w" for j w
    by (simp add: val_ok_def \<open>alloc h' = alloc h\<close>)
  then show "hconf h'"
    using assms(2) law by (auto simp: hconf_def val_ok_meta split: if_splits)
  show "hext h h'" using law by (auto simp: hext_def link_keys_def)
qed

text \<open>The metadata map is made.\<close>

lemma set_name_fresh:
  assumes ok: "hconf h" and "alloc h ob" and "fld h ob ''metadata'' = None"
    and b: "\<not> alloc h b" "b < nxt h'" "nxt h \<le> nxt h'" "\<forall>a. alloc h' a \<longleftrightarrow> a = b \<or> alloc h a"
    "\<forall>a j. fld h' a j = (if a = b then (if j = ''generateName'' then Some (GStr n) else None)
       else if a = ob \<and> j = ''metadata'' then Some (GMap b) else fld h a j)"
  shows "hconf h'" and "hext h h'"
proof -
  have vm: "val_ok h' j w" if "val_ok h j w" for j w
    using that by (rule val_ok_mono) (simp add: b)
  have vmd: "val_ok h' ''metadata'' (GMap b)" using b(4) by (simp add: val_ok_def)
  show "hconf h'"
    unfolding hconf_def
  proof (intro conjI allI impI)
    fix a assume "alloc h' a"
    then show "a < nxt h'" using b ok unfolding hconf_def by fastforce
  next
    fix a j w assume "fld h' a j = Some w"
    then show "val_ok h' j w"
      unfolding b(5) [rule_format]
      using vmd vm [OF hconf_val [OF ok, of a]] val_ok_meta(3) [of h' n] by (force split: if_split_asm)
  qed
  have "fld h' a k = Some v" if "fld h a k = Some v" for a k v
  proof -
    have "a \<noteq> b" using fld_alloc [OF that] b(1) by metis
    moreover have "\<not> (a = ob \<and> k = ''metadata'')" using that assms(3) by auto
    ultimately show ?thesis using b(5) that by auto
  qed
  then show "hext h h'" using b(4) by (simp add: hext_def)
qed

text \<open>The metadata map is there already.\<close>

lemma set_name_present:
  assumes ok: "hconf h" and "nxt h' = nxt h" and "\<forall>a. alloc h' a \<longleftrightarrow> alloc h a"
    and "\<forall>a j. fld h' a j = (if a = b \<and> j = ''generateName'' then Some (GStr n) else fld h a j)"
  shows "hconf h'" and "hext h h'"
proof -
  have al: "alloc h' = alloc h" using assms(3) by blast
  have "val_ok h' j w \<longleftrightarrow> val_ok h j w" for j w by (simp add: val_ok_def al)
  then show "hconf h'" using assms by (auto simp: hconf_def val_ok_meta split: if_splits)
  show "hext h h'" using assms by (auto simp: hext_def link_keys_def)
qed

lemma set_name_step:
  fixes n :: string
  assumes "set_name_law B" and ok: "hconf h" and "alloc h ob" and "n \<noteq> []"
  defines "h' \<equiv> o_SetGenerateName B n ob h"
  shows "\<exists>b. hconf h' \<and> hext h h' \<and> fld h' ob ''metadata'' = Some (GMap b) \<and>
    fld h' b ''generateName'' = Some (GStr n) \<and>
    (\<forall>a j. alloc h a \<longrightarrow> j \<notin> {''metadata'', ''generateName''} \<longrightarrow> fld h' a j = fld h a j)"
proof -
  have lim: "\<forall>a. alloc h a \<longrightarrow> a < nxt h" using ok by (simp add: hconf_def)
  note law = assms(1) [unfolded set_name_law_def Let_def, rule_format, OF assms(4,3) lim [rule_format],
    folded h'_def]
  show ?thesis
  proof (cases "fld h ob ''metadata''")
    case None
    then obtain b where b: "\<not> alloc h b" "b < nxt h'" "nxt h \<le> nxt h'"
      "\<forall>a. alloc h' a \<longleftrightarrow> a = b \<or> alloc h a"
      "\<forall>a j. fld h' a j = (if a = b then (if j = ''generateName'' then Some (GStr n) else None)
         else if a = ob \<and> j = ''metadata'' then Some (GMap b) else fld h a j)"
      using law None by blast
    have "ob \<noteq> b" using b(1) assms(3) by auto
    moreover have "fld h' a j = fld h a j" if "alloc h a" "j \<noteq> ''metadata''" for a j
    proof -
      have "a \<noteq> b" using that(1) b(1) by metis
      then show ?thesis using b(5) that(2) by simp
    qed
    ultimately show ?thesis
      using b(5) set_name_fresh [OF ok assms(3) None b] by (intro exI [of _ b]) simp
  next
    case (Some v)
    then obtain b where v: "v = GMap b" "alloc h b"
      using hconf_val [OF ok Some] by (auto simp: val_ok_def link_keys_def)
    have same: "nxt h' = nxt h" "\<forall>a. alloc h' a \<longleftrightarrow> alloc h a"
      "\<forall>a j. fld h' a j = (if a = b \<and> j = ''generateName'' then Some (GStr n) else fld h a j)"
      using law Some v by blast+
    show ?thesis using set_name_present [OF ok same] same Some v by (intro exI [of _ b]) auto
  qed
qed

definition build_templates :: "bool \<Rightarrow> workflowBuilder \<Rightarrow> addr list" where
  "build_templates del wb =
     (if del then deleteTemplates wb else [defaultEntryTemplate wb, defaultSubmitTemplate wb])"

definition meta_keys :: "string set" where
  "meta_keys = {''apiVersion'', ''kind'', ''metadata'', ''generateName''}"

lemma Build_returns:
  assumes law: "object_law B" and ok: "hconf (wb_heap s)" "wb_conf (wb_heap s) wb"
    and sp: "fld (wb_heap s) (defaultContent wb) ''spec'' = Some (GMap sp)"
    and ts: "fld (wb_heap s) sp ''templates'' = Some (GMaps ts)"
  shows "returns (builder_Build B wb) s (\<lambda>ob s'. \<exists>md. ob = defaultContent wb \<and> wb_keeps s s' \<and>
      doDelete s' = doDelete s \<and>
      fld (wb_heap s') ob ''kind'' = Some (GStr ''Workflow'') \<and>
      fld (wb_heap s') ob ''apiVersion'' = Some (GStr ''argoproj.io/v1alpha1'') \<and>
      fld (wb_heap s') ob ''metadata'' = Some (GMap md) \<and>
      fld (wb_heap s') md ''generateName'' = Some (GStr ''-'') \<and>
      (\<forall>c k. alloc (wb_heap s) c \<longrightarrow> k \<notin> meta_keys \<longrightarrow> fld (wb_heap s') c k =
        (if c = sp \<and> k = ''templates'' then Some (GMaps (ts @ build_templates (doDelete s) wb))
         else fld (wb_heap s) c k)))"
proof -
  let ?new = "build_templates (doDelete s) wb"
  let ?h1 = "put_heap sp ''templates'' (GMaps (ts @ ?new)) (wb_heap s)"
  let ?h2 = "o_SetGroupVersionKind B ''argoproj.io'' ''v1alpha1'' ''Workflow'' (defaultContent wb) ?h1"
  let ?h3 = "o_SetGenerateName B ''-'' (defaultContent wb) ?h2"
  have al: "alloc (wb_heap s) sp" "alloc (wb_heap s) (defaultContent wb)"
    using sp ts by (auto dest: fld_alloc)
  obtain d0 d1 where d: "deleteTemplates wb = [d0, d1]"
    using ok(2) by (auto simp: wb_conf_def length_Suc_conv numeral_2_eq_2)
  have "alloc (wb_heap s) (defaultEntryTemplate wb)" "alloc (wb_heap s) (defaultSubmitTemplate wb)"
    using ok(2) by (auto simp: wb_conf_def has_lists_def dest: fld_alloc)
  moreover have "list_all (alloc (wb_heap s)) ts"
    using hconf_val [OF ok(1) ts] by (simp add: val_ok_def link_keys_def)
  ultimately have "val_ok (wb_heap s) ''templates'' (GMaps (ts @ ?new))"
    using ok(2) by (simp add: val_ok_def link_keys_def wb_conf_def build_templates_def)
  then have 1: "hconf ?h1" "hext (wb_heap s) ?h1"
    using ok(1) al(1) by (simp_all add: conf_rules link_keys_def)
  have kl: "set_kind_law B" and nl: "set_name_law B" using law by (simp_all add: object_law_def)
  have al1: "alloc ?h1 (defaultContent wb)" using al by simp
  note 2 = set_kind_step [OF kl 1(1) al1, of "''argoproj.io''" "''v1alpha1''" "''Workflow''"]
  have al2: "alloc ?h2 (defaultContent wb)" using al by (simp add: 2(3))
  obtain md where 3: "hconf ?h3" "hext ?h2 ?h3" "fld ?h3 (defaultContent wb) ''metadata'' = Some (GMap md)"
    "fld ?h3 md ''generateName'' = Some (GStr ''-'')"
    "\<forall>a j. alloc ?h2 a \<longrightarrow> j \<notin> {''metadata'', ''generateName''} \<longrightarrow> fld ?h3 a j = fld ?h2 a j"
    using set_name_step [OF nl 2(1) al2, of "''-''"] by auto
  have "wb_keeps s (s\<lparr>wb_heap := ?h3\<rparr>)"
    using 3(1) hext_trans [OF 1(2) hext_trans [OF 2(2) 3(2)]] by (simp add: wb_keeps_def)
  moreover have "fld ?h3 c k = (if c = sp \<and> k = ''templates'' then Some (GMaps (ts @ ?new)) else fld (wb_heap s) c k)"
    if "alloc (wb_heap s) c" "k \<notin> meta_keys" for c k
    using that 3(5) al(1) by (auto simp: 2(3,4) meta_keys_def)
  moreover have "fld ?h3 (defaultContent wb) ''kind'' = Some (GStr ''Workflow'')"
    "fld ?h3 (defaultContent wb) ''apiVersion'' = Some (GStr ''argoproj.io/v1alpha1'')"
    using 3(5) al by (simp_all add: 2(3,4))
  moreover have "returns (builder_Build B wb) s Q \<longleftrightarrow> Q (defaultContent wb) (s\<lparr>wb_heap := ?h3\<rparr>)" for Q
    using sp ts d by (cases "doDelete s") (simp_all add: builder_Build_def build_templates_def)
  ultimately show ?thesis using 3(3,4) by (simp del: fld_put_heap)
qed

subsection \<open>A new builder\<close>

definition new_builder :: "addr \<Rightarrow> workflowBuilder" where
  "new_builder n = \<lparr>defaultContent = n, defaultEntryTemplate = n + 5, defaultSubmitStep = n + 6,
     defaultSubmitTemplate = n + 3, deleteTemplates = [n + 8, n + 10],
     workflowName = [], workflowNamespace = []\<rparr>"

definition new_objs :: "addr \<Rightarrow> (addr \<times> gval gomap) list" where
  "new_objs n =
    [(n, [(''spec'', GMap (n + 1))]),
     (n + 1, [(''entrypoint'', GStr ''entry''),
        (''serviceAccountName'', GStr ''addon-manager-workflow-installer-sa''), (''templates'', GMaps [])]),
     (n + 2, [(''image'', GStr defaultSubmitContainerImage), (''command'', GStrs [''sh'', ''-c'']),
        (''args'', GStrs [''kubectl apply -f /tmp/doc''])]),
     (n + 3, [(''name'', GStr ''submit''), (''inputs'', GMap (n + 4)), (''container'', GMap (n + 2))]),
     (n + 4, [(''parameters'', GMaps []), (''artifacts'', GMaps [])]),
     (n + 5, [(''name'', GStr ''entry''), (''steps'', GMapss [[]])]),
     (n + 6, [(''name'', GStr ''install''), (''arguments'', GMap (n + 7)), (''template'', GStr ''submit'')]),
     (n + 7, [(''parameters'', GMaps []), (''artifacts'', GMaps [])]),
     (n + 8, [(''name'', GStr ''delete-wf''), (''steps'', GMapss [[n + 9]])]),
     (n + 9, [(''name'', GStr ''delete-ns''), (''template'', GStr ''delete-ns'')]),
     (n + 10, [(''name'', GStr ''delete-ns''), (''container'', GMap (n + 11))]),
     (n + 11, [(''image'', GStr defaultSubmitContainerImage), (''command'', GStrs [''sh'', ''-c'']),
        (''args'', GStrs [''kubectl delete all -n {{workflow.parameters.namespace}} --all''])])]"

definition with_builder :: "go_heap \<Rightarrow> go_heap" where
  "with_builder h = h\<lparr>objs := objs h ++ map_of (new_objs (nxt h)), nxt := nxt h + 12\<rparr>"

lemmas new_defs = new_content_def new_container_def new_lists_def new_submit_template_def
  new_entry_template_def new_submit_step_def new_delete_templates_def builder_New_def

lemma builder_New_eq:
  "builder_New s = (Ret (new_builder (nxt (wb_heap s))), s\<lparr>wb_heap := with_builder (wb_heap s)\<rparr>)"
  by (simp add: new_defs builder_ops as_map_def as_mapss_def put_heap_def fld_def gom_defs Let_def
      new_builder_def with_builder_def new_objs_def map_add_def fun_eq_iff eval_nat_numeral)

lemma fld_with_builder:
  "fld (with_builder h) a k =
     (case map_of (new_objs (nxt h)) a of Some m \<Rightarrow> map_of m k | None \<Rightarrow> fld h a k)"
  by (auto simp: fld_def with_builder_def map_add_def split: option.split)

lemma alloc_with_builder: "alloc (with_builder h) a \<longleftrightarrow> alloc h a \<or> (nxt h \<le> a \<and> a < nxt h + 12)"
proof -
  have "nxt h \<le> a \<and> a < nxt h + 12 \<longleftrightarrow> a \<in> set (map fst (new_objs (nxt h)))"
    by (simp add: new_objs_def) presburger
  moreover have "a \<in> set (map fst (new_objs (nxt h))) \<longleftrightarrow> map_of (new_objs (nxt h)) a \<noteq> None"
    by (simp add: map_of_eq_None_iff)
  ultimately show ?thesis by (auto simp: alloc_def with_builder_def map_add_def split: option.split)
qed

lemma nxt_with_builder [simp]: "nxt (with_builder h) = nxt h + 12"
  by (simp add: with_builder_def)

lemma New_conf:
  assumes "hconf h"
  shows "hconf (with_builder h)" "hext h (with_builder h)"
    "wb_conf (with_builder h) (new_builder (nxt h))"
proof -
  let ?h = "with_builder h"
  have new: "list_all (\<lambda>(a, m). list_all (\<lambda>(k, v). val_ok ?h k v) m) (new_objs (nxt h))"
    by (simp add: new_objs_def val_ok_def link_keys_def alloc_with_builder)
  have old: "fld ?h a k = fld h a k" if "alloc h a" for a k
  proof -
    have "a < nxt h" using that assms by (simp add: hconf_def)
    then have "map_of (new_objs (nxt h)) a = None" by (simp add: new_objs_def)
    then show ?thesis by (simp add: fld_with_builder)
  qed
  show "hconf ?h"
    unfolding hconf_def
  proof (intro conjI allI impI)
    fix a assume "alloc ?h a"
    then show "a < nxt ?h" using assms by (auto simp: alloc_with_builder hconf_def intro: trans_less_add1)
  next
    fix a k v assume v: "fld ?h a k = Some v"
    show "val_ok ?h k v"
    proof (cases "map_of (new_objs (nxt h)) a")
      case (Some m)
      with v have "(a, m) \<in> set (new_objs (nxt h))" "(k, v) \<in> set m"
        by (auto simp: fld_with_builder dest: map_of_SomeD)
      with new show ?thesis by (fastforce simp: list_all_iff)
    next
      case None
      with v assms have "val_ok h k v" by (simp add: fld_with_builder hconf_def)
      then show ?thesis by (rule val_ok_mono) (simp add: alloc_with_builder)
    qed
  qed
  show "hext h ?h"
    using old [OF fld_alloc] by (simp add: hext_def alloc_with_builder)
  show "wb_conf ?h (new_builder (nxt h))"
    by (simp add: wb_conf_def new_builder_def has_lists_def fld_with_builder alloc_with_builder)
      (simp add: new_objs_def)
qed

section \<open>Programs that use builders\<close>

text \<open>
  The states that a program reaches which starts with nothing, makes builders and calls their
  methods in any order; \<open>bs\<close> are the builders made so far.
\<close>

definition wb_start :: wb_state where
  "wb_start = \<lparr>wb_heap = \<lparr>objs = Map.empty, nxt = 0\<rparr>, doDelete = False\<rparr>"

inductive wb_reach :: "object_lib \<Rightarrow> workflowBuilder list \<Rightarrow> wb_state \<Rightarrow> bool" for B where
  reach_start: "wb_reach B [] wb_start"
| reach_New: "wb_reach B bs s \<Longrightarrow> builder_New s = (Ret wb, s') \<Longrightarrow> wb_reach B (wb # bs) s'"
| reach_Resources: "wb_reach B bs s \<Longrightarrow> wb \<in> set bs \<Longrightarrow> builder_Resources res wb s = (Ret wb', s') \<Longrightarrow>
    wb_reach B bs s'"
| reach_Delete: "wb_reach B bs s \<Longrightarrow> wb \<in> set bs \<Longrightarrow> builder_Delete wb s = (Ret wb', s') \<Longrightarrow>
    wb_reach B bs s'"
| reach_Build: "wb_reach B bs s \<Longrightarrow> wb \<in> set bs \<Longrightarrow> builder_Build B wb s = (Ret ob, s') \<Longrightarrow>
    wb_reach B bs s'"

lemma Resources_ok:
  assumes "hconf (wb_heap s)" and "wb_conf (wb_heap s) wb"
  shows "returns (builder_Resources res wb) s (\<lambda>wb' s'. wb' = wb \<and> wb_keeps s s' \<and> doDelete s' = doDelete s)"
proof -
  obtain b as where ba: "fld (wb_heap s) (defaultSubmitTemplate wb) ''inputs'' = Some (GMap b)"
    "fld (wb_heap s) b ''artifacts'' = Some (GMaps as)"
    by (rule typed_artifacts [OF assms])
  obtain r rs where st: "fld (wb_heap s) (defaultEntryTemplate wb) ''steps'' = Some (GMapss (r # rs))"
    by (rule typed_steps [OF assms])
  show ?thesis by (rule returns_mono [OF Resources_returns [OF assms ba st]]) blast
qed

lemma Build_ok:
  assumes "object_law B" and "hconf (wb_heap s)" and "wb_conf (wb_heap s) wb"
  shows "returns (builder_Build B wb) s
    (\<lambda>ob s'. ob = defaultContent wb \<and> wb_keeps s s' \<and> doDelete s' = doDelete s)"
proof -
  obtain sp ts where st: "fld (wb_heap s) (defaultContent wb) ''spec'' = Some (GMap sp)"
    "fld (wb_heap s) sp ''templates'' = Some (GMaps ts)"
    by (rule typed_spec [OF assms(2,3)])
  show ?thesis by (rule returns_mono [OF Build_returns [OF assms st]]) blast
qed

lemma wb_reach_conf:
  assumes "object_law B" and "wb_reach B bs s"
  shows "hconf (wb_heap s) \<and> (\<forall>wb \<in> set bs. wb_conf (wb_heap s) wb)"
  using assms(2)
proof (induction rule: wb_reach.induct)
  case reach_start
  then show ?case by (simp add: wb_start_def hconf_def alloc_def fld_def)
next
  case (reach_New bs s wb s')
  then show ?case using New_conf [of "wb_heap s"] wb_conf_mono by (auto simp: builder_New_eq)
next
  case (reach_Resources bs s wb res wb' s')
  then have "wb_keeps s s'" using Resources_ok [of s wb res] by (simp add: returns_Ret)
  then show ?case using reach_Resources.IH wb_keeps_conf by (auto simp: wb_keeps_def)
next
  case (reach_Delete bs s wb wb' s')
  then show ?case by auto
next
  case (reach_Build bs s wb ob s')
  then have "wb_keeps s s'" using Build_ok [OF assms(1), of s wb] by (simp add: returns_Ret)
  then show ?case using reach_Build.IH wb_keeps_conf by (auto simp: wb_keeps_def)
qed

text \<open>An object library that satisfies the laws, for the witnesses.\<close>

definition heap_set_kind :: "string \<Rightarrow> string \<Rightarrow> string \<Rightarrow> addr \<Rightarrow> go_heap \<Rightarrow> go_heap" where
  "heap_set_kind g v k ob h =
     put_heap ob ''kind'' (GStr k) (put_heap ob ''apiVersion'' (GStr (g @ ''/'' @ v)) h)"

definition heap_set_name :: "string \<Rightarrow> addr \<Rightarrow> go_heap \<Rightarrow> go_heap" where
  "heap_set_name n ob h = (case fld h ob ''metadata'' of
     Some (GMap b) \<Rightarrow> put_heap b ''generateName'' (GStr n) h
   | _ \<Rightarrow> put_heap (nxt h) ''generateName'' (GStr n) (put_heap ob ''metadata'' (GMap (nxt h)) (new_heap h)))"

definition heap_objects :: object_lib where
  "heap_objects = \<lparr>o_SetGroupVersionKind = heap_set_kind, o_SetGenerateName = heap_set_name\<rparr>"

lemma heap_objects_law: "object_law heap_objects"
proof -
  have "set_kind_law heap_objects"
    by (auto simp: set_kind_law_def heap_objects_def heap_set_kind_def Let_def)
  moreover have "set_name_law heap_objects"
    unfolding set_name_law_def Let_def
  proof (intro allI impI conjI)
    fix n :: string and ob h
    assume h: "alloc h ob" "\<forall>a. alloc h a \<longrightarrow> a < nxt h" and none: "fld h ob ''metadata'' = None"
    have fresh: "\<not> alloc h (nxt h)" "ob \<noteq> nxt h" using h by auto
    let ?h = "o_SetGenerateName heap_objects n ob h"
    have eq: "?h = put_heap (nxt h) ''generateName'' (GStr n) (put_heap ob ''metadata'' (GMap (nxt h)) (new_heap h))"
      by (simp add: heap_objects_def heap_set_name_def none)
    show "\<exists>b. \<not> alloc h b \<and> b < nxt ?h \<and> nxt h \<le> nxt ?h \<and> (\<forall>a. alloc ?h a \<longleftrightarrow> a = b \<or> alloc h a) \<and>
        (\<forall>a j. fld ?h a j = (if a = b then (if j = ''generateName'' then Some (GStr n) else None)
           else if a = ob \<and> j = ''metadata'' then Some (GMap b) else fld h a j))"
      using fresh h(1) fld_not_alloc [OF fresh(1)] by (intro exI [of _ "nxt h"]) (simp add: eq)
  qed (simp_all add: heap_objects_def heap_set_name_def)
  ultimately show ?thesis by (simp add: object_law_def)
qed

lemma one_builder: "wb_reach B [new_builder 0] (wb_start\<lparr>wb_heap := with_builder (wb_heap wb_start)\<rparr>)"
  by (rule reach_New [OF reach_start]) (simp add: builder_New_eq wb_start_def)

text \<open>
  C31: The builder is type safe. In every state that a program reaches by making builders and
  calling their methods in any order, each of \<open>New\<close>, \<open>Resources\<close>, \<open>Delete\<close> and \<open>Build\<close> returns:
  no type assertion, index or nil map of theirs panics, and every map keeps, key by key, the
  dynamic types that the assertions expect.
\<close>

theorem builder_type_safe:
  assumes "object_law B" and "wb_reach B bs s" and "wb \<in> set bs"
  shows "hconf (wb_heap s) \<and> wb_conf (wb_heap s) wb \<and>
    returns builder_New s (\<lambda>wb' s'. wb_reach B (wb' # bs) s') \<and>
    returns (builder_Resources res wb) s (\<lambda>wb' s'. wb' = wb \<and> wb_reach B bs s') \<and>
    returns (builder_Delete wb) s (\<lambda>wb' s'. wb' = wb \<and> wb_reach B bs s') \<and>
    returns (builder_Build B wb) s (\<lambda>ob s'. ob = defaultContent wb \<and> wb_reach B bs s')"
proof -
  have ok: "hconf (wb_heap s)" "wb_conf (wb_heap s) wb"
    using wb_reach_conf [OF assms(1,2)] assms(3) by auto
  have "wb_reach B (new_builder (nxt (wb_heap s)) # bs) (s\<lparr>wb_heap := with_builder (wb_heap s)\<rparr>)"
    using reach_New [OF assms(2) builder_New_eq] .
  moreover have "wb_reach B bs (s\<lparr>doDelete := True\<rparr>)"
    using reach_Delete [OF assms(2,3) Delete_returns] .
  moreover obtain s1 where "builder_Resources res wb s = (Ret wb, s1)"
    using Resources_ok [OF ok, of res] by (auto elim: returnsE)
  moreover obtain s2 where "builder_Build B wb s = (Ret (defaultContent wb), s2)"
    using Build_ok [OF assms(1) ok] by (auto elim: returnsE)
  ultimately show ?thesis
    using ok reach_Resources [OF assms(2,3)] reach_Build [OF assms(2,3)]
    by (simp add: builder_New_eq returns_Ret)
qed

theorem builder_type_safe_witness:
  "returns (builder_Build heap_objects (new_builder 0)) (wb_start\<lparr>wb_heap := with_builder (wb_heap wb_start)\<rparr>)
     (\<lambda>ob s'. ob = 0 \<and> wb_reach heap_objects [new_builder 0] s')"
proof -
  have "defaultContent (new_builder 0) = 0" by (simp add: new_builder_def)
  then show ?thesis
    using builder_type_safe [OF heap_objects_law one_builder, of "new_builder 0"] by simp
qed

section \<open>Scripts\<close>

lemma new_script_keeps:
  assumes "hconf (wb_heap s)"
  shows "returns (new_script n d) s (\<lambda>x s'. wb_keeps s s' \<and> doDelete s' = doDelete s)"
proof -
  let ?n = "nxt (wb_heap s)"
  have f: "\<not> alloc (wb_heap s) ?n" "\<not> alloc (wb_heap s) (Suc ?n)" "fld (wb_heap s) ?n k = None"
      "fld (wb_heap s) (Suc ?n) k = None" for k
    using hconf_above [OF assms] fld_not_alloc by auto
  show ?thesis
    using assms f by (auto simp: new_script_def wb_keeps_def conf_rules val_ok_def link_keys_def)
qed

lemma new_step_keeps:
  assumes "hconf (wb_heap s)"
  shows "returns (new_pair n ''template'' t) s (\<lambda>x s'. wb_keeps s s' \<and> doDelete s' = doDelete s)"
proof -
  have f: "\<not> alloc (wb_heap s) (nxt (wb_heap s))" "fld (wb_heap s) (nxt (wb_heap s)) k = None" for k
    using hconf_above [OF assms] fld_not_alloc by auto
  show ?thesis
    using assms f by (auto simp: new_pair_def wb_keeps_def conf_rules val_ok_def link_keys_def)
qed

definition scripts_panic :: string where
  "scripts_panic = conversion_panic (Some (GMaps [])) ''[]interface {}''"

lemma conversion_panic_maps: "conversion_panic (Some (GMaps as)) want = conversion_panic (Some (GMaps [])) want"
  by (simp add: conversion_panic_def)

lemma add_script_panics:
  assumes "hconf (wb_heap s)" and "wb_conf (wb_heap s) wb"
  shows "\<exists>s'. add_script wb (name, d) s = (Panic scripts_panic, s')"
proof -
  let ?n = "TrimSuffix name ''.py''"
  obtain x s1 where 1: "new_script ?n d s = (Ret x, s1)" "wb_keeps s s1"
    using new_script_keeps [OF assms(1)] by (blast elim: returnsE)
  then have "hconf (wb_heap s1)" by (simp add: wb_keeps_def)
  then obtain y s2 where 2: "new_pair ?n ''template'' ?n s1 = (Ret y, s2)" "wb_keeps s1 s2"
    using new_step_keeps by (blast elim: returnsE)
  then have "hconf (wb_heap s2)" "wb_conf (wb_heap s2) wb"
    using wb_keeps_conf [OF 2(2) wb_keeps_conf [OF 1(2) assms(2)]] by (simp_all add: wb_keeps_def)
  then obtain sp ts where "fld (wb_heap s2) (defaultContent wb) ''spec'' = Some (GMap sp)"
    "fld (wb_heap s2) sp ''templates'' = Some (GMaps ts)"
    by (rule typed_spec)
  then show ?thesis
    using 1(1) 2(1) conversion_panic_maps [of ts]
    by (simp add: add_script_def Let_def gbind_def sub_map_def map_at_def as_map_def as_anys_def scripts_panic_def)
qed

lemma Scripts_panics:
  assumes "hconf (wb_heap s)" and "wb_conf (wb_heap s) wb" and "rng_ok \<rho>" and "scripts \<noteq> []"
  shows "\<exists>s'. builder_Scripts \<rho> scripts wb s = (Panic scripts_panic, s')"
proof -
  have "gm_range \<rho> scripts \<noteq> []"
    using gm_range_keys [OF assms(3), of scripts] rng_ok_set [OF assms(3), of "map fst scripts"] assms(4)
    by (metis list.map_disc_iff set_empty)
  then obtain nd rest where r: "gm_range \<rho> scripts = nd # rest" by (cases "gm_range \<rho> scripts") auto
  obtain s' where "add_script wb nd s = (Panic scripts_panic, s')"
    using add_script_panics [OF assms(1,2)] by (cases nd) blast
  then show ?thesis by (simp add: builder_Scripts_def r gbind_def)
qed

lemma Scripts_empty [simp]: "builder_Scripts \<rho> [] wb s = (Ret wb, s)"
proof -
  have "gm_range \<rho> ([] :: string gomap) = []" by (simp add: gm_range_def List.map_filter_def)
  then show ?thesis by (simp add: builder_Scripts_def)
qed

text \<open>
  C35: Scripts cannot be used. \<open>Scripts\<close> asserts that the templates are \<^verbatim>\<open>[]interface{}\<close>, while
  \<open>New\<close> makes them \<^verbatim>\<open>[]map[string]interface{}\<close> and every method keeps that type. With any
  script at all the call therefore panics with that conversion, whatever the order in which
  the map is visited; it returns exactly when there is no script.
\<close>

theorem scripts_always_panic:
  assumes "object_law B" and "wb_reach B bs s" and "wb \<in> set bs" and "rng_ok \<rho>"
  shows "if scripts = [] then builder_Scripts \<rho> scripts wb s = (Ret wb, s)
    else \<exists>s'. builder_Scripts \<rho> scripts wb s =
      (Panic ''interface conversion: interface {} is []map[string]interface {}, not []interface {}'', s')"
proof -
  have "hconf (wb_heap s)" "wb_conf (wb_heap s) wb"
    using wb_reach_conf [OF assms(1,2)] assms(3) by auto
  moreover have
    "scripts_panic = ''interface conversion: interface {} is []map[string]interface {}, not []interface {}''"
    by (simp add: scripts_panic_def conversion_panic_def)
  ultimately show ?thesis
    using Scripts_panics [of s wb \<rho> scripts] assms(4) by simp
qed

theorem scripts_always_panic_witness:
  "\<exists>m s'. builder_Scripts rev [(''setup.py'', ''print(1)'')] (new_builder 0)
     (wb_start\<lparr>wb_heap := with_builder (wb_heap wb_start)\<rparr>) = (Panic m, s')"
  using scripts_always_panic [OF heap_objects_law one_builder, of "new_builder 0" rev
      "[(''setup.py'', ''print(1)'')]"] rng_ok_rev by auto

section \<open>The workflows that are built\<close>

definition resources_workflow :: "object_lib \<Rightarrow> string list \<Rightarrow> (wb_state, addr) gom" where
  "resources_workflow B res = gbind builder_New (\<lambda>wb. gbind (builder_Resources res wb) (builder_Build B))"

text \<open>A new builder to which resources are added.\<close>

lemma new_Resources_returns:
  assumes ok: "hconf (wb_heap s)"
  defines "n \<equiv> nxt (wb_heap s)" and "h \<equiv> with_builder (wb_heap s)"
  obtains x y s1 where "builder_Resources res (new_builder n) (s\<lparr>wb_heap := h\<rparr>) = (Ret (new_builder n), s1)"
    and "wb_keeps (s\<lparr>wb_heap := h\<rparr>) s1" and "doDelete s1 = doDelete s"
    and "fld (wb_heap s1) x ''raw'' = Some (GMap y)"
    and "fld (wb_heap s1) y ''data'' = Some (GStr (artifact_data res))"
    and "\<forall>c k. alloc h c \<longrightarrow> fld (wb_heap s1) c k =
        (if c = n + 5 \<and> k = ''steps'' then Some (GMapss [[n + 6]])
         else if c = n + 4 \<and> k = ''artifacts'' then Some (GMaps [x]) else fld h c k)"
proof -
  let ?wb = "new_builder n" and ?s = "s\<lparr>wb_heap := h\<rparr>"
  have conf: "hconf (wb_heap ?s)" "wb_conf (wb_heap ?s) ?wb"
    using New_conf [OF ok] by (simp_all add: n_def h_def)
  have i: "fld (wb_heap ?s) (defaultSubmitTemplate ?wb) ''inputs'' = Some (GMap (n + 4))"
    "fld (wb_heap ?s) (n + 4) ''artifacts'' = Some (GMaps [])"
    "fld (wb_heap ?s) (defaultEntryTemplate ?wb) ''steps'' = Some (GMapss [[]])"
    by (simp_all add: fld_with_builder n_def h_def new_builder_def new_objs_def)
  have addr: "defaultEntryTemplate ?wb = n + 5" "defaultSubmitStep ?wb = n + 6" by (simp_all add: new_builder_def)
  show thesis
    using Resources_returns [OF conf i, of res] that by (auto simp: addr elim!: returnsE)
qed

lemma resources_workflow_returns:
  assumes law: "object_law B" and ok: "hconf (wb_heap s)"
  defines "n \<equiv> nxt (wb_heap s)"
  shows "returns (resources_workflow B res) s (\<lambda>ob s'. \<exists>x y. ob = n \<and> wb_keeps s s' \<and>
     doDelete s' = doDelete s \<and>
     fld (wb_heap s') ob ''kind'' = Some (GStr ''Workflow'') \<and>
     fld (wb_heap s') ob ''apiVersion'' = Some (GStr ''argoproj.io/v1alpha1'') \<and>
     fld (wb_heap s') x ''raw'' = Some (GMap y) \<and>
     fld (wb_heap s') y ''data'' = Some (GStr (artifact_data res)) \<and>
     (\<forall>a k. n \<le> a \<longrightarrow> a < n + 12 \<longrightarrow> k \<notin> meta_keys \<longrightarrow> fld (wb_heap s') a k =
       (if a = n + 1 \<and> k = ''templates'' then Some (GMaps (build_templates (doDelete s) (new_builder n)))
        else if a = n + 5 \<and> k = ''steps'' then Some (GMapss [[n + 6]])
        else if a = n + 4 \<and> k = ''artifacts'' then Some (GMaps [x])
        else fld (with_builder (wb_heap s)) a k)))" (is "returns _ _ ?Q")
proof -
  let ?wb = "new_builder n" and ?h = "with_builder (wb_heap s)"
  let ?s = "s\<lparr>wb_heap := ?h\<rparr>"
  have addr: "defaultContent ?wb = n" by (simp add: new_builder_def)
  have al: "alloc ?h a" if "n \<le> a" "a < n + 12" for a
    using that by (simp add: alloc_with_builder n_def)
  obtain x y s1 where 1: "builder_Resources res ?wb ?s = (Ret ?wb, s1)" "wb_keeps ?s s1"
    "doDelete s1 = doDelete s" "fld (wb_heap s1) x ''raw'' = Some (GMap y)"
    "fld (wb_heap s1) y ''data'' = Some (GStr (artifact_data res))"
    and f1: "\<forall>c k. alloc ?h c \<longrightarrow> fld (wb_heap s1) c k =
        (if c = n + 5 \<and> k = ''steps'' then Some (GMapss [[n + 6]])
         else if c = n + 4 \<and> k = ''artifacts'' then Some (GMaps [x]) else fld ?h c k)"
    by (rule new_Resources_returns [OF ok, of res, folded n_def])
  have conf1: "hconf (wb_heap s1)" "wb_conf (wb_heap s1) ?wb"
    using 1(2) wb_keeps_conf [OF 1(2), of ?wb] New_conf [OF ok] by (simp_all add: wb_keeps_def n_def)
  have sp: "fld ?h n ''spec'' = Some (GMap (n + 1))" "fld ?h (n + 1) ''templates'' = Some (GMaps [])"
    by (simp_all add: fld_with_builder n_def new_objs_def)
  have sp1: "fld (wb_heap s1) (defaultContent ?wb) ''spec'' = Some (GMap (n + 1))"
    "fld (wb_heap s1) (n + 1) ''templates'' = Some (GMaps [])"
    using sp f1 al [of n] al [of "n + 1"] by (simp_all add: addr)
  obtain s2 where 2: "builder_Build B ?wb s1 = (Ret n, s2)" "wb_keeps s1 s2" "doDelete s2 = doDelete s1"
    "fld (wb_heap s2) n ''kind'' = Some (GStr ''Workflow'')"
    "fld (wb_heap s2) n ''apiVersion'' = Some (GStr ''argoproj.io/v1alpha1'')"
    and f2: "\<forall>c k. alloc (wb_heap s1) c \<longrightarrow> k \<notin> meta_keys \<longrightarrow> fld (wb_heap s2) c k =
        (if c = n + 1 \<and> k = ''templates'' then Some (GMaps (build_templates (doDelete s1) ?wb))
         else fld (wb_heap s1) c k)"
    using Build_returns [OF law conf1 sp1] by (auto simp: addr elim!: returnsE)
  have run: "resources_workflow B res s = (Ret n, s2)"
    using 1(1) 2(1) by (simp add: resources_workflow_def gbind_def builder_New_eq n_def)
  have mk: "''raw'' \<notin> meta_keys" "''data'' \<notin> meta_keys" by (simp_all add: meta_keys_def)
  have xy: "fld (wb_heap s2) x ''raw'' = Some (GMap y)" "fld (wb_heap s2) y ''data'' = Some (GStr (artifact_data res))"
    using f2 mk fld_alloc [OF 1(4)] fld_alloc [OF 1(5)] 1(4,5) by simp_all
  have "wb_keeps s s2"
    using New_conf(2) [OF ok] 1(2) 2(2) hext_trans by (simp add: wb_keeps_def) blast
  moreover have "fld (wb_heap s2) a k =
       (if a = n + 1 \<and> k = ''templates'' then Some (GMaps (build_templates (doDelete s) ?wb))
        else if a = n + 5 \<and> k = ''steps'' then Some (GMapss [[n + 6]])
        else if a = n + 4 \<and> k = ''artifacts'' then Some (GMaps [x]) else fld ?h a k)"
    if a: "n \<le> a" "a < n + 12" "k \<notin> meta_keys" for a k
  proof -
    have "alloc (wb_heap s1) a" using al [OF a(1,2)] 1(2) by (auto simp: wb_keeps_def hext_def)
    from f2 [rule_format, OF this a(3)] f1 [rule_format, OF al [OF a(1,2)]] 1(3) show ?thesis by presburger
  qed
  ultimately show ?thesis
    using run 1(3) 2(3-5) xy by (simp add: returns_Ret) blast
qed

lemma resources_workflow_fields:
  assumes "object_law B" and "hconf (wb_heap s)"
  defines "n \<equiv> nxt (wb_heap s)"
  shows "returns (resources_workflow B res) s (\<lambda>ob s'. \<exists>x y. ob = n \<and>
     doDelete s' = doDelete s \<and>
     fld (wb_heap s') n ''kind'' = Some (GStr ''Workflow'') \<and>
     fld (wb_heap s') n ''apiVersion'' = Some (GStr ''argoproj.io/v1alpha1'') \<and>
     fld (wb_heap s') n ''spec'' = Some (GMap (n + 1)) \<and>
     fld (wb_heap s') (n + 1) ''entrypoint'' = Some (GStr ''entry'') \<and>
     fld (wb_heap s') (n + 1) ''templates'' = Some (GMaps (if doDelete s then [n + 8, n + 10] else [n + 5, n + 3])) \<and>
     fld (wb_heap s') (n + 5) ''name'' = Some (GStr ''entry'') \<and>
     fld (wb_heap s') (n + 5) ''steps'' = Some (GMapss [[n + 6]]) \<and>
     fld (wb_heap s') (n + 6) ''template'' = Some (GStr ''submit'') \<and>
     fld (wb_heap s') (n + 3) ''name'' = Some (GStr ''submit'') \<and>
     fld (wb_heap s') (n + 3) ''inputs'' = Some (GMap (n + 4)) \<and>
     fld (wb_heap s') (n + 4) ''artifacts'' = Some (GMaps [x]) \<and>
     fld (wb_heap s') x ''raw'' = Some (GMap y) \<and>
     fld (wb_heap s') y ''data'' = Some (GStr (artifact_data res)) \<and>
     fld (wb_heap s') (n + 8) ''name'' = Some (GStr ''delete-wf'') \<and>
     fld (wb_heap s') (n + 10) ''name'' = Some (GStr ''delete-ns''))"
  unfolding n_def
  by (rule returns_mono [OF resources_workflow_returns [OF assms(1,2)]], elim exE conjE)
    (simp add: meta_keys_def fld_with_builder new_objs_def new_builder_def build_templates_def)

lemma artifact_data_concat: "artifact_data res = concat (map with_separator res)"
proof -
  have "fold (\<lambda>r d. d @ with_separator r) res acc = acc @ concat (map with_separator res)" for acc
    by (induction res arbitrary: acc) auto
  then show ?thesis by (simp add: artifact_data_def)
qed

text \<open>
  C32: The workflow that is built for resources. When no \<open>Delete\<close> has been called before, a new
  builder given resources builds an Argo workflow whose entry point is its first template;
  this template runs one step, the second template, whose one artifact holds the
  documents of the resources, each ended by a separator line.
\<close>

theorem resources_workflow_shape:
  assumes "object_law B" and "wb_reach B bs s" and "\<not> doDelete s"
  shows "returns (resources_workflow B res) s (\<lambda>ob s'. \<exists>sp e t st i x y.
     fld (wb_heap s') ob ''kind'' = Some (GStr ''Workflow'') \<and>
     fld (wb_heap s') ob ''apiVersion'' = Some (GStr ''argoproj.io/v1alpha1'') \<and>
     fld (wb_heap s') ob ''spec'' = Some (GMap sp) \<and>
     fld (wb_heap s') sp ''entrypoint'' = Some (GStr ''entry'') \<and>
     fld (wb_heap s') sp ''templates'' = Some (GMaps [e, t]) \<and>
     fld (wb_heap s') e ''name'' = Some (GStr ''entry'') \<and>
     fld (wb_heap s') e ''steps'' = Some (GMapss [[st]]) \<and>
     fld (wb_heap s') st ''template'' = Some (GStr ''submit'') \<and>
     fld (wb_heap s') t ''name'' = Some (GStr ''submit'') \<and>
     fld (wb_heap s') t ''inputs'' = Some (GMap i) \<and>
     fld (wb_heap s') i ''artifacts'' = Some (GMaps [x]) \<and>
     fld (wb_heap s') x ''raw'' = Some (GMap y) \<and>
     fld (wb_heap s') y ''data'' = Some (GStr (concat (map with_separator res))))"
proof -
  have "hconf (wb_heap s)" using wb_reach_conf [OF assms(1,2)] by blast
  from resources_workflow_fields [OF assms(1) this] show ?thesis
    by (rule returns_mono, elim exE conjE) (simp add: assms(3) artifact_data_concat)
qed

theorem resources_workflow_shape_witness:
  "returns (resources_workflow heap_objects [''kind: Job'']) wb_start (\<lambda>ob s'. \<exists>sp e t.
     fld (wb_heap s') ob ''spec'' = Some (GMap sp) \<and>
     fld (wb_heap s') sp ''templates'' = Some (GMaps [e, t]) \<and>
     fld (wb_heap s') e ''name'' = Some (GStr ''entry''))"
proof -
  have "\<not> doDelete wb_start" by (simp add: wb_start_def)
  from resources_workflow_shape [OF heap_objects_law reach_start this] show ?thesis
    by (rule returns_mono) blast
qed

subsection \<open>The delete flag\<close>

text \<open>
  The delete flag leaks. \<open>Delete\<close> sets a variable of the package that no code sets back, so after
  the first call of \<open>Delete\<close> on any builder every builder of the program, also one given
  resources afterwards, builds the delete templates and drops its resources. The
  entry point is still \<^verbatim>\<open>entry\<close>, and no template of that workflow has this name.
\<close>

lemma delete_flag_leaks:
  assumes "object_law B" and "wb_reach B bs s" and "doDelete s"
  shows "returns (resources_workflow B res) s (\<lambda>ob s'. doDelete s' \<and> (\<exists>sp d0 d1.
     fld (wb_heap s') ob ''spec'' = Some (GMap sp) \<and>
     fld (wb_heap s') sp ''entrypoint'' = Some (GStr ''entry'') \<and>
     fld (wb_heap s') sp ''templates'' = Some (GMaps [d0, d1]) \<and>
     fld (wb_heap s') d0 ''name'' = Some (GStr ''delete-wf'') \<and>
     fld (wb_heap s') d1 ''name'' = Some (GStr ''delete-ns'')))"
proof -
  have "hconf (wb_heap s)" using wb_reach_conf [OF assms(1,2)] by blast
  from resources_workflow_fields [OF assms(1) this] show ?thesis
    by (rule returns_mono, elim exE conjE) (simp add: assms(3))
qed

subsection \<open>The two shapes\<close>

definition resources_shape :: "go_heap \<Rightarrow> addr \<Rightarrow> string list \<Rightarrow> bool" where
  "resources_shape h ob res \<longleftrightarrow> (\<exists>sp e t st i x y.
     fld h ob ''kind'' = Some (GStr ''Workflow'') \<and>
     fld h ob ''spec'' = Some (GMap sp) \<and>
     fld h sp ''entrypoint'' = Some (GStr ''entry'') \<and>
     fld h sp ''templates'' = Some (GMaps [e, t]) \<and>
     fld h e ''name'' = Some (GStr ''entry'') \<and> fld h e ''steps'' = Some (GMapss [[st]]) \<and>
     fld h st ''template'' = Some (GStr ''submit'') \<and>
     fld h t ''name'' = Some (GStr ''submit'') \<and> fld h t ''inputs'' = Some (GMap i) \<and>
     fld h i ''artifacts'' = Some (GMaps [x]) \<and> fld h x ''raw'' = Some (GMap y) \<and>
     fld h y ''data'' = Some (GStr (artifact_data res)))"

definition delete_shape :: "go_heap \<Rightarrow> addr \<Rightarrow> bool" where
  "delete_shape h ob \<longleftrightarrow> (\<exists>sp d0 d1.
     fld h ob ''kind'' = Some (GStr ''Workflow'') \<and>
     fld h ob ''spec'' = Some (GMap sp) \<and>
     fld h sp ''entrypoint'' = Some (GStr ''entry'') \<and>
     fld h sp ''templates'' = Some (GMaps [d0, d1]) \<and>
     fld h d0 ''name'' = Some (GStr ''delete-wf'') \<and> fld h d1 ''name'' = Some (GStr ''delete-ns''))"

lemma resources_workflow_gives_shape:
  assumes "object_law B" and "hconf (wb_heap s)" and "\<not> doDelete s"
  shows "returns (resources_workflow B res) s (\<lambda>ob s'. resources_shape (wb_heap s') ob res)"
  by (rule returns_mono [OF resources_workflow_fields [OF assms(1,2)]], elim exE conjE)
    (simp add: resources_shape_def assms(3))

lemma delete_workflow_gives_shape:
  assumes "object_law B" and "hconf (wb_heap s)"
  shows "returns (gbind builder_New (\<lambda>wb. gbind (builder_Delete wb) (builder_Build B))) s
    (\<lambda>ob s'. delete_shape (wb_heap s') ob)"
proof -
  let ?n = "nxt (wb_heap s)" and ?h = "with_builder (wb_heap s)"
  let ?wb = "new_builder ?n" and ?s = "s\<lparr>wb_heap := ?h, doDelete := True\<rparr>"
  have conf: "hconf (wb_heap ?s)" "wb_conf (wb_heap ?s) ?wb"
    using New_conf [OF assms(2)] by simp_all
  have addr: "defaultContent ?wb = ?n" "deleteTemplates ?wb = [?n + 8, ?n + 10]"
    by (simp_all add: new_builder_def)
  have sp: "fld (wb_heap ?s) (defaultContent ?wb) ''spec'' = Some (GMap (?n + 1))"
    "fld (wb_heap ?s) (?n + 1) ''templates'' = Some (GMaps [])"
    by (simp_all add: addr fld_with_builder new_objs_def)
  have "returns (builder_Build B ?wb) ?s (\<lambda>ob s'. delete_shape (wb_heap s') ob)"
    by (rule returns_mono [OF Build_returns [OF assms(1) conf sp]], elim exE conjE)
      (simp add: delete_shape_def addr meta_keys_def build_templates_def alloc_with_builder
        fld_with_builder new_objs_def)
  then show ?thesis by (simp add: returns_def gbind_def builder_New_eq)
qed

subsection \<open>The documents of the artifact\<close>

text \<open>A resource as it stands in the artifact: it ends with a line break.\<close>

definition ended :: "string \<Rightarrow> string" where
  "ended r = (if HasSuffix r newline then r else r @ newline)"

definition contains :: "string \<Rightarrow> string \<Rightarrow> bool" where
  "contains s p \<longleftrightarrow> (\<exists>i \<le> length s. HasPrefix (drop i s) p)"

lemma contains_Cons: "contains (c # s) p \<longleftrightarrow> HasPrefix (c # s) p \<or> contains s p"
proof
  assume "contains (c # s) p"
  then obtain i where "i \<le> Suc (length s)" "HasPrefix (drop i (c # s)) p" by (auto simp: contains_def)
  then show "HasPrefix (c # s) p \<or> contains s p" by (cases i) (auto simp: contains_def)
next
  assume "HasPrefix (c # s) p \<or> contains s p"
  then show "contains (c # s) p"
  proof
    assume "HasPrefix (c # s) p" then show ?thesis by (auto simp: contains_def intro: exI [of _ 0])
  next
    assume "contains s p"
    then obtain i where "i \<le> length s" "HasPrefix (drop i s) p" by (auto simp: contains_def)
    then show ?thesis by (auto simp: contains_def intro!: exI [of _ "Suc i"])
  qed
qed

lemma HasSuffix_newline: "HasSuffix r newline \<longleftrightarrow> r \<noteq> [] \<and> last r = CHR 0x0A"
  by (cases r rule: rev_cases) (auto simp: HasSuffix_def newline_def)

lemma ended_last: "ended r \<noteq> [] \<and> last (ended r) = CHR 0x0A"
  using HasSuffix_newline [of r] by (simp add: ended_def) (simp add: newline_def)

lemma with_separator_ended: "with_separator r = ended r @ manifest_sep"
  by (simp add: with_separator_def ended_def manifest_sep_def newline_def Let_def)

lemma sep_inside:
  assumes "x \<noteq> []" and "last x = CHR 0x0A" and "HasPrefix (x @ rest) manifest_sep"
  shows "HasPrefix x manifest_sep"
proof -
  have len: "length manifest_sep = 4" by (simp add: manifest_sep_def)
  from assms(3) have t: "take 4 (x @ rest) = manifest_sep" by (simp add: HasPrefix_def len)
  moreover have "4 \<le> length x"
  proof (rule ccontr)
    assume short: "\<not> 4 \<le> length x"
    let ?k = "length x - 1"
    have k: "?k < 3" "?k < length x" using short assms(1) by (auto simp: neq_Nil_conv)
    have "take 4 (x @ rest) ! ?k = x ! ?k" using k by (simp add: nth_append del: take_append)
    then have "manifest_sep ! ?k = x ! ?k" by (simp only: t)
    also have "\<dots> = CHR 0x0A" using assms(1,2) by (simp add: last_conv_nth)
    finally have "manifest_sep ! ?k = CHR 0x0A" .
    moreover from k(1) have "?k = 0 \<or> ?k = 1 \<or> ?k = 2" by linarith
    ultimately show False by (auto simp: manifest_sep_def)
  qed
  ultimately show ?thesis by (simp add: HasPrefix_def len)
qed

lemma split_from_document:
  assumes "\<not> contains x manifest_sep" and "x = [] \<or> last x = CHR 0x0A"
  shows "split_from manifest_sep cur (x @ manifest_sep @ rest) =
           (cur @ x) # split_from manifest_sep [] rest"
  using assms
proof (induction x arbitrary: cur)
  case Nil
  have "manifest_sep \<noteq> []" by (simp add: manifest_sep_def)
  then show ?case by (subst split_from.simps) simp
next
  case (Cons c x)
  have "\<not> HasPrefix ((c # x) @ manifest_sep @ rest) manifest_sep"
    using Cons.prems sep_inside [of "c # x" "manifest_sep @ rest"] by (auto simp: contains_Cons)
  then have "split_from manifest_sep cur ((c # x) @ manifest_sep @ rest) =
      split_from manifest_sep (cur @ [c]) (x @ manifest_sep @ rest)"
    by (subst split_from.simps) simp
  also have "\<dots> = ((cur @ [c]) @ x) # split_from manifest_sep [] rest"
    using Cons by (intro Cons.IH) (auto simp: contains_Cons split: if_splits)
  finally show ?case by simp
qed

lemma Split_documents:
  assumes "\<forall>r \<in> set res. \<not> contains (ended r) manifest_sep"
  shows "Split (concat (map with_separator res)) manifest_sep = map ended res @ [[]]"
  using assms
proof (induction res)
  case (Cons r res)
  have "split_from manifest_sep [] (ended r @ manifest_sep @ concat (map with_separator res)) =
      ended r # split_from manifest_sep [] (concat (map with_separator res))"
    using split_from_document [of "ended r"] Cons.prems ended_last by simp
  with Cons show ?case
    using with_separator_ended [of r] by (simp add: Split_def)
qed (simp add: Split_def)

lemma dropWhile_space_append:
  assumes "is_space c"
  shows "TrimSpace (r @ [c]) = TrimSpace r"
proof (cases "\<forall>x \<in> set r. is_space x")
  case True
  then have "dropWhile is_space r = []" "dropWhile is_space (r @ [c]) = []"
    using assms by auto
  then show ?thesis by (simp only: TrimSpace_def)
next
  case False
  then obtain x where "x \<in> set r" "\<not> is_space x" by blast
  then have "dropWhile is_space (r @ [c]) = dropWhile is_space r @ [c]" by (rule dropWhile_append1)
  then show ?thesis using assms by (simp add: TrimSpace_def)
qed

lemma TrimSpace_ended: "TrimSpace (ended r) = TrimSpace r"
  using dropWhile_space_append [of "CHR 0x0A" r] by (simp add: ended_def newline_def is_space_def)

lemma processArtifact_ended: "processArtifact U a (ended r) = processArtifact U a r"
  by (simp add: processArtifact_def TrimSpace_ended)

lemma emap_append:
  "emap f (xs @ ys) = ebind (emap f xs) (\<lambda>as. ebind (emap f ys) (\<lambda>bs. Ret (Inr (as @ bs))))"
proof (induction xs)
  case (Cons x xs)
  then show ?case by (auto simp: ebind_def split: outcome.split sum.split)
qed (auto simp: ebind_def split: outcome.split sum.split)

lemma emap_map: "emap f (map g xs) = emap (\<lambda>x. f (g x)) xs"
  by (induction xs) simp_all



end
