(* ===== verification/Addonctl.thy ===== *)
theory Addonctl
  imports Workflow_Builder
begin

text \<open>
  The command-line client, \<^verbatim>\<open>pkg/addonctl/addonctl.go\<close>. The package keeps its flags and
  everything it parses in package variables: they are the record \<open>cli\<close>, together with what is
  written to the standard output, the state of the workflow builders and the API server
  it talks to. A nil map is \<open>None\<close> (only \<open>params\<close> can become nil). The file system, the
  environment, the JSON library and the dynamic client are arguments (\<open>os_lib\<close>,
  \<open>client_lib\<close>). Flags are parsed by cobra, which then calls \<open>Args\<close>, \<open>PreRunE\<close> and \<open>Run\<close>
  of the command in this order and stops at an error.
\<close>

section \<open>State and libraries\<close>

record 'w cli =
  addonName :: string
  clusterName :: string
  clusterRegion :: string
  dryRun :: bool
  description :: string
  dependencies :: string
  install :: string
  namespace :: string
  pkgChannel :: string
  pkgType :: string
  pkgVersion :: string
  paramsRaw :: string
  prereqs :: string
  secretsRaw :: string
  selector :: string
  dependenciesMap :: "string gomap"
  params :: "string gomap option"
  prereqResources :: "string list"
  prereqScripts :: "string gomap"
  installResources :: "string list"
  installScripts :: "string gomap"
  secretsList :: "string list"
  selectorMap :: "string gomap"
  cli_out :: "string list"
  cli_builders :: wb_state
  cli_api :: 'w

text \<open>The variables as the package initialises them, before flags are read.\<close>

definition start_cli :: "'w \<Rightarrow> 'w cli" where
  "start_cli w = \<lparr>addonName = [], clusterName = [], clusterRegion = [], dryRun = False,
     description = [], dependencies = [], install = [], namespace = [], pkgChannel = [],
     pkgType = [], pkgVersion = [], paramsRaw = [], prereqs = [], secretsRaw = [], selector = [],
     dependenciesMap = [], params = Some [], prereqResources = [], prereqScripts = [],
     installResources = [], installScripts = [], secretsList = [], selectorMap = [],
     cli_out = [], cli_builders = wb_start, cli_api = w\<rparr>"

definition addonMgrSystemNamespace :: string where
  "addonMgrSystemNamespace = ''addon-manager-system''"

record FileInfo =
  fi_Name :: string
  fi_IsDir :: bool

record os_lib =
  os_Getenv :: "string \<Rightarrow> string"
  filepath_Join :: "string \<Rightarrow> string \<Rightarrow> string"
  os_Stat :: "string \<Rightarrow> goerr + FileInfo"
  os_ReadDir :: "string \<Rightarrow> goerr + string list"
  os_ReadFile :: "string \<Rightarrow> goerr + string"

text \<open>
  The JSON and YAML libraries and the dynamic client. The kind of the addon (its \<open>TypeMeta\<close>) is not
  a field of the record \<open>Addon\<close>, so it is given beside the addon.
  \<open>client_NewForConfigOrDie\<close> is the message of its panic when it dies.
\<close>

record 'w client_lib =
  c_json_MarshalIndent :: "GroupVersionKind \<Rightarrow> Addon \<Rightarrow> goerr + string"
  c_json_Marshal :: "GroupVersionKind \<Rightarrow> Addon \<Rightarrow> goerr + string"
  c_json_UnmarshalMap :: "string \<Rightarrow> goerr + json gomap"
  c_yaml_Marshal :: "go_heap \<Rightarrow> addr \<Rightarrow> goerr + string"
  client_objects :: object_lib
  client_NewForConfigOrDie :: "string option"
  client_Get :: "GroupVersionResource \<Rightarrow> string \<Rightarrow> string \<Rightarrow> 'w \<Rightarrow> goerr + json gomap"
  client_Update :: "GroupVersionResource \<Rightarrow> string \<Rightarrow> json gomap \<Rightarrow> 'w \<Rightarrow> goerr option \<times> 'w"
  client_Create :: "GroupVersionResource \<Rightarrow> string \<Rightarrow> json gomap \<Rightarrow> 'w \<Rightarrow> goerr option \<times> 'w"
  u_GetResourceVersion :: "json gomap \<Rightarrow> string"
  u_SetResourceVersion :: "string \<Rightarrow> json gomap \<Rightarrow> json gomap"

definition Println :: "string \<Rightarrow> ('w cli, unit) gom" where
  "Println l = gmodify (\<lambda>s. s\<lparr>cli_out := cli_out s @ [l]\<rparr>)"

definition squoted :: "string \<Rightarrow> string" where
  "squoted s = [CHR 0x27] @ s @ [CHR 0x27]"

definition at_index :: "'a list \<Rightarrow> nat \<Rightarrow> ('s, 'a) gom" where
  "at_index xs i = (if i < length xs then gret (xs ! i)
     else gpanic (''index out of range ['' @ itoa (int i) @ ''] with length '' @ itoa (int (length xs))))"

section \<open>Parsing of flags\<close>

definition parseSelector :: "string \<Rightarrow> ('w cli, goerr option) gom" where
  "parseSelector sel =
     gbind (Println ''Parsing selector...'') (\<lambda>_.
     if sel = [] then gret None
     else let s = Split sel '':'' in
       if length s = 1 \<and> s ! 0 = '':'' then gret (Some (Errorf (''Missing '' @ squoted '':'' @ '' separator in selector'')))
       else if length s \<noteq> 2 then gret (Some (Errorf ''Dependency had multiple separators''))
       else gbind (gmodify (\<lambda>c. c\<lparr>selectorMap := AList.update (s ! 0) (s ! 1) (selectorMap c)\<rparr>)) (\<lambda>_.
            gret None))"

definition put_param :: "string \<Rightarrow> string \<Rightarrow> ('w cli, unit) gom" where
  "put_param k v = (\<lambda>c. case params c of
      None \<Rightarrow> (Panic ''assignment to entry in nil map'', c)
    | Some m \<Rightarrow> (Ret (), c\<lparr>params := Some (AList.update k v m)\<rparr>))"

definition parse_param :: "string \<Rightarrow> string \<Rightarrow> ('w cli, goerr option) gom" where
  "parse_param raw item =
     (let kv = Split item ''='' in
      if length kv = 1 \<and> kv ! 0 = ''='' then
        gret (Some (Errorf (''Unable to parse addon params: '' @ squoted raw @ ''. Key-value pair '' @ item
          @ '' does not have separator '' @ squoted ''='')))
      else gbind (at_index kv 0) (\<lambda>k. gbind (at_index kv 1) (\<lambda>v.
           gbind (put_param k v) (\<lambda>_. gret None))))"

definition parseAddonParams :: "string \<Rightarrow> ('w cli, goerr option) gom" where
  "parseAddonParams raw =
     gbind (Println ''Parsing addon params...'') (\<lambda>_.
     if raw = [] then gbind (gmodify (\<lambda>c. c\<lparr>params := None\<rparr>)) (\<lambda>_. gret None)
     else efor (parse_param raw) (Split raw '',''))"

definition validatePkgType :: "string \<Rightarrow> ('w cli, goerr option) gom" where
  "validatePkgType pt =
     gbind (Println ''Validating pkgType...'') (\<lambda>_.
     if pt \<noteq> HelmPkg \<and> pt \<noteq> ShipPkg \<and> pt \<noteq> KustomizePkg \<and> pt \<noteq> CnabPkg \<and> pt \<noteq> CompositePkg
     then gret (Some (Errorf ''unsupported package type'')) else gret None)"

definition parse_dependency :: "string \<Rightarrow> ('w cli, goerr option) gom" where
  "parse_dependency dep =
     (let d = Split dep '':'' in
      if length d = 1 \<and> d ! 0 = '':'' then gret (Some (Errorf (''missing '' @ squoted '':'' @ '' separator in dependency'')))
      else if length d \<noteq> 2 then gret (Some (Errorf ''dependency had multiple separators''))
      else gbind (gmodify (\<lambda>c. c\<lparr>dependenciesMap := AList.update (d ! 0) (d ! 1) (dependenciesMap c)\<rparr>))
             (\<lambda>_. gret None))"

definition parseDependencies :: "string \<Rightarrow> ('w cli, goerr option) gom" where
  "parseDependencies deps =
     gbind (Println ''Parsing dependencies...'') (\<lambda>_.
     if deps = [] then gret None else efor parse_dependency (Split deps '',''))"

definition parseSecrets :: "string \<Rightarrow> ('w cli, goerr option) gom" where
  "parseSecrets raw =
     (if raw = [] then gret None
      else let secrets = Split raw '','' in
        if length secrets = 1 \<and> secrets ! 0 = '',''
        then gret (Some (Errorf (''Error parsing secrets '' @ raw)))
        else gbind (gmodify (\<lambda>c. c\<lparr>secretsList := secretsList c @ secrets\<rparr>)) (\<lambda>_. gret None))"

section \<open>Reading resources and scripts\<close>

definition add_resource :: "string \<Rightarrow> string \<Rightarrow> 'w cli \<Rightarrow> 'w cli" where
  "add_resource stepName resource c =
     (if TrimSpace resource = [] then c
      else if stepName = ''prereqs'' then c\<lparr>prereqResources := prereqResources c @ [resource]\<rparr>
      else if stepName = ''install'' then c\<lparr>installResources := installResources c @ [resource]\<rparr>
      else c)"

definition parseResources :: "os_lib \<Rightarrow> string \<Rightarrow> string \<Rightarrow> ('w cli, goerr option) gom" where
  "parseResources E filename stepName =
     (case os_ReadFile E filename of
        Inl err \<Rightarrow> gret (Some (Wrapf (''failed to read file '' @ filename @ '': '') err))
      | Inr rawBytes \<Rightarrow>
          gbind (gmodify (fold (add_resource stepName) (Split rawBytes manifest_sep))) (\<lambda>_. gret None))"

definition add_script_file :: "string \<Rightarrow> string \<Rightarrow> string \<Rightarrow> 'w cli \<Rightarrow> 'w cli" where
  "add_script_file stepName name data c =
     (if stepName = ''prereqs'' then c\<lparr>prereqScripts := AList.update name data (prereqScripts c)\<rparr>
      else if stepName = ''install'' then c\<lparr>installScripts := AList.update name data (installScripts c)\<rparr>
      else c)"

text \<open>One file: \<open>name\<close> decides what it is, \<open>script\<close> and \<open>path\<close> are what the code opens.\<close>

definition extract_file ::
    "os_lib \<Rightarrow> string \<Rightarrow> string \<Rightarrow> string \<Rightarrow> string \<Rightarrow> ('w cli, goerr option) gom" where
  "extract_file E stepName name script path =
     (if HasSuffix name ''.py'' then
        (case os_ReadFile E script of
           Inl err \<Rightarrow> gret (Some (Errorf (''unable to read file '' @ name)))
         | Inr data \<Rightarrow> gbind (gmodify (add_script_file stepName name data)) (\<lambda>_. gret None))
      else if HasSuffix name ''.yaml'' \<or> HasSuffix name ''.yml'' then parseResources E path stepName
      else gret None)"

definition extract_step :: "os_lib \<Rightarrow> string \<times> string \<Rightarrow> ('w cli, goerr option) gom" where
  "extract_step E = (\<lambda>(stepName, path).
     if path \<noteq> [] then
       let path = filepath_Join E (os_Getenv E ''PWD'') path in
       (case os_Stat E path of
          Inl err \<Rightarrow> gret (Some err)
        | Inr fi \<Rightarrow>
            if fi_IsDir fi then
              (case os_ReadDir E path of
                 Inl err \<Rightarrow> gret (Some (Wrapf (''failed to read dir path '' @ path @ '': '') err))
               | Inr files \<Rightarrow> efor (\<lambda>f. extract_file E stepName f f path) files)
            else extract_file E stepName (fi_Name fi) path path)
     else gret None)"

definition extractResources ::
    "order \<Rightarrow> os_lib \<Rightarrow> string \<Rightarrow> string \<Rightarrow> ('w cli, goerr option) gom" where
  "extractResources \<rho> E prereqsPath installPath =
     efor (extract_step E) (gm_range \<rho> [(''prereqs'', prereqsPath), (''install'', installPath)])"

definition parseAllArgs :: "order \<Rightarrow> os_lib \<Rightarrow> ('w cli, goerr option) gom" where
  "parseAllArgs \<rho> E = (\<lambda>c0.
     gbind (Println ''Parsing all args'') (\<lambda>_.
     ethen (extractResources \<rho> E (prereqs c0) (install c0))
     (ethen (parseAddonParams (paramsRaw c0))
     (ethen (parseDependencies (dependencies c0))
     (ethen (parseSecrets (secretsRaw c0))
     (ethen (parseSelector (selector c0))
       (validatePkgType (pkgType c0))))))) c0)"

section \<open>The create command\<close>

definition is_alpha :: "char \<Rightarrow> bool" where
  "is_alpha c \<longleftrightarrow> between CHR ''a'' CHR ''z'' c \<or> between CHR ''A'' CHR ''Z'' c"

text \<open>The expression \<^verbatim>\<open>^[a-zA-Z][a-zA-Z0-9-.]*$\<close>.\<close>

fun name_matches :: "string \<Rightarrow> bool" where
  "name_matches [] = False"
| "name_matches (c # cs) \<longleftrightarrow> is_alpha c \<and>
     list_all (\<lambda>c. is_alpha c \<or> between CHR ''0'' CHR ''9'' c \<or> c = CHR ''-'' \<or> c = CHR ''.'') cs"

definition create_Args :: "string list \<Rightarrow> ('w cli, goerr option) gom" where
  "create_Args args =
     (if length args < 1 then gret (Some (Errorf ''requires more arguments''))
      else gbind (gmodify (\<lambda>c. c\<lparr>addonName := args ! 0\<rparr>)) (\<lambda>_.
           gbind (gget addonName) (\<lambda>n.
           if \<not> name_matches n then gret (Some (Errorf ''Invalid addon name'')) else gret None)))"

definition addon_kind :: GroupVersionKind where
  "addon_kind = \<lparr>GVK_Kind = ''Addon'', GVK_Group = ''addonmgr.keikoproj.io'', GVK_Version = ''v1alpha1''\<rparr>"

text \<open>The instance before its parameters and templates are set.\<close>

definition cli_instance :: "'w cli \<Rightarrow> Addon" where
  "cli_instance c =
     (let a = zero_Addon (addonName c) addonMgrSystemNamespace
      in a\<lparr>Spec := (Spec a)
        \<lparr>Spec_PackageSpec := \<lparr>PkgChannel = pkgChannel c, PkgName = addonName c, PkgVersion = pkgVersion c,
            PkgType = pkgType c, PkgDescription = description c, PkgDeps = dependenciesMap c\<rparr>,
         Spec_Selector := \<lparr>MatchLabels = selectorMap c, MatchExpressions = []\<rparr>,
         Spec_Secrets := map (\<lambda>secret. \<lparr>Secret_Name = secret, Secret_Cmd = 0, Secret_Args = []\<rparr>) (secretsList c),
         Spec_Params := (Spec_Params (Spec a))
           \<lparr>Params_Namespace := namespace c,
            Params_Context := \<lparr>ClusterName = clusterName c, ClusterRegion = clusterRegion c, AdditionalConfigs = []\<rparr>\<rparr>\<rparr>\<rparr>)"

text \<open>
  The loop over the parameters: the map \<open>instance.Spec.Params.Data\<close> of the new instance is nil,
  so the first assignment to it panics.
\<close>

definition set_params :: "order \<Rightarrow> string gomap option \<Rightarrow> ('w cli, unit) gom" where
  "set_params \<rho> ps =
     gfor (\<lambda>(name, val). gpanic ''assignment to entry in nil map'')
       (gm_range \<rho> (case ps of None \<Rightarrow> [] | Some m \<Rightarrow> m))"

definition with_builders :: "(wb_state, 'a) gom \<Rightarrow> ('w cli, 'a) gom" where
  "with_builders m = (\<lambda>c. case m (cli_builders c) of (r, b) \<Rightarrow> (r, c\<lparr>cli_builders := b\<rparr>))"

definition step_template ::
    "order \<Rightarrow> 'w client_lib \<Rightarrow> string gomap \<Rightarrow> string list \<Rightarrow> (wb_state, string) gom" where
  "step_template \<rho> L scripts res =
     gbind builder_New (\<lambda>wb.
     gbind (builder_Scripts \<rho> scripts wb) (\<lambda>wb.
     gbind (builder_Resources res wb) (\<lambda>wb.
     gbind (builder_Build (client_objects L) wb) (\<lambda>u.
     ConvertUnstructuredWorkflowToString (c_yaml_Marshal L) u))))"

definition delete_template :: "'w client_lib \<Rightarrow> (wb_state, string) gom" where
  "delete_template L =
     gbind builder_New (\<lambda>wb.
     gbind (builder_Delete wb) (\<lambda>wb.
     gbind (builder_Build (client_objects L) wb) (\<lambda>u.
     ConvertUnstructuredWorkflowToString (c_yaml_Marshal L) u)))"

definition with_templates :: "string \<Rightarrow> string \<Rightarrow> string \<Rightarrow> Addon \<Rightarrow> Addon" where
  "with_templates p i d a =
     a\<lparr>Spec := (Spec a)\<lparr>Spec_Lifecycle :=
       \<lparr>Lifecycle_Prereqs = zero_WorkflowType\<lparr>Template := p\<rparr>,
        Lifecycle_Install = zero_WorkflowType\<lparr>Template := i\<rparr>,
        Lifecycle_Delete = zero_WorkflowType\<lparr>Template := d\<rparr>,
        Lifecycle_Validate = zero_WorkflowType\<rparr>\<rparr>\<rparr>"

definition build_instance :: "order \<Rightarrow> 'w client_lib \<Rightarrow> ('w cli, Addon) gom" where
  "build_instance \<rho> L = (\<lambda>c.
     gbind (set_params \<rho> (params c)) (\<lambda>_.
     gbind (with_builders (step_template \<rho> L (prereqScripts c) (prereqResources c))) (\<lambda>p.
     gbind (with_builders (step_template \<rho> L (installScripts c) (installResources c))) (\<lambda>i.
     gbind (with_builders (delete_template L)) (\<lambda>d.
     gret (with_templates p i d (cli_instance c)))))) c)"

definition prettyPrint :: "'w client_lib \<Rightarrow> Addon \<Rightarrow> ('w cli, goerr option) gom" where
  "prettyPrint L v = (case c_json_MarshalIndent L addon_kind v of
     Inl err \<Rightarrow> gret (Some err) | Inr b \<Rightarrow> gbind (Println b) (\<lambda>_. gret None))"

text \<open>A call of the client that may fail: its error is printed.\<close>

definition api_call :: "('w \<Rightarrow> goerr option \<times> 'w) \<Rightarrow> ('w cli, unit) gom" where
  "api_call f = (\<lambda>c. case f (cli_api c) of (err, w) \<Rightarrow>
     (case err of None \<Rightarrow> gret () | Some e \<Rightarrow> Println (Error e)) (c\<lparr>cli_api := w\<rparr>))"

definition submit_instance :: "'w client_lib \<Rightarrow> Addon \<Rightarrow> ('w cli, unit) gom" where
  "submit_instance L a = (\<lambda>c.
     (case client_NewForConfigOrDie L of Some m \<Rightarrow> gpanic m | None \<Rightarrow>
       (let jsonInstance = (case c_json_Marshal L addon_kind a of Inl _ \<Rightarrow> [] | Inr b \<Rightarrow> b) in
        case c_json_UnmarshalMap L jsonInstance of
          Inl err \<Rightarrow> Println (Error err)
        | Inr addonMap \<Rightarrow>
            (case client_Get L AddonGVR addonMgrSystemNamespace (addonName c) (cli_api c) of
               Inr addonObject \<Rightarrow>
                 gbind (Println (''Updating addon '' @ addonName c @ ''...'')) (\<lambda>_.
                 api_call (client_Update L AddonGVR addonMgrSystemNamespace
                   (u_SetResourceVersion L (u_GetResourceVersion L addonObject) addonMap)))
             | Inl err \<Rightarrow>
                 gbind (Println (''Creating addon '' @ addonName c @ ''...'')) (\<lambda>_.
                 api_call (client_Create L AddonGVR addonMgrSystemNamespace addonMap))))) c)"

definition create_Run :: "order \<Rightarrow> 'w client_lib \<Rightarrow> ('w cli, unit) gom" where
  "create_Run \<rho> L =
     gbind (build_instance \<rho> L) (\<lambda>instance.
     gbind (gget dryRun) (\<lambda>dry.
     gbind (Println (if dry then ''true'' else ''false'')) (\<lambda>_.
     if dry then
       gbind (Println ''Printing workflow to stdout without submitting:'') (\<lambda>_.
       gbind (prettyPrint L instance) (\<lambda>_. gret ()))
     else submit_instance L instance)))"

text \<open>The command as cobra runs it, and its exit code in \<open>Execute\<close>.\<close>

definition create_command ::
    "order \<Rightarrow> os_lib \<Rightarrow> 'w client_lib \<Rightarrow> string list \<Rightarrow> ('w cli, goerr option) gom" where
  "create_command \<rho> E L args =
     ethen (create_Args args) (ethen (parseAllArgs \<rho> E) (gbind (create_Run \<rho> L) (\<lambda>_. gret None)))"

definition Execute :: "order \<Rightarrow> os_lib \<Rightarrow> 'w client_lib \<Rightarrow> string list \<Rightarrow> ('w cli, nat) gom" where
  "Execute \<rho> E L args =
     gbind (create_command \<rho> E L args) (\<lambda>err. gret (if err \<noteq> None then 1 else 0))"

section \<open>What the parsers accept\<close>

lemma Println_apply [simp]: "Println l c = (Ret (), c\<lparr>cli_out := cli_out c @ [l]\<rparr>)"
  by (simp add: Println_def)

lemma gbind_Println [simp]: "gbind (Println l) f c = f () (c\<lparr>cli_out := cli_out c @ [l]\<rparr>)"
  by (simp add: gbind_def)

lemma gbind_gmodify [simp]: "gbind (gmodify f) g c = g () (f c)"
  by (simp add: gbind_def)

text \<open>The pieces of a split never contain the separator, so the test for a missing one is never true.\<close>

lemma piece_not_separator: "\<not> (length (Split s [ch]) = 1 \<and> Split s [ch] ! 0 = [ch])"
proof
  assume *: "length (Split s [ch]) = 1 \<and> Split s [ch] ! 0 = [ch]"
  then have "[ch] \<in> set (Split s [ch])" by (metis less_numeral_extra(1) nth_mem)
  then show False using Split_char_pieces by fastforce
qed

lemma Split_pair:
  assumes "count_list s ch = 1"
  obtains x y where "s = x @ ch # y" and "Split s [ch] = [x, y]"
proof -
  from assms have "length (Split s [ch]) = 2" by (simp add: length_Split_char)
  then obtain x y where xy: "Split s [ch] = [x, y]" by (auto simp: length_Suc_conv numeral_2_eq_2)
  moreover have "s = x @ ch # y" using Join_Split [of s "[ch]"] by (simp add: xy)
  ultimately show thesis using that by blast
qed

definition store_dep :: "string \<Rightarrow> 'w cli \<Rightarrow> 'w cli" where
  "store_dep dep c = (let d = Split dep '':''
     in c\<lparr>dependenciesMap := AList.update (d ! 0) (d ! 1) (dependenciesMap c)\<rparr>)"

lemma parse_dependency_eq:
  "parse_dependency dep c =
     (if count_list dep CHR '':'' = 1 then (Ret None, store_dep dep c)
      else (Ret (Some (Errorf ''dependency had multiple separators'')), c))"
  using piece_not_separator [of dep "CHR '':''"]
  by (auto simp: parse_dependency_def Let_def length_Split_char store_dep_def)

lemma efor_dependencies:
  "efor parse_dependency ds c =
     (if list_all (\<lambda>d. count_list d CHR '':'' = 1) ds then (Ret None, fold store_dep ds c)
      else (Ret (Some (Errorf ''dependency had multiple separators'')),
            fold store_dep (takeWhile (\<lambda>d. count_list d CHR '':'' = 1) ds) c))"
  by (induction ds arbitrary: c) (auto simp: ethen_def gbind_def parse_dependency_eq)

lemma fold_store_dep:
  assumes "\<forall>(n, v) \<in> set ps. CHR '':'' \<notin> set n \<and> CHR '':'' \<notin> set v"
  shows "dependenciesMap (fold store_dep (map (\<lambda>(n, v). n @ '':'' @ v) ps) c) =
           fold (\<lambda>(n, v). AList.update n v) ps (dependenciesMap c)"
  using assms
proof (induction ps arbitrary: c)
  case (Cons p ps)
  obtain n v where p: "p = (n, v)" by (cases p)
  with Cons.prems have "Split (n @ '':'' @ v) '':'' = [n, v]"
    using Split_append [of n "CHR '':''" v] by (simp add: Split_free)
  then have "dependenciesMap (store_dep (n @ '':'' @ v) c) = AList.update n v (dependenciesMap c)"
    by (simp add: store_dep_def)
  then show ?case using Cons p by simp
qed simp

text \<open>
  Printing and parsing dependencies. The list of dependencies written as the flag wants it,
  \<^verbatim>\<open>name:version\<close> pairs joined with commas, is parsed to exactly these pairs (a later pair for
  the same name wins), when no name or version has a colon or comma in it.
\<close>

lemma dependencies_roundtrip:
  assumes "ps \<noteq> []"
    and "\<forall>(n, v) \<in> set ps. set n \<inter> {CHR '':'', CHR '',''} = {} \<and> set v \<inter> {CHR '':'', CHR '',''} = {}"
  shows "\<exists>c'. parseDependencies (Join (map (\<lambda>(n, v). n @ '':'' @ v) ps) '','') c = (Ret None, c') \<and>
    map_of (dependenciesMap c') = map_of (dependenciesMap c) ++ map_of (rev ps)"
proof -
  let ?ds = "map (\<lambda>(n, v). n @ '':'' @ v) ps"
  let ?c = "c\<lparr>cli_out := cli_out c @ [''Parsing dependencies...'']\<rparr>"
  have split: "Split (Join ?ds '','') '','' = ?ds"
    using assms by (intro Split_Join_char) auto
  have one: "list_all (\<lambda>d. count_list d CHR '':'' = 1) ?ds"
    using assms(2) by (auto simp: list_all_iff count_list_0_iff)
  have ne: "Join ?ds '','' \<noteq> []"
    using assms(1) by (cases ps; cases "tl ps") (auto simp: Join_Cons)
  have st: "dependenciesMap (fold store_dep ?ds ?c) = fold (\<lambda>(n, v). AList.update n v) ps (dependenciesMap ?c)"
    using assms(2) by (intro fold_store_dep) auto
  have "parseDependencies (Join ?ds '','') c = efor parse_dependency ?ds ?c"
    using ne unfolding parseDependencies_def by (simp only: split gbind_Println if_False)
  then have "parseDependencies (Join ?ds '','') c = (Ret None, fold store_dep ?ds ?c)"
    using one by (simp only: efor_dependencies if_True)
  moreover have "map_of (fold (\<lambda>(n, v). AList.update n v) ps m) = map_of m ++ map_of (rev ps)" for m :: "string gomap"
    using map_of_store_all [of ps m] by (simp add: store_all_def split_def)
  ultimately show ?thesis using st by simp
qed

text \<open>
  What a separator error means. A selector or a list of dependencies is accepted exactly when
  every item has one colon. An item with no colon at all is reported as having multiple
  separators: the branch for a missing separator compares a piece of the split with
  the separator itself and is never taken.
\<close>

lemma separator_errors:
  "fst (parseSelector sel c) =
     (if sel = [] \<or> count_list sel CHR '':'' = 1 then Ret None
      else Ret (Some (Errorf ''Dependency had multiple separators''))) \<and>
   fst (parseDependencies deps d) =
     (if deps = [] \<or> list_all (\<lambda>x. count_list x CHR '':'' = 1) (Split deps '','') then Ret None
      else Ret (Some (Errorf ''dependency had multiple separators'')))"
proof
  show "fst (parseSelector sel c) =
     (if sel = [] \<or> count_list sel CHR '':'' = 1 then Ret None
      else Ret (Some (Errorf ''Dependency had multiple separators'')))"
    using piece_not_separator [of sel "CHR '':''"]
    by (auto simp: parseSelector_def Let_def length_Split_char)
  show "fst (parseDependencies deps d) =
     (if deps = [] \<or> list_all (\<lambda>x. count_list x CHR '':'' = 1) (Split deps '','') then Ret None
      else Ret (Some (Errorf ''dependency had multiple separators'')))"
    by (simp add: parseDependencies_def efor_dependencies)
qed

subsection \<open>Parameters\<close>

definition no_separator_panic :: string where
  "no_separator_panic = ''index out of range [1] with length 1''"

lemma itoa_one: "itoa 1 = ''1''"
proof -
  have "digits_in 10 1 = ''1''" by (subst digits_in.simps) (simp add: hexdigit_def)
  then show ?thesis by (simp add: itoa_def)
qed

lemma parse_param_eq:
  assumes "params c = Some m"
  shows "parse_param raw item c =
    (if count_list item CHR ''='' = 0 then (Panic no_separator_panic, c)
     else (Ret None, c\<lparr>params := Some (AList.update (Split item ''='' ! 0) (Split item ''='' ! 1) m)\<rparr>))"
  using piece_not_separator [of item "CHR ''=''"] assms
  by (auto simp: parse_param_def Let_def length_Split_char at_index_def no_separator_panic_def
      gbind_def put_param_def itoa_one)

lemma efor_params:
  assumes "params c = Some m"
  shows "if list_all (\<lambda>i. 0 < count_list i CHR ''='') items
    then efor (parse_param raw) items c =
      (Ret None, c\<lparr>params := Some (fold (\<lambda>i. AList.update (Split i ''='' ! 0) (Split i ''='' ! 1)) items m)\<rparr>)
    else \<exists>c'. efor (parse_param raw) items c = (Panic no_separator_panic, c')"
  using assms
proof (induction items arbitrary: c m)
  case (Cons i items)
  let ?m = "AList.update (Split i ''='' ! 0) (Split i ''='' ! 1) m"
  show ?case
    using Cons.IH [of "c\<lparr>params := Some ?m\<rparr>" ?m] Cons.prems
    by (auto simp: ethen_def gbind_def parse_param_eq)
qed simp

text \<open>
  Parsing parameters. With an empty flag the map of parameters becomes nil. Otherwise
  each item is cut at its equal signs and the text between the first and the second one
  becomes the value; one item without an equal sign makes the client panic with an index out of
  range, instead of the error that the code prepares for this case.
\<close>

lemma params_outcome:
  assumes "params c = Some m"
  shows "if raw = [] then \<exists>c'. parseAddonParams raw c = (Ret None, c') \<and> params c' = None
    else if list_all (\<lambda>i. 0 < count_list i CHR ''='') (Split raw '','')
    then \<exists>c'. parseAddonParams raw c = (Ret None, c') \<and>
      params c' = Some (fold (\<lambda>i. AList.update (Split i ''='' ! 0) (Split i ''='' ! 1)) (Split raw '','') m)
    else \<exists>c'. parseAddonParams raw c = (Panic ''index out of range [1] with length 1'', c')"
  using efor_params [of "c\<lparr>cli_out := cli_out c @ [''Parsing addon params...'']\<rparr>" m "Split raw '',''" raw] assms
  by (auto simp: parseAddonParams_def no_separator_panic_def split: if_splits)

section \<open>What each step leaves alone\<close>

text \<open>
  \<open>parsed c c'\<close>: from \<open>c\<close> to \<open>c'\<close> only the parsed variables and the output have changed; the
  flags, the builders and the API have not.
\<close>

definition unparsed :: "'w cli \<Rightarrow> 'w cli" where
  "unparsed c = c\<lparr>dependenciesMap := [], params := None, prereqResources := [], prereqScripts := [],
     installResources := [], installScripts := [], secretsList := [], selectorMap := [], cli_out := []\<rparr>"

definition parsed :: "'w cli \<Rightarrow> 'w cli \<Rightarrow> bool" where
  "parsed c c' \<longleftrightarrow> unparsed c' = unparsed c"

lemma parsed_refl [simp, intro]: "parsed c c"
  by (simp add: parsed_def)

lemma parsed_upd [simp]:
  "parsed c (d\<lparr>cli_out := out\<rparr>) \<longleftrightarrow> parsed c d"
  "parsed c (d\<lparr>dependenciesMap := m\<rparr>) \<longleftrightarrow> parsed c d"
  "parsed c (d\<lparr>params := p\<rparr>) \<longleftrightarrow> parsed c d"
  "parsed c (d\<lparr>secretsList := sl\<rparr>) \<longleftrightarrow> parsed c d"
  "parsed c (d\<lparr>selectorMap := m\<rparr>) \<longleftrightarrow> parsed c d"
  "parsed c (d\<lparr>prereqResources := sl\<rparr>) \<longleftrightarrow> parsed c d"
  "parsed c (d\<lparr>installResources := sl\<rparr>) \<longleftrightarrow> parsed c d"
  "parsed c (d\<lparr>prereqScripts := m\<rparr>) \<longleftrightarrow> parsed c d"
  "parsed c (d\<lparr>installScripts := m\<rparr>) \<longleftrightarrow> parsed c d"
  by (simp_all add: parsed_def unparsed_def)

lemma unparsed_fields:
  "addonName (unparsed c) = addonName c" "dryRun (unparsed c) = dryRun c"
  "paramsRaw (unparsed c) = paramsRaw c" "cli_api (unparsed c) = cli_api c"
  "cli_builders (unparsed c) = cli_builders c" "pkgType (unparsed c) = pkgType c"
  by (simp_all add: unparsed_def)

lemma parsed_fields:
  assumes "parsed c c'"
  shows "addonName c' = addonName c" "dryRun c' = dryRun c" "paramsRaw c' = paramsRaw c"
    "cli_api c' = cli_api c" "cli_builders c' = cli_builders c" "pkgType c' = pkgType c"
  using assms unparsed_fields unfolding parsed_def by metis+

lemma parsed_add_resource [simp]: "parsed c d \<Longrightarrow> parsed c (add_resource st r d)"
  by (simp add: add_resource_def)

lemma parsed_fold_resources: "parsed c d \<Longrightarrow> parsed c (fold (add_resource st) rs d)"
  by (induction rs arbitrary: d) simp_all

lemma parsed_parseResources: "parsed c d \<Longrightarrow> parsed c (snd (parseResources E f st d))"
  by (simp add: parseResources_def parsed_fold_resources split: sum.split)

lemma parsed_extract_file: "parsed c d \<Longrightarrow> parsed c (snd (extract_file E st n sc p d))"
  by (simp add: extract_file_def parsed_parseResources add_script_file_def split: sum.split)

lemma parsed_extract_step: "parsed c d \<Longrightarrow> parsed c (snd (extract_step E sp d))"
  by (auto simp: extract_step_def Let_def parsed_extract_file split_def
      intro: efor_inv [of "parsed c"] split: sum.split)

lemma parsed_extractResources: "parsed c d \<Longrightarrow> parsed c (snd (extractResources \<rho> E p i d))"
  unfolding extractResources_def by (rule efor_inv [of "parsed c"]) (auto simp: parsed_extract_step)

lemma parsed_parse_param: "parsed c d \<Longrightarrow> parsed c (snd (parse_param raw i d))"
  by (auto simp: parse_param_def Let_def at_index_def put_param_def gbind_def split: option.split)

lemma parsed_parseAddonParams: "parsed c d \<Longrightarrow> parsed c (snd (parseAddonParams raw d))"
  by (auto simp: parseAddonParams_def parsed_parse_param intro: efor_inv [of "parsed c"])

lemma parsed_parse_dependency: "parsed c d \<Longrightarrow> parsed c (snd (parse_dependency i d))"
  by (simp add: parse_dependency_eq store_dep_def Let_def)

lemma parsed_parseDependencies: "parsed c d \<Longrightarrow> parsed c (snd (parseDependencies raw d))"
  by (auto simp: parseDependencies_def parsed_parse_dependency intro: efor_inv [of "parsed c"])

lemma parsed_simple_parsers:
  "parsed c d \<Longrightarrow> parsed c (snd (parseSecrets raw d))"
  "parsed c d \<Longrightarrow> parsed c (snd (parseSelector sel d))"
  "parsed c d \<Longrightarrow> parsed c (snd (validatePkgType pt d))"
  by (simp_all add: parseSecrets_def parseSelector_def validatePkgType_def Let_def)

lemma parsed_parseAllArgs: "parsed c (snd (parseAllArgs \<rho> E c))"
  unfolding parseAllArgs_def
  by (simp, intro ethen_inv [of "parsed c"])
    (simp_all add: parsed_extractResources parsed_parseAddonParams parsed_parseDependencies parsed_simple_parsers)

lemma parsed_create_Args: "cli_api (snd (create_Args args c)) = cli_api c" "dryRun (snd (create_Args args c)) = dryRun c"
  by (simp_all add: create_Args_def gbind_def)

lemma set_params_state: "snd (set_params \<rho> ps c) = c"
proof -
  have "snd (gfor (\<lambda>(name, val). gpanic m) kvs c) = c" for kvs :: "(string \<times> string) list" and m
    by (induction kvs) (auto simp: gbind_def)
  then show ?thesis by (simp add: set_params_def)
qed

text \<open>The builders are the only part of the state that changes while the instance is built.\<close>

definition same_but_builders :: "'w cli \<Rightarrow> 'w cli \<Rightarrow> bool" where
  "same_but_builders c d \<longleftrightarrow> (\<exists>b. d = c\<lparr>cli_builders := b\<rparr>)"

lemma same_but_builders_with: "same_but_builders c d \<Longrightarrow> same_but_builders c (snd (with_builders m d))"
  by (auto simp: with_builders_def same_but_builders_def split_def)

lemma build_instance_frame: "same_but_builders c (snd (build_instance \<rho> L c))"
proof -
  have "same_but_builders c c" by (auto simp: same_but_builders_def intro: exI [of _ "cli_builders c"])
  then show ?thesis
    unfolding build_instance_def
    by (intro gbind_inv [of "same_but_builders c"]) (simp_all add: set_params_state same_but_builders_with)
qed

lemma same_but_builders_fields:
  assumes "same_but_builders c d"
  shows "cli_api d = cli_api c" "dryRun d = dryRun c" "addonName d = addonName c"
    "prereqScripts d = prereqScripts c" "installScripts d = installScripts c" "cli_out d = cli_out c"
  using assms by (auto simp: same_but_builders_def)

lemma prettyPrint_api [simp]: "cli_api (snd (prettyPrint L a c)) = cli_api c"
  by (simp add: prettyPrint_def split: sum.split)

lemma create_Run_dry: "dryRun c \<Longrightarrow> cli_api (snd (create_Run \<rho> L c)) = cli_api c"
proof -
  assume dry: "dryRun c"
  note f = same_but_builders_fields [OF build_instance_frame [of c \<rho> L]]
  obtain r d where b: "build_instance \<rho> L c = (r, d)" by (cases "build_instance \<rho> L c")
  show ?thesis
  proof (cases r)
    case (Ret a)
    then have "create_Run \<rho> L c = gbind (prettyPrint L a) (\<lambda>_. gret ())
        (d\<lparr>cli_out := cli_out d @ [''true'', ''Printing workflow to stdout without submitting:'']\<rparr>)"
      using b dry f(2) by (simp add: create_Run_def gbind_def)
    then show ?thesis
      using f(1) b by (auto simp: prettyPrint_def gbind_def split: sum.split)
  next
    case (Panic m)
    then show ?thesis using b f(1) by (simp add: create_Run_def gbind_def)
  qed
qed

text \<open>
  A dry run does not touch the cluster. With the flag set, the create command leaves the API
  server as it was, however it ends: with an error of an argument, with a panic or with the
  addon printed.
\<close>

lemma dry_run_no_api:
  assumes "dryRun c"
  shows "cli_api (snd (create_command \<rho> E L args c)) = cli_api c"
proof -
  define I where "I d \<longleftrightarrow> cli_api d = cli_api c \<and> dryRun d" for d :: "'a cli"
  define J where "J d \<longleftrightarrow> cli_api d = cli_api c" for d :: "'a cli"
  have args: "I (snd (create_Args args d))" if "I d" for d
    using that parsed_create_Args [of args d] by (simp add: I_def)
  have parse: "I (snd (parseAllArgs \<rho> E d))" if "I d" for d
    using that parsed_fields [OF parsed_parseAllArgs [of d \<rho> E]] by (simp add: I_def)
  have run: "J (snd (gbind (create_Run \<rho> L) (\<lambda>_. gret None) d))" if "I d" for d
  proof -
    have "dryRun d" "cli_api d = cli_api c" using that by (simp_all add: I_def)
    then have "J (snd (create_Run \<rho> L d))" using create_Run_dry [of d \<rho> L] by (simp add: J_def)
    then show ?thesis by (auto simp: gbind_def split: prod.split outcome.split)
  qed
  have step: "J (snd (ethen m n d))" if "I d" "\<And>d. I d \<Longrightarrow> I (snd (m d))" "\<And>d. I d \<Longrightarrow> J (snd (n d))" for m n d
    using that(2) [OF that(1)] that(3)
    by (auto simp: ethen_def gbind_def I_def J_def split: prod.split outcome.split option.split)
  have "I c" using assms by (simp add: I_def)
  then have "J (snd (create_command \<rho> E L args c))"
    unfolding create_command_def by (intro step args parse run)
  then show ?thesis by (simp add: J_def)
qed

section \<open>Files\<close>

text \<open>What the manual of \<open>os\<close> says: a directory cannot be read as a file.\<close>

definition read_dir_law :: "os_lib \<Rightarrow> bool" where
  "read_dir_law E \<longleftrightarrow> (\<forall>p fi. os_Stat E p = Inr fi \<longrightarrow> fi_IsDir fi \<longrightarrow> (\<exists>e. os_ReadFile E p = Inl e))"

lemma extract_file_returns: "\<exists>r d. extract_file E st n sc p c = (Ret r, d)"
  by (auto simp: extract_file_def parseResources_def gbind_def split: sum.split)

lemma efor_fails:
  assumes "\<And>x c. \<exists>r d. f x c = (Ret r, d)" and "x \<in> set xs" and "\<And>c. \<exists>e d. f x c = (Ret (Some e), d)"
  shows "\<exists>e d. efor f xs c = (Ret (Some e), d)"
  using assms(2)
proof (induction xs arbitrary: c)
  case (Cons y ys)
  obtain r d where fy: "f y c = (Ret r, d)" using assms(1) by blast
  show ?case
  proof (cases r)
    case (Some e)
    then show ?thesis using fy by (simp add: ethen_def gbind_def)
  next
    case None
    then have "y \<noteq> x" using fy assms(3) [of c] by auto
    then have "x \<in> set ys" using Cons.prems by simp
    then obtain e d' where "efor f ys d = (Ret (Some e), d')" using Cons.IH by blast
    then show ?thesis using fy None by (simp add: ethen_def gbind_def)
  qed
qed simp

definition is_yaml :: "string \<Rightarrow> bool" where
  "is_yaml f \<longleftrightarrow> HasSuffix f ''.yaml'' \<or> HasSuffix f ''.yml''"

lemma HasSuffix_append: "HasSuffix (x @ p) p"
  by (simp add: HasSuffix_def)

lemma yaml_not_py:
  assumes "is_yaml f"
  shows "\<not> HasSuffix f ''.py''"
proof
  assume "HasSuffix f ''.py''"
  then have "last f = CHR ''y''" by (auto simp: HasSuffix_def) (metis append_take_drop_id last_ConsL last_ConsR last_appendR list.distinct(1))
  moreover from assms have "last f = CHR ''l''"
    by (auto simp: is_yaml_def HasSuffix_def) (metis append_take_drop_id last_ConsL last_ConsR last_appendR list.distinct(1))+
  ultimately show False by simp
qed

text \<open>
  A directory of manifests is always refused. For a path that is a directory with at least
  one YAML file in it, the client opens the directory in place of the file, so extraction ends
  in an error whatever else the directory holds; the flag accepts single files only.
\<close>

lemma yaml_directory_refused:
  assumes "read_dir_law E" and "path \<noteq> []"
    and "os_Stat E (filepath_Join E (os_Getenv E ''PWD'') path) = Inr fi" and "fi_IsDir fi"
    and "os_ReadDir E (filepath_Join E (os_Getenv E ''PWD'') path) = Inr files"
    and "f \<in> set files" and "is_yaml f"
  shows "\<exists>e c'. extract_step E (st, path) c = (Ret (Some e), c')"
proof -
  let ?p = "filepath_Join E (os_Getenv E ''PWD'') path"
  obtain e where "os_ReadFile E ?p = Inl e" using assms(1,3,4) by (auto simp: read_dir_law_def)
  then have "\<exists>e d. extract_file E st f f ?p c = (Ret (Some e), d)" for c
    using assms(7) yaml_not_py [OF assms(7)] by (simp add: extract_file_def is_yaml_def parseResources_def)
  then have "\<exists>e d. efor (\<lambda>f. extract_file E st f f ?p) files c = (Ret (Some e), d)"
    using assms(6) by (intro efor_fails [of _ f]) (auto simp: extract_file_returns)
  then show ?thesis using assms(2-5) by (simp add: extract_step_def Let_def)
qed

lemma fold_add_resource_install:
  "fold (add_resource ''install'') rs c =
     c\<lparr>installResources := installResources c @ filter (\<lambda>r. TrimSpace r \<noteq> []) rs\<rparr>"
  by (induction rs arbitrary: c) (simp_all add: add_resource_def)

lemma fold_add_resource_prereqs:
  "fold (add_resource ''prereqs'') rs c =
     c\<lparr>prereqResources := prereqResources c @ filter (\<lambda>r. TrimSpace r \<noteq> []) rs\<rparr>"
  by (induction rs arbitrary: c) (simp_all add: add_resource_def)

text \<open>
  Reading back what the builder writes. When a file holds the documents as the builder
  joins them in its artifact, the client reads exactly these resources for either step,
  in order and each ended by a line break; blank documents are left out.
\<close>

lemma resources_read_back:
  assumes "os_ReadFile E f = Inr (artifact_data res)"
    and "\<forall>r \<in> set res. \<not> contains (ended r) manifest_sep"
  shows "parseResources E f ''install'' c = (Ret None,
      c\<lparr>installResources := installResources c @ map ended (filter (\<lambda>r. TrimSpace r \<noteq> []) res)\<rparr>) \<and>
    parseResources E f ''prereqs'' c = (Ret None,
      c\<lparr>prereqResources := prereqResources c @ map ended (filter (\<lambda>r. TrimSpace r \<noteq> []) res)\<rparr>)"
proof -
  have nil: "TrimSpace [] = []" by (simp add: TrimSpace_def)
  have "filter (\<lambda>r. TrimSpace r \<noteq> []) (map ended res) = map ended (filter (\<lambda>r. TrimSpace r \<noteq> []) res)"
    by (simp add: filter_map o_def TrimSpace_ended)
  then show ?thesis
    using assms(1) Split_documents [OF assms(2)]
    by (simp add: parseResources_def artifact_data_concat fold_add_resource_install fold_add_resource_prereqs
        add_resource_def nil)
qed

definition file_os :: os_lib where
  "file_os = \<lparr>os_Getenv = (\<lambda>_. ''/home''), filepath_Join = (\<lambda>a b. a @ ''/'' @ b),
     os_Stat = (\<lambda>p. Inr \<lparr>fi_Name = p, fi_IsDir = False\<rparr>), os_ReadDir = (\<lambda>_. Inr []),
     os_ReadFile = (\<lambda>_. Inr (artifact_data [''a: 1'']))\<rparr>"

section \<open>The instance\<close>

text \<open>A client with one stored object, for the witnesses.\<close>

definition mem_client :: "json gomap option client_lib" where
  "mem_client = \<lparr>c_json_MarshalIndent = (\<lambda>k a. Inr (GetName a)), c_json_Marshal = (\<lambda>k a. Inr (GetName a)),
     c_json_UnmarshalMap = (\<lambda>s. Inr [(''name'', JStr s)]), c_yaml_Marshal = (\<lambda>h u. Inr ''workflow''),
     client_objects = heap_objects, client_NewForConfigOrDie = None,
     client_Get = (\<lambda>g ns n w. case w of None \<Rightarrow> Inl (GoErr ReasonNotFound ''not found'') | Some m \<Rightarrow> Inr m),
     client_Update = (\<lambda>g ns m w. (None, Some m)), client_Create = (\<lambda>g ns m w. (None, Some m)),
     u_GetResourceVersion = (\<lambda>m. ''1''), u_SetResourceVersion = (\<lambda>v m. AList.update ''version'' (JStr v) m)\<rparr>"

lemma step_template_no_scripts:
  "step_template \<rho> L [] res =
     gbind (resources_workflow (client_objects L) res) (ConvertUnstructuredWorkflowToString (c_yaml_Marshal L))"
proof -
  have "gbind (builder_Scripts \<rho> [] wb) f = f wb" for wb and f :: "workflowBuilder \<Rightarrow> (wb_state, string) gom"
    by (rule ext) (simp add: gbind_def)
  then show ?thesis by (simp add: step_template_def resources_workflow_def gbind_assoc)
qed

lemma Convert_state: "snd (ConvertUnstructuredWorkflowToString M u s) = s"
  by (simp add: ConvertUnstructuredWorkflowToString_def gbind_def split: sum.split)

lemma resources_workflow_ok:
  assumes "object_law B" and "hconf (wb_heap s)"
  shows "returns (resources_workflow B res) s (\<lambda>ob s'. hconf (wb_heap s') \<and> doDelete s' = doDelete s)"
  by (rule returns_mono [OF resources_workflow_returns [OF assms]]) (auto simp: wb_keeps_def)

text \<open>A template is only made when there is no script.\<close>

lemma step_template_Ret:
  assumes "object_law (client_objects L)" and "hconf (wb_heap s)" and "rng_ok \<rho>"
    and run: "step_template \<rho> L scripts res s = (Ret t, s')"
  shows "scripts = [] \<and> hconf (wb_heap s') \<and> doDelete s' = doDelete s"
proof -
  let ?wb = "new_builder (nxt (wb_heap s))" and ?s = "s\<lparr>wb_heap := with_builder (wb_heap s)\<rparr>"
  have conf: "hconf (wb_heap ?s)" "wb_conf (wb_heap ?s) ?wb"
    using New_conf [OF assms(2)] by simp_all
  have none: "scripts = []"
  proof (rule ccontr)
    assume "scripts \<noteq> []"
    then obtain s1 where "builder_Scripts \<rho> scripts ?wb ?s = (Panic scripts_panic, s1)"
      using Scripts_panics [OF conf assms(3)] by blast
    then show False using run by (simp add: step_template_def builder_New_eq gbind_def)
  qed
  obtain ob s1 where r: "resources_workflow (client_objects L) res s = (Ret ob, s1)"
    "hconf (wb_heap s1)" "doDelete s1 = doDelete s"
    using resources_workflow_ok [OF assms(1,2), of res] by (blast elim: returnsE)
  have "s' = s1"
    using run r(1) Convert_state [of "c_yaml_Marshal L" ob s1]
    by (simp add: none step_template_no_scripts gbind_def)
  then show ?thesis using none r by simp
qed

lemma set_params_Ret:
  assumes "rng_ok \<rho>" and "set_params \<rho> ps c = (Ret (), c')"
  shows "ps = None \<or> ps = Some []"
proof (rule ccontr)
  assume "\<not> (ps = None \<or> ps = Some [])"
  then obtain m where m: "ps = Some m" "m \<noteq> []" by (cases ps) auto
  have "gm_range \<rho> m \<noteq> []"
    using gm_range_keys [OF assms(1), of m] rng_ok_set [OF assms(1), of "map fst m"] m(2)
    by (metis list.map_disc_iff set_empty)
  then show False using assms(2) m by (cases "gm_range \<rho> m") (auto simp: set_params_def gbind_def)
qed

lemma with_builders_Ret:
  "with_builders m c = (Ret a, d) \<longleftrightarrow> (\<exists>b. m (cli_builders c) = (Ret a, b) \<and> d = c\<lparr>cli_builders := b\<rparr>)"
  by (auto simp: with_builders_def split: prod.splits)

lemma build_instance_Ret:
  assumes law: "object_law (client_objects L)" "hconf (wb_heap (cli_builders c))" "rng_ok \<rho>"
    and run: "build_instance \<rho> L c = (Ret a, c')"
  shows "(params c = None \<or> params c = Some []) \<and> prereqScripts c = [] \<and> installScripts c = []"
proof -
  obtain c1 p b2 i b3 where 1: "set_params \<rho> (params c) c = (Ret (), c1)"
    and 2: "step_template \<rho> L (prereqScripts c) (prereqResources c) (cli_builders c1) = (Ret p, b2)"
    and 3: "step_template \<rho> L (installScripts c) (installResources c) b2 = (Ret i, b3)"
    using run by (auto simp: build_instance_def gbind_RetD with_builders_Ret)
  have "c1 = c" using set_params_state [of \<rho> "params c" c] by (simp add: 1)
  then show ?thesis
    using set_params_Ret [OF law(3) 1] step_template_Ret [OF law 2 [unfolded \<open>c1 = c\<close>]]
      step_template_Ret [OF law(1) _ law(3) 3] by simp
qed

lemma keeps_params:
  "params (snd (extractResources \<rho> E p i c)) = params c"
  "params (snd (parseDependencies raw c)) = params c"
  "params (snd (parseSecrets raw c)) = params c"
  "params (snd (parseSelector sel c)) = params c"
  "params (snd (validatePkgType pt c)) = params c"
proof -
  have res: "params (fold (add_resource st) rs d) = params d" for st rs and d :: "'a cli"
    by (induction rs arbitrary: d) (simp_all add: add_resource_def)
  have fil: "params (snd (extract_file E st n sc q d)) = params d" for st n sc q and d :: "'a cli"
    by (simp add: extract_file_def parseResources_def add_script_file_def res split: sum.split)
  have step: "params (snd (extract_step E sp d)) = params c" if "params d = params c" for sp and d :: "'a cli"
    using that by (auto simp: extract_step_def Let_def split_def fil
        intro: efor_inv [of "\<lambda>d. params d = params c"] split: sum.split)
  show "params (snd (extractResources \<rho> E p i c)) = params c"
    unfolding extractResources_def
    by (rule efor_inv [of "\<lambda>d. params d = params c"]) (simp_all add: step)
  show "params (snd (parseDependencies raw c)) = params c"
    by (auto simp: parseDependencies_def parse_dependency_eq store_dep_def Let_def
        intro: efor_inv [of "\<lambda>d. params d = params c"])
qed (simp_all add: parseSecrets_def parseSelector_def validatePkgType_def Let_def)

lemma params_parsed_nonempty:
  assumes "params c = Some m" and "raw \<noteq> []" and "parseAddonParams raw c = (Ret None, c')"
  shows "\<exists>m'. params c' = Some m' \<and> m' \<noteq> []"
proof -
  have ne: "AList.update k v xs \<noteq> []" for k v and xs :: "string gomap" by (cases xs) auto
  have fold_ne: "fold (\<lambda>i. AList.update (f i) (g i)) is xs \<noteq> []" if "is \<noteq> [] \<or> xs \<noteq> []"
    for f g and "is" :: "string list" and xs :: "string gomap"
    using that by (induction "is" arbitrary: xs) (auto simp: ne)
  let ?c = "c\<lparr>cli_out := cli_out c @ [''Parsing addon params...'']\<rparr>"
  have "efor (parse_param raw) (Split raw '','') ?c = (Ret None, c')"
    using assms(2,3) by (simp add: parseAddonParams_def)
  then show ?thesis
    using efor_params [of ?c m "Split raw '',''" raw] assms(1) fold_ne by (auto split: if_splits)
qed

lemma parseAllArgs_None:
  assumes "params c = Some m" and "parseAllArgs \<rho> E c = (Ret None, c')"
  shows "(if paramsRaw c = [] then params c' = None else \<exists>m'. params c' = Some m' \<and> m' \<noteq> []) \<and>
    pkgType c \<in> {HelmPkg, ShipPkg, KustomizePkg, CnabPkg, CompositePkg}"
proof -
  let ?c = "c\<lparr>cli_out := cli_out c @ [''Parsing all args'']\<rparr>"
  obtain c1 c2 c3 c4 c5 where 1: "extractResources \<rho> E (prereqs c) (install c) ?c = (Ret None, c1)"
    and 2: "parseAddonParams (paramsRaw c) c1 = (Ret None, c2)"
    and 3: "parseDependencies (dependencies c) c2 = (Ret None, c3)"
    and 4: "parseSecrets (secretsRaw c) c3 = (Ret None, c4)"
    and 5: "parseSelector (selector c) c4 = (Ret None, c5)"
    and 6: "validatePkgType (pkgType c) c5 = (Ret None, c')"
    using assms(2) by (auto simp: parseAllArgs_def ethen_RetNone)
  have p1: "params c1 = Some m" using keeps_params(1) [of \<rho> E "prereqs c" "install c" ?c] 1 assms(1) by simp
  have p2: "params c' = params c2"
    using keeps_params(2) [of "dependencies c" c2] keeps_params(3) [of "secretsRaw c" c3]
      keeps_params(4) [of "selector c" c4] keeps_params(5) [of "pkgType c" c5] 3 4 5 6 by simp
  have "params c2 = None" if "paramsRaw c = []"
    using 2 that by (auto simp: parseAddonParams_def)
  moreover have "\<exists>m'. params c2 = Some m' \<and> m' \<noteq> []" if "paramsRaw c \<noteq> []"
    by (rule params_parsed_nonempty [OF p1 that 2])
  moreover have "pkgType c \<in> {HelmPkg, ShipPkg, KustomizePkg, CnabPkg, CompositePkg}"
    using 6 by (auto simp: validatePkgType_def split: if_splits)
  ultimately show ?thesis using p2 by simp
qed

text \<open>The command itself changes nothing but the output, the builders and the API.\<close>

definition cli_core :: "'w cli \<Rightarrow> string \<times> string gomap \<times> string gomap" where
  "cli_core c = (addonName c, prereqScripts c, installScripts c)"

lemma cli_core_upd [simp]:
  "cli_core (c\<lparr>cli_out := out\<rparr>) = cli_core c" "cli_core (c\<lparr>cli_api := w\<rparr>) = cli_core c"
  "cli_core (c\<lparr>cli_builders := b\<rparr>) = cli_core c"
  by (simp_all add: cli_core_def)

lemma create_Run_frame:
  assumes "create_Run \<rho> L c = (r, c')"
  shows "addonName c' = addonName c" "prereqScripts c' = prereqScripts c" "installScripts c' = installScripts c"
proof -
  have pp: "cli_core e = cli_core d" if "prettyPrint L a d = (q, e)" for a d q e
    using that by (auto simp: prettyPrint_def split: sum.splits)
  have sub: "cli_core (snd (submit_instance L a d)) = cli_core d" for a d
    by (auto simp: submit_instance_def api_call_def Let_def split: option.split sum.split prod.split)
  have "cli_core (snd (build_instance \<rho> L c)) = cli_core c"
    using build_instance_frame [of c \<rho> L] by (auto simp: same_but_builders_def)
  then have "cli_core (snd (create_Run \<rho> L c)) = cli_core c"
    unfolding create_Run_def
    by (auto simp: gbind_def sub split: prod.split outcome.split dest: pp)
  then show "addonName c' = addonName c" "prereqScripts c' = prereqScripts c" "installScripts c' = installScripts c"
    using assms by (simp_all add: cli_core_def)
qed

text \<open>\<open>yaml.Marshal\<close> fails only for values it has no form for; maps, slices and strings have one.\<close>

definition yaml_total :: "'w client_lib \<Rightarrow> bool" where
  "yaml_total L \<longleftrightarrow> (\<forall>h u. \<exists>y. c_yaml_Marshal L h u = Inr y)"

lemma step_template_returns:
  assumes "object_law (client_objects L)" and "yaml_total L" and "hconf (wb_heap s)" and "\<not> doDelete s"
  shows "\<exists>t s' u. step_template \<rho> L [] res s = (Ret t, s') \<and> hconf (wb_heap s') \<and> \<not> doDelete s' \<and>
    resources_shape (wb_heap s') u res \<and> c_yaml_Marshal L (wb_heap s') u = Inr t"
proof -
  obtain u s' where r: "resources_workflow (client_objects L) res s = (Ret u, s')"
    "hconf (wb_heap s')" "doDelete s' = doDelete s"
    using resources_workflow_ok [OF assms(1,3), of res] by (blast elim: returnsE)
  have "resources_shape (wb_heap s') u res"
    using resources_workflow_gives_shape [OF assms(1,3,4), of res] r(1) by (simp add: returns_Ret)
  moreover obtain t where "c_yaml_Marshal L (wb_heap s') u = Inr t"
    using assms(2) by (auto simp: yaml_total_def)
  ultimately show ?thesis
    using r assms(4)
    by (auto simp: step_template_no_scripts gbind_def ConvertUnstructuredWorkflowToString_def)
qed

lemma delete_template_returns:
  assumes "object_law (client_objects L)" and "yaml_total L" and "hconf (wb_heap s)"
  shows "\<exists>t s' u. delete_template L s = (Ret t, s') \<and> delete_shape (wb_heap s') u \<and>
    c_yaml_Marshal L (wb_heap s') u = Inr t"
proof -
  let ?m = "gbind builder_New (\<lambda>wb. gbind (builder_Delete wb) (builder_Build (client_objects L)))"
  obtain u s' where r: "?m s = (Ret u, s')" "delete_shape (wb_heap s') u"
    using delete_workflow_gives_shape [OF assms(1,3)] by (blast elim: returnsE)
  obtain t where "c_yaml_Marshal L (wb_heap s') u = Inr t" using assms(2) by (auto simp: yaml_total_def)
  moreover have "delete_template L = gbind ?m (ConvertUnstructuredWorkflowToString (c_yaml_Marshal L))"
    by (simp add: delete_template_def gbind_assoc)
  ultimately show ?thesis
    using r by (auto simp: gbind_def ConvertUnstructuredWorkflowToString_def)
qed

text \<open>The instance that is built: its templates are the texts of these workflows.\<close>

definition templates_ok :: "'w client_lib \<Rightarrow> 'w cli \<Rightarrow> Addon \<Rightarrow> bool" where
  "templates_ok L c a \<longleftrightarrow> (\<exists>p i d.
     a = with_templates p i d (cli_instance c) \<and>
     (\<exists>h u. resources_shape h u (prereqResources c) \<and> c_yaml_Marshal L h u = Inr p) \<and>
     (\<exists>h u. resources_shape h u (installResources c) \<and> c_yaml_Marshal L h u = Inr i) \<and>
     (\<exists>h u. delete_shape h u \<and> c_yaml_Marshal L h u = Inr d))"

lemma set_params_none: "rng_ok \<rho> \<Longrightarrow> ps = None \<or> ps = Some [] \<Longrightarrow> set_params \<rho> ps c = (Ret (), c)"
proof -
  assume "ps = None \<or> ps = Some []"
  moreover have "gm_range \<rho> ([] :: string gomap) = []" by (simp add: gm_range_def List.map_filter_def)
  ultimately show ?thesis by (auto simp: set_params_def)
qed

lemma build_instance_ok:
  assumes "object_law (client_objects L)" and "yaml_total L" and "hconf (wb_heap (cli_builders c))"
    and "\<not> doDelete (cli_builders c)" and "rng_ok \<rho>" and "params c = None \<or> params c = Some []"
    and "prereqScripts c = []" and "installScripts c = []"
  shows "\<exists>a c'. build_instance \<rho> L c = (Ret a, c') \<and> same_but_builders c c' \<and> templates_ok L c a"
proof -
  obtain p b1 u1 where 1: "step_template \<rho> L [] (prereqResources c) (cli_builders c) = (Ret p, b1)"
    "hconf (wb_heap b1)" "\<not> doDelete b1" "resources_shape (wb_heap b1) u1 (prereqResources c)"
    "c_yaml_Marshal L (wb_heap b1) u1 = Inr p"
    using step_template_returns [OF assms(1-4)] by blast
  obtain i b2 u2 where 2: "step_template \<rho> L [] (installResources c) b1 = (Ret i, b2)"
    "hconf (wb_heap b2)" "resources_shape (wb_heap b2) u2 (installResources c)"
    "c_yaml_Marshal L (wb_heap b2) u2 = Inr i"
    using step_template_returns [OF assms(1,2) 1(2,3)] by blast
  obtain d b3 u3 where 3: "delete_template L b2 = (Ret d, b3)" "delete_shape (wb_heap b3) u3"
    "c_yaml_Marshal L (wb_heap b3) u3 = Inr d"
    using delete_template_returns [OF assms(1,2) 2(2)] by blast
  have "build_instance \<rho> L c = (Ret (with_templates p i d (cli_instance c)), c\<lparr>cli_builders := b3\<rparr>)"
    using 1(1) 2(1) 3(1) set_params_none [OF assms(5,6), of c] assms(7,8)
    by (simp add: build_instance_def gbind_def with_builders_def)
  moreover have "same_but_builders c (c\<lparr>cli_builders := b3\<rparr>)" by (auto simp: same_but_builders_def)
  moreover have "templates_ok L c (with_templates p i d (cli_instance c))"
    unfolding templates_ok_def using 1(4,5) 2(3,4) 3(2,3) by blast
  ultimately show ?thesis by blast
qed


lemma empty_create:
  "\<exists>c'. create_command (\<lambda>ks. ks) file_os mem_client [''core''] ((start_cli w)\<lparr>pkgType := HelmPkg\<rparr>) = (Ret None, c')"
proof -
  let ?c0 = "(start_cli w)\<lparr>pkgType := HelmPkg, addonName := ''core''\<rparr>"
  have "create_Args [''core''] ((start_cli w)\<lparr>pkgType := HelmPkg\<rparr>) = (Ret None, ?c0)"
    by (simp add: create_Args_def gbind_def is_alpha_def between_def start_cli_def)
  moreover obtain out where p: "parseAllArgs (\<lambda>ks. ks) file_os ?c0 = (Ret None, ?c0\<lparr>params := None, cli_out := out\<rparr>)"
    by (simp add: parseAllArgs_def extractResources_def gm_range_def List.map_filter_def extract_step_def
        parseAddonParams_def parseDependencies_def parseSecrets_def parseSelector_def validatePkgType_def
        ethen_def gbind_def start_cli_def HelmPkg_def)
  moreover have "\<exists>c'. create_Run (\<lambda>ks. ks) mem_client (?c0\<lparr>params := None, cli_out := out\<rparr>) = (Ret (), c')"
  proof -
    let ?c = "?c0\<lparr>params := None, cli_out := out\<rparr>"
    have L: "object_law (client_objects mem_client)" "yaml_total mem_client" "hconf (wb_heap (cli_builders ?c))"
      "\<not> doDelete (cli_builders ?c)"
      using heap_objects_law wb_reach_conf [OF heap_objects_law reach_start]
      by (simp_all add: mem_client_def yaml_total_def start_cli_def) (simp add: wb_start_def)
    obtain a c' where b: "build_instance (\<lambda>ks. ks) mem_client ?c = (Ret a, c')" "same_but_builders ?c c'"
      using build_instance_ok [OF L rng_ok_id] by (auto simp: start_cli_def)
    then have "\<not> dryRun c'" using same_but_builders_fields(2) [OF b(2)] by (simp add: start_cli_def)
    then show ?thesis
      using b(1) by (auto simp: create_Run_def gbind_def submit_instance_def mem_client_def api_call_def split: option.split)
  qed
  ultimately show ?thesis by (auto simp: create_command_def ethen_def gbind_def)
qed


definition json_total :: "'w client_lib \<Rightarrow> bool" where
  "json_total L \<longleftrightarrow> (\<forall>a. \<exists>b m. c_json_Marshal L addon_kind a = Inr b \<and> c_json_UnmarshalMap L b = Inr m)"

lemma api_call_returns: "\<exists>c'. api_call f c = (Ret (), c') \<and> cli_api c' = snd (f (cli_api c))"
proof -
  obtain err w where "f (cli_api c) = (err, w)" by (cases "f (cli_api c)")
  then show ?thesis by (cases err) (simp_all add: api_call_def)
qed

lemma submit_instance_call:
  assumes "client_NewForConfigOrDie L = None"
    and "c_json_Marshal L addon_kind a = Inr b" and "c_json_UnmarshalMap L b = Inr m"
  shows "\<exists>c'. submit_instance L a c = (Ret (), c') \<and>
    cli_api c' = (case client_Get L AddonGVR ''addon-manager-system'' (addonName c) (cli_api c) of
         Inr ob \<Rightarrow> snd (client_Update L AddonGVR ''addon-manager-system''
                     (u_SetResourceVersion L (u_GetResourceVersion L ob) m) (cli_api c))
       | Inl e \<Rightarrow> snd (client_Create L AddonGVR ''addon-manager-system'' m (cli_api c)))"
proof -
  define g where "g = (case client_Get L AddonGVR ''addon-manager-system'' (addonName c) (cli_api c) of
         Inr ob \<Rightarrow> client_Update L AddonGVR ''addon-manager-system'' (u_SetResourceVersion L (u_GetResourceVersion L ob) m)
       | Inl e \<Rightarrow> client_Create L AddonGVR ''addon-manager-system'' m)"
  obtain out where "submit_instance L a c = api_call g (c\<lparr>cli_out := out\<rparr>)"
    using assms by (cases "client_Get L AddonGVR ''addon-manager-system'' (addonName c) (cli_api c)")
      (auto simp: submit_instance_def Let_def addonMgrSystemNamespace_def g_def)
  then show ?thesis
    using api_call_returns [of g "c\<lparr>cli_out := out\<rparr>"] by (auto simp: g_def split: sum.splits)
qed

text \<open>
  What create submits. Without parameters and scripts, and with libraries that can render
  the addon, the command does not panic. The addon has the name, package and parameters of the
  flags, its prereqs and install templates are the workflows of their resources and its
  delete template is the delete workflow, although \<open>Delete\<close> changes the mode of all builders: it is
  called last. The object is updated, with the resource version that was read, when the
  API returned one, and created when reading it failed for any reason.
\<close>

lemma create_submits:
  assumes "object_law (client_objects L)" and "yaml_total L" and "json_total L"
    and "wb_reach (client_objects L) bs (cli_builders c)" and "\<not> doDelete (cli_builders c)" and "rng_ok \<rho>"
    and "params c = None \<or> params c = Some []" and "prereqScripts c = []" and "installScripts c = []"
    and "\<not> dryRun c" and "client_NewForConfigOrDie L = None"
  shows "\<exists>a b m c'. create_Run \<rho> L c = (Ret (), c') \<and> templates_ok L c a \<and>
    c_json_Marshal L addon_kind a = Inr b \<and> c_json_UnmarshalMap L b = Inr m \<and>
    cli_api c' =
      (case client_Get L AddonGVR ''addon-manager-system'' (addonName c) (cli_api c) of
         Inr ob \<Rightarrow> snd (client_Update L AddonGVR ''addon-manager-system''
                     (u_SetResourceVersion L (u_GetResourceVersion L ob) m) (cli_api c))
       | Inl e \<Rightarrow> snd (client_Create L AddonGVR ''addon-manager-system'' m (cli_api c)))"
proof -
  have conf: "hconf (wb_heap (cli_builders c))" using wb_reach_conf [OF assms(1,4)] by blast
  obtain a d where b: "build_instance \<rho> L c = (Ret a, d)" "same_but_builders c d" "templates_ok L c a"
    using build_instance_ok [OF assms(1,2) conf assms(5-9)] by blast
  obtain bs' m where j: "c_json_Marshal L addon_kind a = Inr bs'" "c_json_UnmarshalMap L bs' = Inr m"
    using assms(3) unfolding json_total_def by blast
  note f = same_but_builders_fields [OF b(2)]
  let ?d = "d\<lparr>cli_out := cli_out d @ [''false'']\<rparr>"
  have run: "create_Run \<rho> L c = submit_instance L a ?d"
    using b(1) f(2) assms(10) by (simp add: create_Run_def gbind_def)
  have d: "cli_api ?d = cli_api c" "addonName ?d = addonName c" using f(1,3) by simp_all
  have "\<exists>c'. submit_instance L a ?d = (Ret (), c') \<and>
    cli_api c' = (case client_Get L AddonGVR ''addon-manager-system'' (addonName c) (cli_api c) of
         Inr ob \<Rightarrow> snd (client_Update L AddonGVR ''addon-manager-system''
                     (u_SetResourceVersion L (u_GetResourceVersion L ob) m) (cli_api c))
       | Inl e \<Rightarrow> snd (client_Create L AddonGVR ''addon-manager-system'' m (cli_api c)))"
    using submit_instance_call [OF assms(11) j, of ?d] unfolding d .
  then show ?thesis using b(3) j unfolding run [symmetric] by blast
qed

end
