(* ===== verification/Root_Command.thy ===== *)
theory Root_Command
  imports Addonctl Command_Flags
begin

text \<open>
  The root command of the command-line client (\<open>newRootCommand\<close> and \<open>Execute\<close> of \<^verbatim>\<open>pkg/addonctl/addonctl.go\<close>):
  without a configuration for the API it has neither flags nor subcommands; otherwise the flags are
  declared, each bound to its package variable, and \<open>create\<close> is added. Commands are cobra's, an argument.
  The lemmas show what is declared, that a client without a configuration never reaches \<open>create\<close>, and that
  none of the flags that the code marks as required is.
\<close>

section \<open>The version\<close>

text \<open>The variables of the package \<open>version\<close> have these values unless the build sets them.\<close>

record build_info =
  Version_var :: string
  GitCommit :: string
  BuildDate :: string

definition default_build :: build_info where
  "default_build = \<lparr>Version_var = ''v0.10.0'', GitCommit = ''NONE'', BuildDate = ''UNKNOWN''\<rparr>"

definition build_text :: "build_info \<Rightarrow> string" where
  "build_text b = version_ToString (Version_var b) (GitCommit b) (BuildDate b)"

section \<open>The command\<close>

text \<open>
  A command is made of its use, short description and version; a flag is bound to a variable by the function
  that stores its value, with its name, shorthand and usage; a subcommand is given by what it runs.
\<close>

record ('c, 'w) cobra_lib =
  new_Command :: "string \<Rightarrow> string \<Rightarrow> string \<Rightarrow> 'c"
  PersistentStringVarP :: "(string \<Rightarrow> 'w cli \<Rightarrow> 'w cli) \<Rightarrow> string \<Rightarrow> string \<Rightarrow> string \<Rightarrow> 'c \<Rightarrow> 'c"
  PersistentBoolVar :: "(bool \<Rightarrow> 'w cli \<Rightarrow> 'w cli) \<Rightarrow> string \<Rightarrow> string \<Rightarrow> 'c \<Rightarrow> 'c"
  MarkFlagRequired :: "string \<Rightarrow> 'c \<Rightarrow> goerr option \<times> 'c"
  AddCommand :: "string \<Rightarrow> string \<Rightarrow> (string list \<Rightarrow> ('w cli, goerr option) gom) \<Rightarrow> 'c \<Rightarrow> 'c"
  cobra_Execute :: "'c \<Rightarrow> string list \<Rightarrow> ('w cli, goerr option) gom"

text \<open>The flags in the order of the code, with the variable, and whether the code marks them as required.\<close>

record 'w root_flag =
  rf_store :: "string \<Rightarrow> 'w cli \<Rightarrow> 'w cli"
  rf_name :: string
  rf_short :: string
  rf_usage :: string
  rf_required :: bool

definition string_flag ::
    "(string \<Rightarrow> 'w cli \<Rightarrow> 'w cli) \<Rightarrow> string \<Rightarrow> string \<Rightarrow> string \<Rightarrow> bool \<Rightarrow> 'w root_flag" where
  "string_flag store name short usage required =
     \<lparr>rf_store = store, rf_name = name, rf_short = short, rf_usage = usage, rf_required = required\<rparr>"

definition root_flags :: "'w root_flag list" where
  "root_flags =
     [string_flag (\<lambda>v. clusterName_update (\<lambda>_. v)) ''cluster-name'' [] ''Name of the cluster context being used'' True,
      string_flag (\<lambda>v. clusterRegion_update (\<lambda>_. v)) ''cluster-region'' [] ''Cluster region'' True,
      string_flag (\<lambda>v. description_update (\<lambda>_. v)) ''desc'' [] ''Description of the addon'' False,
      string_flag (\<lambda>v. dependencies_update (\<lambda>_. v)) ''deps'' []
        (''Comma separated dependencies list in the format '' @ squoted ''pkgName:pkgVersion'') False,
      string_flag (\<lambda>v. pkgChannel_update (\<lambda>_. v)) ''channel'' ''c'' ''Channel for the addon package'' True,
      string_flag (\<lambda>v. pkgType_update (\<lambda>_. v)) ''type'' ''t'' ''Addon package type'' True,
      string_flag (\<lambda>v. pkgVersion_update (\<lambda>_. v)) ''version'' ''v'' ''Addon package version'' True,
      string_flag (\<lambda>v. secretsRaw_update (\<lambda>_. v)) ''secrets'' []
        ''Comma separated list of secret names which are validated as part ofthe addon-manager-system namespace'' False,
      string_flag (\<lambda>v. selector_update (\<lambda>_. v)) ''selector'' [] ''Selector applied to all resources?'' False,
      string_flag (\<lambda>v. namespace_update (\<lambda>_. v)) ''namespace'' ''n'' ''Namespace where the addon will be deployed'' True,
      string_flag (\<lambda>v. paramsRaw_update (\<lambda>_. v)) ''params'' ''p'' ''Params to supply to the resource yaml'' False,
      string_flag (\<lambda>v. prereqs_update (\<lambda>_. v)) ''prereqs'' []
        ''File or directory of resource yaml to submit as prereqs step'' False,
      string_flag (\<lambda>v. install_update (\<lambda>_. v)) ''install'' []
        ''File or directory of resource yaml to submit as install step'' False]"

text \<open>The error of \<open>MarkFlagRequired\<close> is dropped.\<close>

definition declare_flag :: "('c, 'w) cobra_lib \<Rightarrow> 'w root_flag \<Rightarrow> 'c \<Rightarrow> 'c" where
  "declare_flag C f cmd =
     (let cmd1 = PersistentStringVarP C (rf_store f) (rf_name f) (rf_short f) (rf_usage f) cmd
      in if rf_required f then snd (MarkFlagRequired C (rf_name f) cmd1) else cmd1)"

definition newRootCommand ::
    "('c, 'w) cobra_lib \<Rightarrow> goerr option \<Rightarrow> build_info \<Rightarrow> order \<Rightarrow> os_lib \<Rightarrow> 'w client_lib \<Rightarrow> ('w cli, 'c) gom" where
  "newRootCommand C GetConfig build \<rho> E L =
     (let rootCmd = new_Command C ''addonctl'' ''A control plane for managing addons'' (build_text build)
      in case GetConfig of
           Some err \<Rightarrow> gbind (Println (Error err)) (\<lambda>_. gret rootCmd)
         | None \<Rightarrow>
             (let rootCmd1 = fold (declare_flag C) root_flags rootCmd;
                  rootCmd2 = PersistentBoolVar C (\<lambda>v. dryRun_update (\<lambda>_. v)) ''dryrun''
                    ''Outputs the addon spec but doesn't submit'' rootCmd1
              in gret (AddCommand C ''create'' ''Create the addon resource with the supplied arguments''
                   (create_command \<rho> E L) rootCmd2)))"

text \<open>The exit code.\<close>

definition Execute_root ::
    "('c, 'w) cobra_lib \<Rightarrow> goerr option \<Rightarrow> build_info \<Rightarrow> order \<Rightarrow> os_lib \<Rightarrow> 'w client_lib \<Rightarrow> string list \<Rightarrow> ('w cli, nat) gom" where
  "Execute_root C GetConfig build \<rho> E L args =
     gbind (newRootCommand C GetConfig build \<rho> E L) (\<lambda>root.
       gbind (cobra_Execute C root args) (\<lambda>err. gret (if err \<noteq> None then 1 else 0)))"

definition addonctl_main ::
    "('c, 'w) cobra_lib \<Rightarrow> goerr option \<Rightarrow> build_info \<Rightarrow> order \<Rightarrow> os_lib \<Rightarrow> 'w client_lib \<Rightarrow> string list \<Rightarrow> ('w cli, nat) gom" where
  "addonctl_main C GetConfig build \<rho> E L args = Execute_root C GetConfig build \<rho> E L args"

section \<open>What cobra promises\<close>

text \<open>
  \<open>MarkFlagRequired\<close> is about the local flags of a command, of which a new one has none and which persistent
  flags are not; for a flag that is not there it reports an error and changes nothing.
\<close>

definition cobra_law :: "('c, 'w) cobra_lib \<Rightarrow> ('c \<Rightarrow> string set) \<Rightarrow> ('c \<Rightarrow> string set) \<Rightarrow> bool" where
  "cobra_law C local_flags required \<longleftrightarrow>
     (\<forall>u s v. local_flags (new_Command C u s v) = {} \<and> required (new_Command C u s v) = {}) \<and>
     (\<forall>st n sh us c. local_flags (PersistentStringVarP C st n sh us c) = local_flags c \<and>
        required (PersistentStringVarP C st n sh us c) = required c) \<and>
     (\<forall>st n us c. required (PersistentBoolVar C st n us c) = required c) \<and>
     (\<forall>n c. n \<notin> local_flags c \<longrightarrow> fst (MarkFlagRequired C n c) \<noteq> None \<and> snd (MarkFlagRequired C n c) = c) \<and>
     (\<forall>u s run c. required (AddCommand C u s run c) = required c)"

lemma declare_flags:
  assumes "cobra_law C local_flags required" and "local_flags c = {}"
  shows "local_flags (fold (declare_flag C) fs c) = {} \<and> required (fold (declare_flag C) fs c) = required c"
  using assms(2)
proof (induction fs arbitrary: c)
  case (Cons f fs)
  have "local_flags (declare_flag C f c) = {} \<and> required (declare_flag C f c) = required c"
    using assms(1) Cons.prems by (simp add: cobra_law_def declare_flag_def Let_def)
  then show ?case using Cons.IH [of "declare_flag C f c"] by simp
qed simp

text \<open>So none of the flags that the code marks as required is.\<close>

lemma flags_not_required:
  assumes "cobra_law C local_flags required" and "newRootCommand C cfg build \<rho> E L s = (Ret root, s')"
  shows "required root = {}"
proof -
  let ?c = "new_Command C ''addonctl'' ''A control plane for managing addons'' (build_text build)"
  have "local_flags ?c = {}" "required ?c = {}" using assms(1) by (simp_all add: cobra_law_def)
  then have "required (fold (declare_flag C) root_flags ?c) = {}" using declare_flags [OF assms(1)] by blast
  then show ?thesis
    using assms \<open>required ?c = {}\<close>
    by (auto simp: newRootCommand_def Let_def gret_def cobra_law_def split: option.splits)
qed

section \<open>An instance\<close>

text \<open>Commands that remember their flags and subcommands; flags are not read.\<close>

record 'w simple_cmd =
  sc_local :: "string set"
  sc_persistent :: "string list"
  sc_required :: "string set"
  sc_commands :: "(string \<times> (string list \<Rightarrow> ('w cli, goerr option) gom)) list"

definition simple_cobra :: "('w simple_cmd, 'w) cobra_lib" where
  "simple_cobra =
     \<lparr>new_Command = (\<lambda>_ _ _. \<lparr>sc_local = {}, sc_persistent = [], sc_required = {}, sc_commands = []\<rparr>),
      PersistentStringVarP = (\<lambda>_ n _ _ c. c\<lparr>sc_persistent := sc_persistent c @ [n]\<rparr>),
      PersistentBoolVar = (\<lambda>_ n _ c. c\<lparr>sc_persistent := sc_persistent c @ [n]\<rparr>),
      MarkFlagRequired = (\<lambda>n c. if n \<in> sc_local c then (None, c\<lparr>sc_required := insert n (sc_required c)\<rparr>)
        else (Some (Errorf (''no such flag -'' @ n)), c)),
      AddCommand = (\<lambda>u _ run c. c\<lparr>sc_commands := sc_commands c @ [(u, run)]\<rparr>),
      cobra_Execute = (\<lambda>c args. case args of
          [] \<Rightarrow> gret None
        | a # rest \<Rightarrow> (case map_of (sc_commands c) a of
            None \<Rightarrow> gret (Some (Errorf (''unknown command '' @ a))) | Some run \<Rightarrow> run rest))\<rparr>"

lemma simple_cobra_law: "cobra_law simple_cobra sc_local sc_required"
  by (simp add: cobra_law_def simple_cobra_def)

section \<open>What the command does\<close>

text \<open>Without a configuration the error is printed and the command is bare, so nothing can be created.\<close>

lemma no_config_bare:
  "newRootCommand C (Some err) build \<rho> E L s =
     (Ret (new_Command C ''addonctl'' ''A control plane for managing addons'' (build_text build)), s\<lparr>cli_out := cli_out s @ [Error err]\<rparr>)"
  by (simp add: newRootCommand_def gret_def)

lemma no_config_no_create:
  "Execute_root simple_cobra (Some err) build \<rho> E L (''create'' # args) s = (Ret 1, s\<lparr>cli_out := cli_out s @ [Error err]\<rparr>)"
  by (simp add: Execute_root_def no_config_bare gbind_Ret [OF no_config_bare]) (simp add: simple_cobra_def gret_def gbind_def)

text \<open>With one, the root command is the create command of the model.\<close>

lemma simple_cobra_sel:
  "sc_commands (new_Command simple_cobra u sh v) = []"
  "sc_commands (PersistentStringVarP simple_cobra st n sh us c) = sc_commands c"
  "sc_commands (PersistentBoolVar simple_cobra bst n us c) = sc_commands c"
  "sc_commands (snd (MarkFlagRequired simple_cobra n c)) = sc_commands c"
  "sc_commands (AddCommand simple_cobra u sh run c) = sc_commands c @ [(u, run)]"
  "cobra_Execute simple_cobra c (a # rest) = (case map_of (sc_commands c) a of
     None \<Rightarrow> gret (Some (Errorf (''unknown command '' @ a))) | Some run \<Rightarrow> run rest)"
  by (simp_all add: simple_cobra_def)

lemma config_creates:
  "Execute_root simple_cobra None build \<rho> E L (''create'' # args) s = Execute \<rho> E L args s"
proof -
  have "sc_commands (fold (declare_flag simple_cobra) fs c) = sc_commands c" for fs :: "'a root_flag list" and c
    by (induction fs arbitrary: c) (simp_all add: declare_flag_def simple_cobra_sel Let_def)
  then show ?thesis
    by (simp add: Execute_root_def Execute_def newRootCommand_def gbind_def gret_def Let_def simple_cobra_sel)
qed

lemma root_flag_names:
  "map rf_name (root_flags :: 'w root_flag list) =
     [''cluster-name'', ''cluster-region'', ''desc'', ''deps'', ''channel'', ''type'', ''version'', ''secrets'', ''selector'',
      ''namespace'', ''params'', ''prereqs'', ''install'']"
  "map rf_name (filter rf_required (root_flags :: 'w root_flag list)) =
     [''cluster-name'', ''cluster-region'', ''channel'', ''type'', ''version'', ''namespace'']"
  by (simp_all add: root_flags_def string_flag_def)

end
