(* ===== verification/Deep_Copy.thy ===== *)
theory Deep_Copy
  imports Addon_Types
begin

text \<open>
  The deep copies of \<^verbatim>\<open>api/addon/v1alpha1/zz_generated.deepcopy.go\<close> on an explicit store. A struct
  that holds maps or slices is a record that holds addresses; the store maps addresses to the
  contents of the maps and of the backing arrays of the slices (a slice is the whole of its array).
  Every \<open>DeepCopyInto\<close> returns what it leaves in \<open>*out\<close> and the store. The interface
  \<open>deep_copy\<close> says what a copy promises: it denotes the same value as the original, everything it
  refers to is new, and nothing that was there before has changed. It is proved for each of the
  types, and its consequence is proved once: whatever is written through the copy leaves the
  original alone, and the other way round.
\<close>

section \<open>The store\<close>

text \<open>The address of a map or of an array, or \<open>nil\<close>.\<close>

type_synonym ref = "nat option"

record ClusterContext_ref =
  cr_ClusterName :: string
  cr_ClusterRegion :: string
  cr_AdditionalConfigs :: ref

record AddonParams_ref =
  pr_Namespace :: string
  pr_Context :: ClusterContext_ref
  pr_Data :: ref

record KustomizeTemplate_ref =
  tr_Template :: ref

record KustomizeSpec_ref =
  kr_Labels :: ref
  kr_Annotations :: ref
  kr_Resources :: ref
  kr_Overlay :: KustomizeTemplate_ref

record AddonOverridesSpec_ref =
  or_Kustomize :: KustomizeSpec_ref
  or_Template :: ref

record SecretCmdSpec_ref =
  sr_Name :: string
  sr_Cmd :: int64
  sr_Args :: ref

record PackageSpec_ref =
  gr_PkgChannel :: string
  gr_PkgName :: string
  gr_PkgVersion :: string
  gr_PkgType :: PackageType
  gr_PkgDescription :: string
  gr_PkgDeps :: ref

text \<open>
  The selector is the type \<open>'s\<close> of the library, as are the metadata \<open>'m\<close> of an object and
  \<open>'l\<close> of a list.
\<close>

record 's AddonSpec_ref =
  ar_PackageSpec :: PackageSpec_ref
  ar_Params :: AddonParams_ref
  ar_Selector :: 's
  ar_Overrides :: AddonOverridesSpec_ref
  ar_Secrets :: ref
  ar_Lifecycle :: LifecycleWorkflowSpec

record AddonStatus_ref =
  ur_Checksum :: string
  ur_Lifecycle :: AddonStatusLifecycle
  ur_Resources :: ref
  ur_Reason :: string
  ur_StartTime :: int64

record TypeMeta =
  TypeMeta_Kind :: string
  TypeMeta_APIVersion :: string

record ('m, 's) Addon_ref =
  xr_TypeMeta :: TypeMeta
  xr_ObjectMeta :: 'm
  xr_Spec :: "'s AddonSpec_ref"
  xr_Status :: AddonStatus_ref

record 'l AddonList_ref =
  lr_TypeMeta :: TypeMeta
  lr_ListMeta :: 'l
  lr_Items :: ref

text \<open>
  One part of the store for every type of contents (so that an address is typed, as it is in
  Go), one for what the library's types refer to, and the next free address.
\<close>

record ('m, 's, 'x) store =
  brk :: nat
  maps :: "nat \<rightharpoonup> string gomap"
  strs :: "nat \<rightharpoonup> string list"
  objs :: "nat \<rightharpoonup> ObjectStatus list"
  secs :: "nat \<rightharpoonup> SecretCmdSpec_ref list"
  addons :: "nat \<rightharpoonup> ('m, 's) Addon_ref list"
  libs :: "nat \<rightharpoonup> 'x"

text \<open>What a reference denotes; \<open>nil\<close> reads as empty.\<close>

definition deref :: "(nat \<rightharpoonup> 'c list) \<Rightarrow> ref \<Rightarrow> 'c list" where
  "deref h p = (case p of None \<Rightarrow> [] | Some a \<Rightarrow> (case h a of None \<Rightarrow> [] | Some c \<Rightarrow> c))"

text \<open>
  \<open>make(map[string]string, n)\<close> and an assignment to a key.
\<close>

definition new_map :: "('m, 's, 'x) store \<Rightarrow> nat \<times> ('m, 's, 'x) store" where
  "new_map s = (brk s, s\<lparr>brk := brk s + 1, maps := (maps s)(brk s \<mapsto> [])\<rparr>)"

definition map_assign :: "nat \<Rightarrow> string \<times> string \<Rightarrow> ('m, 's, 'x) store \<Rightarrow> ('m, 's, 'x) store" where
  "map_assign b kv s = s\<lparr>maps := (maps s)(b \<mapsto> AList.update (fst kv) (snd kv) (deref (maps s) (Some b)))\<rparr>"

text \<open>Writing an array of one of the four types of elements.\<close>

definition put_strs :: "nat \<Rightarrow> string list \<Rightarrow> ('m, 's, 'x) store \<Rightarrow> ('m, 's, 'x) store" where
  "put_strs b xs s = s\<lparr>strs := (strs s)(b \<mapsto> xs)\<rparr>"

definition put_objs :: "nat \<Rightarrow> ObjectStatus list \<Rightarrow> ('m, 's, 'x) store \<Rightarrow> ('m, 's, 'x) store" where
  "put_objs b xs s = s\<lparr>objs := (objs s)(b \<mapsto> xs)\<rparr>"

definition put_secs :: "nat \<Rightarrow> SecretCmdSpec_ref list \<Rightarrow> ('m, 's, 'x) store \<Rightarrow> ('m, 's, 'x) store" where
  "put_secs b xs s = s\<lparr>secs := (secs s)(b \<mapsto> xs)\<rparr>"

definition put_addons :: "nat \<Rightarrow> ('m, 's) Addon_ref list \<Rightarrow> ('m, 's, 'x) store \<Rightarrow> ('m, 's, 'x) store" where
  "put_addons b xs s = s\<lparr>addons := (addons s)(b \<mapsto> xs)\<rparr>"

text \<open>
  \<open>make([]T, n)\<close> with the zero value \<open>z\<close> of \<open>T\<close>, an assignment to the element \<open>i\<close>, and \<open>copy(dst, src)\<close>,
  which copies as many elements as both have.
\<close>

definition make_array ::
    "(nat \<Rightarrow> 'c list \<Rightarrow> ('m, 's, 'x) store \<Rightarrow> ('m, 's, 'x) store) \<Rightarrow> 'c \<Rightarrow> nat \<Rightarrow>
     ('m, 's, 'x) store \<Rightarrow> nat \<times> ('m, 's, 'x) store" where
  "make_array put z n s = (brk s, put (brk s) (replicate n z) (s\<lparr>brk := brk s + 1\<rparr>))"

definition elem_assign ::
    "(('m, 's, 'x) store \<Rightarrow> nat \<rightharpoonup> 'c list) \<Rightarrow> (nat \<Rightarrow> 'c list \<Rightarrow> ('m, 's, 'x) store \<Rightarrow> ('m, 's, 'x) store) \<Rightarrow>
     nat \<Rightarrow> nat \<Rightarrow> 'c \<Rightarrow> ('m, 's, 'x) store \<Rightarrow> ('m, 's, 'x) store" where
  "elem_assign get put b i c s = put b ((deref (get s) (Some b))[i := c]) s"

definition builtin_copy :: "'c list \<Rightarrow> 'c list \<Rightarrow> 'c list" where
  "builtin_copy dst src = take (length dst) src @ drop (length src) dst"

section \<open>The three kinds of copying blocks\<close>

text \<open>
  Each block starts from \<open>*out = *in\<close>, so a \<open>nil\<close> field is left as it is. A map is made and
  filled in the order of the \<open>range\<close>.
\<close>

definition copy_map :: "order \<Rightarrow> ref \<Rightarrow> ('m, 's, 'x) store \<Rightarrow> ref \<times> ('m, 's, 'x) store" where
  "copy_map \<rho> p s =
     (case p of
        None \<Rightarrow> (None, s)
      | Some a \<Rightarrow>
          (let (b, s1) = new_map s
           in (Some b, fold (map_assign b) (gm_range \<rho> (deref (maps s1) p)) s1)))"

text \<open>A slice of strings or of flat structs is made and filled by \<open>copy\<close>.\<close>

definition copy_flat ::
    "(('m, 's, 'x) store \<Rightarrow> nat \<rightharpoonup> 'c list) \<Rightarrow> (nat \<Rightarrow> 'c list \<Rightarrow> ('m, 's, 'x) store \<Rightarrow> ('m, 's, 'x) store) \<Rightarrow>
     'c \<Rightarrow> order \<Rightarrow> ref \<Rightarrow> ('m, 's, 'x) store \<Rightarrow> ref \<times> ('m, 's, 'x) store" where
  "copy_flat get put z \<rho> p s =
     (case p of
        None \<Rightarrow> (None, s)
      | Some a \<Rightarrow>
          (let (b, s1) = make_array put z (length (deref (get s) p)) s
           in (Some b, put b (builtin_copy (deref (get s1) (Some b)) (deref (get s1) p)) s1)))"

text \<open>A slice of structs is made, and then every element copied into the new array.\<close>

definition copy_each ::
    "(('m, 's, 'x) store \<Rightarrow> nat \<rightharpoonup> 'c list) \<Rightarrow> (nat \<Rightarrow> 'c list \<Rightarrow> ('m, 's, 'x) store \<Rightarrow> ('m, 's, 'x) store) \<Rightarrow>
     'c \<Rightarrow> (order \<Rightarrow> 'c \<Rightarrow> ('m, 's, 'x) store \<Rightarrow> 'c \<times> ('m, 's, 'x) store) \<Rightarrow>
     order \<Rightarrow> ref \<Rightarrow> ('m, 's, 'x) store \<Rightarrow> ref \<times> ('m, 's, 'x) store" where
  "copy_each get put z DeepCopyInto \<rho> p s =
     (case p of
        None \<Rightarrow> (None, s)
      | Some a \<Rightarrow>
          (let (b, s1) = make_array put z (length (deref (get s) p)) s
           in (Some b,
               fold (\<lambda>i u. let (c, u') = DeepCopyInto \<rho> (deref (get u) p ! i) u in elem_assign get put b i c u')
                 [0..<length (deref (get s1) p)] s1)))"

section \<open>DeepCopyInto\<close>

definition PackageSpec_DeepCopyInto ::
    "order \<Rightarrow> PackageSpec_ref \<Rightarrow> ('m, 's, 'x) store \<Rightarrow> PackageSpec_ref \<times> ('m, 's, 'x) store" where
  "PackageSpec_DeepCopyInto \<rho> p s =
     (let out = p; (deps, s1) = copy_map \<rho> (gr_PkgDeps p) s in (out\<lparr>gr_PkgDeps := deps\<rparr>, s1))"

definition ClusterContext_DeepCopyInto ::
    "order \<Rightarrow> ClusterContext_ref \<Rightarrow> ('m, 's, 'x) store \<Rightarrow> ClusterContext_ref \<times> ('m, 's, 'x) store" where
  "ClusterContext_DeepCopyInto \<rho> c s =
     (let out = c; (cfg, s1) = copy_map \<rho> (cr_AdditionalConfigs c) s in (out\<lparr>cr_AdditionalConfigs := cfg\<rparr>, s1))"

definition AddonParams_DeepCopyInto ::
    "order \<Rightarrow> AddonParams_ref \<Rightarrow> ('m, 's, 'x) store \<Rightarrow> AddonParams_ref \<times> ('m, 's, 'x) store" where
  "AddonParams_DeepCopyInto \<rho> p s =
     (let out = p;
          (c, s1) = ClusterContext_DeepCopyInto \<rho> (pr_Context p) s;
          (d, s2) = copy_map \<rho> (pr_Data p) s1
      in (out\<lparr>pr_Context := c, pr_Data := d\<rparr>, s2))"

definition KustomizeTemplate_DeepCopyInto ::
    "order \<Rightarrow> KustomizeTemplate_ref \<Rightarrow> ('m, 's, 'x) store \<Rightarrow> KustomizeTemplate_ref \<times> ('m, 's, 'x) store" where
  "KustomizeTemplate_DeepCopyInto \<rho> k s =
     (let out = k; (t, s1) = copy_map \<rho> (tr_Template k) s in (out\<lparr>tr_Template := t\<rparr>, s1))"

definition KustomizeSpec_DeepCopyInto ::
    "order \<Rightarrow> KustomizeSpec_ref \<Rightarrow> ('m, 's, 'x) store \<Rightarrow> KustomizeSpec_ref \<times> ('m, 's, 'x) store" where
  "KustomizeSpec_DeepCopyInto \<rho> k s =
     (let out = k;
          (l, s1) = copy_map \<rho> (kr_Labels k) s;
          (n, s2) = copy_map \<rho> (kr_Annotations k) s1;
          (r, s3) = copy_flat strs put_strs [] \<rho> (kr_Resources k) s2;
          (v, s4) = KustomizeTemplate_DeepCopyInto \<rho> (kr_Overlay k) s3
      in (out\<lparr>kr_Labels := l, kr_Annotations := n, kr_Resources := r, kr_Overlay := v\<rparr>, s4))"

definition AddonOverridesSpec_DeepCopyInto ::
    "order \<Rightarrow> AddonOverridesSpec_ref \<Rightarrow> ('m, 's, 'x) store \<Rightarrow> AddonOverridesSpec_ref \<times> ('m, 's, 'x) store" where
  "AddonOverridesSpec_DeepCopyInto \<rho> v s =
     (let out = v;
          (k, s1) = KustomizeSpec_DeepCopyInto \<rho> (or_Kustomize v) s;
          (t, s2) = copy_map \<rho> (or_Template v) s1
      in (out\<lparr>or_Kustomize := k, or_Template := t\<rparr>, s2))"

definition SecretCmdSpec_DeepCopyInto ::
    "order \<Rightarrow> SecretCmdSpec_ref \<Rightarrow> ('m, 's, 'x) store \<Rightarrow> SecretCmdSpec_ref \<times> ('m, 's, 'x) store" where
  "SecretCmdSpec_DeepCopyInto \<rho> c s =
     (let out = c; (r, s1) = copy_flat strs put_strs [] \<rho> (sr_Args c) s in (out\<lparr>sr_Args := r\<rparr>, s1))"

text \<open>The structs without maps and slices are copied by the assignment alone.\<close>

definition WorkflowType_DeepCopyInto ::
    "order \<Rightarrow> WorkflowType \<Rightarrow> ('m, 's, 'x) store \<Rightarrow> WorkflowType \<times> ('m, 's, 'x) store" where
  "WorkflowType_DeepCopyInto \<rho> w s = (w, s)"

definition LifecycleWorkflowSpec_DeepCopyInto ::
    "order \<Rightarrow> LifecycleWorkflowSpec \<Rightarrow> ('m, 's, 'x) store \<Rightarrow> LifecycleWorkflowSpec \<times> ('m, 's, 'x) store" where
  "LifecycleWorkflowSpec_DeepCopyInto \<rho> l s =
     (let out = l
      in (out\<lparr>Lifecycle_Prereqs := Lifecycle_Prereqs l, Lifecycle_Install := Lifecycle_Install l,
             Lifecycle_Delete := Lifecycle_Delete l, Lifecycle_Validate := Lifecycle_Validate l\<rparr>, s))"

definition ObjectStatus_DeepCopyInto ::
    "order \<Rightarrow> ObjectStatus \<Rightarrow> ('m, 's, 'x) store \<Rightarrow> ObjectStatus \<times> ('m, 's, 'x) store" where
  "ObjectStatus_DeepCopyInto \<rho> c s = (c, s)"

definition AddonStatusLifecycle_DeepCopyInto ::
    "order \<Rightarrow> AddonStatusLifecycle \<Rightarrow> ('m, 's, 'x) store \<Rightarrow> AddonStatusLifecycle \<times> ('m, 's, 'x) store" where
  "AddonStatusLifecycle_DeepCopyInto \<rho> l s = (l, s)"

definition zero_ObjectStatus :: ObjectStatus where
  "zero_ObjectStatus = \<lparr>Object_Link = [], Object_Name = [], Object_Kind = [], Object_Group = [], Object_Status = []\<rparr>"

definition AddonStatus_DeepCopyInto ::
    "order \<Rightarrow> AddonStatus_ref \<Rightarrow> ('m, 's, 'x) store \<Rightarrow> AddonStatus_ref \<times> ('m, 's, 'x) store" where
  "AddonStatus_DeepCopyInto \<rho> u s =
     (let out = u\<lparr>ur_Lifecycle := ur_Lifecycle u\<rparr>;
          (r, s1) = copy_flat objs put_objs zero_ObjectStatus \<rho> (ur_Resources u) s
      in (out\<lparr>ur_Resources := r\<rparr>, s1))"

text \<open>
  \<open>DeepCopyInto\<close> of \<open>metav1.ObjectMeta\<close>, \<open>metav1.LabelSelector\<close> and \<open>metav1.ListMeta\<close> is code of
  \<open>k8s.io/apimachinery\<close>: it is an argument, as are the zero values of the first two types.
\<close>

record ('m, 's, 'l, 'x) meta_lib =
  ObjectMeta_DeepCopyInto :: "order \<Rightarrow> 'm \<Rightarrow> ('m, 's, 'x) store \<Rightarrow> 'm \<times> ('m, 's, 'x) store"
  LabelSelector_DeepCopyInto :: "order \<Rightarrow> 's \<Rightarrow> ('m, 's, 'x) store \<Rightarrow> 's \<times> ('m, 's, 'x) store"
  ListMeta_DeepCopyInto :: "order \<Rightarrow> 'l \<Rightarrow> ('m, 's, 'x) store \<Rightarrow> 'l \<times> ('m, 's, 'x) store"
  zero_ObjectMeta :: 'm
  zero_LabelSelector :: 's

definition zero_SecretCmdSpec :: SecretCmdSpec_ref where
  "zero_SecretCmdSpec = \<lparr>sr_Name = [], sr_Cmd = 0, sr_Args = None\<rparr>"

definition AddonSpec_DeepCopyInto ::
    "('m, 's, 'l, 'x) meta_lib \<Rightarrow> order \<Rightarrow> 's AddonSpec_ref \<Rightarrow> ('m, 's, 'x) store \<Rightarrow>
     's AddonSpec_ref \<times> ('m, 's, 'x) store" where
  "AddonSpec_DeepCopyInto L \<rho> p s =
     (let out = p;
          (g, s1) = PackageSpec_DeepCopyInto \<rho> (ar_PackageSpec p) s;
          (r, s2) = AddonParams_DeepCopyInto \<rho> (ar_Params p) s1;
          (l, s3) = LabelSelector_DeepCopyInto L \<rho> (ar_Selector p) s2;
          (v, s4) = AddonOverridesSpec_DeepCopyInto \<rho> (ar_Overrides p) s3;
          (c, s5) = copy_each secs put_secs zero_SecretCmdSpec SecretCmdSpec_DeepCopyInto \<rho> (ar_Secrets p) s4
      in (out\<lparr>ar_PackageSpec := g, ar_Params := r, ar_Selector := l, ar_Overrides := v, ar_Secrets := c,
             ar_Lifecycle := ar_Lifecycle p\<rparr>, s5))"

definition Addon_DeepCopyInto ::
    "('m, 's, 'l, 'x) meta_lib \<Rightarrow> order \<Rightarrow> ('m, 's) Addon_ref \<Rightarrow> ('m, 's, 'x) store \<Rightarrow>
     ('m, 's) Addon_ref \<times> ('m, 's, 'x) store" where
  "Addon_DeepCopyInto L \<rho> a s =
     (let out = a\<lparr>xr_TypeMeta := xr_TypeMeta a\<rparr>;
          (m, s1) = ObjectMeta_DeepCopyInto L \<rho> (xr_ObjectMeta a) s;
          (p, s2) = AddonSpec_DeepCopyInto L \<rho> (xr_Spec a) s1;
          (u, s3) = AddonStatus_DeepCopyInto \<rho> (xr_Status a) s2
      in (out\<lparr>xr_ObjectMeta := m, xr_Spec := p, xr_Status := u\<rparr>, s3))"

text \<open>The zero \<open>Addon\<close>, which \<open>make([]Addon, n)\<close> and \<open>new(Addon)\<close> produce.\<close>

definition zero_Addon_ref :: "('m, 's, 'l, 'x) meta_lib \<Rightarrow> ('m, 's) Addon_ref" where
  "zero_Addon_ref L =
     \<lparr>xr_TypeMeta = \<lparr>TypeMeta_Kind = [], TypeMeta_APIVersion = []\<rparr>,
      xr_ObjectMeta = zero_ObjectMeta L,
      xr_Spec = \<lparr>ar_PackageSpec = \<lparr>gr_PkgChannel = [], gr_PkgName = [], gr_PkgVersion = [], gr_PkgType = [],
           gr_PkgDescription = [], gr_PkgDeps = None\<rparr>,
         ar_Params = \<lparr>pr_Namespace = [], pr_Context = \<lparr>cr_ClusterName = [], cr_ClusterRegion = [],
           cr_AdditionalConfigs = None\<rparr>, pr_Data = None\<rparr>,
         ar_Selector = zero_LabelSelector L,
         ar_Overrides = \<lparr>or_Kustomize = \<lparr>kr_Labels = None, kr_Annotations = None, kr_Resources = None,
           kr_Overlay = \<lparr>tr_Template = None\<rparr>\<rparr>, or_Template = None\<rparr>,
         ar_Secrets = None,
         ar_Lifecycle = \<lparr>Lifecycle_Prereqs = zero_WorkflowType, Lifecycle_Install = zero_WorkflowType,
           Lifecycle_Delete = zero_WorkflowType, Lifecycle_Validate = zero_WorkflowType\<rparr>\<rparr>,
      xr_Status = \<lparr>ur_Checksum = [], ur_Lifecycle = \<lparr>Status_Prereqs = [], Status_Installed = []\<rparr>,
         ur_Resources = None, ur_Reason = [], ur_StartTime = 0\<rparr>\<rparr>"

definition AddonList_DeepCopyInto ::
    "('m, 's, 'l, 'x) meta_lib \<Rightarrow> order \<Rightarrow> 'l AddonList_ref \<Rightarrow> ('m, 's, 'x) store \<Rightarrow>
     'l AddonList_ref \<times> ('m, 's, 'x) store" where
  "AddonList_DeepCopyInto L \<rho> l s =
     (let out = l\<lparr>lr_TypeMeta := lr_TypeMeta l\<rparr>;
          (m, s1) = ListMeta_DeepCopyInto L \<rho> (lr_ListMeta l) s;
          (xs, s2) = copy_each addons put_addons (zero_Addon_ref L) (Addon_DeepCopyInto L) \<rho> (lr_Items l) s1
      in (out\<lparr>lr_ListMeta := m, lr_Items := xs\<rparr>, s2))"

section \<open>DeepCopy and DeepCopyObject\<close>

text \<open>
  A pointer to a struct is \<open>None\<close> for \<open>nil\<close>, or what it points to. \<open>new\<close> gives a pointer that
  nothing else holds, and \<open>DeepCopyInto\<close> overwrites the whole struct.
\<close>

definition new_copy :: "('a \<Rightarrow> 'st \<Rightarrow> 'a \<times> 'st) \<Rightarrow> 'a option \<Rightarrow> 'st \<Rightarrow> 'a option \<times> 'st" where
  "new_copy DeepCopyInto p s =
     (case p of None \<Rightarrow> (None, s) | Some x \<Rightarrow> (let (out, s1) = DeepCopyInto x s in (Some out, s1)))"

definition PackageSpec_DeepCopy ::
    "order \<Rightarrow> PackageSpec_ref option \<Rightarrow> ('m, 's, 'x) store \<Rightarrow> PackageSpec_ref option \<times> ('m, 's, 'x) store" where
  "PackageSpec_DeepCopy \<rho> = new_copy (PackageSpec_DeepCopyInto \<rho>)"

definition ClusterContext_DeepCopy ::
    "order \<Rightarrow> ClusterContext_ref option \<Rightarrow> ('m, 's, 'x) store \<Rightarrow> ClusterContext_ref option \<times> ('m, 's, 'x) store" where
  "ClusterContext_DeepCopy \<rho> = new_copy (ClusterContext_DeepCopyInto \<rho>)"

definition AddonParams_DeepCopy ::
    "order \<Rightarrow> AddonParams_ref option \<Rightarrow> ('m, 's, 'x) store \<Rightarrow> AddonParams_ref option \<times> ('m, 's, 'x) store" where
  "AddonParams_DeepCopy \<rho> = new_copy (AddonParams_DeepCopyInto \<rho>)"

definition KustomizeTemplate_DeepCopy ::
    "order \<Rightarrow> KustomizeTemplate_ref option \<Rightarrow> ('m, 's, 'x) store \<Rightarrow> KustomizeTemplate_ref option \<times> ('m, 's, 'x) store" where
  "KustomizeTemplate_DeepCopy \<rho> = new_copy (KustomizeTemplate_DeepCopyInto \<rho>)"

definition KustomizeSpec_DeepCopy ::
    "order \<Rightarrow> KustomizeSpec_ref option \<Rightarrow> ('m, 's, 'x) store \<Rightarrow> KustomizeSpec_ref option \<times> ('m, 's, 'x) store" where
  "KustomizeSpec_DeepCopy \<rho> = new_copy (KustomizeSpec_DeepCopyInto \<rho>)"

definition AddonOverridesSpec_DeepCopy ::
    "order \<Rightarrow> AddonOverridesSpec_ref option \<Rightarrow> ('m, 's, 'x) store \<Rightarrow> AddonOverridesSpec_ref option \<times> ('m, 's, 'x) store" where
  "AddonOverridesSpec_DeepCopy \<rho> = new_copy (AddonOverridesSpec_DeepCopyInto \<rho>)"

definition SecretCmdSpec_DeepCopy ::
    "order \<Rightarrow> SecretCmdSpec_ref option \<Rightarrow> ('m, 's, 'x) store \<Rightarrow> SecretCmdSpec_ref option \<times> ('m, 's, 'x) store" where
  "SecretCmdSpec_DeepCopy \<rho> = new_copy (SecretCmdSpec_DeepCopyInto \<rho>)"

definition WorkflowType_DeepCopy ::
    "order \<Rightarrow> WorkflowType option \<Rightarrow> ('m, 's, 'x) store \<Rightarrow> WorkflowType option \<times> ('m, 's, 'x) store" where
  "WorkflowType_DeepCopy \<rho> = new_copy (WorkflowType_DeepCopyInto \<rho>)"

definition LifecycleWorkflowSpec_DeepCopy ::
    "order \<Rightarrow> LifecycleWorkflowSpec option \<Rightarrow> ('m, 's, 'x) store \<Rightarrow> LifecycleWorkflowSpec option \<times> ('m, 's, 'x) store" where
  "LifecycleWorkflowSpec_DeepCopy \<rho> = new_copy (LifecycleWorkflowSpec_DeepCopyInto \<rho>)"

definition ObjectStatus_DeepCopy ::
    "order \<Rightarrow> ObjectStatus option \<Rightarrow> ('m, 's, 'x) store \<Rightarrow> ObjectStatus option \<times> ('m, 's, 'x) store" where
  "ObjectStatus_DeepCopy \<rho> = new_copy (ObjectStatus_DeepCopyInto \<rho>)"

definition AddonStatusLifecycle_DeepCopy ::
    "order \<Rightarrow> AddonStatusLifecycle option \<Rightarrow> ('m, 's, 'x) store \<Rightarrow> AddonStatusLifecycle option \<times> ('m, 's, 'x) store" where
  "AddonStatusLifecycle_DeepCopy \<rho> = new_copy (AddonStatusLifecycle_DeepCopyInto \<rho>)"

definition AddonStatus_DeepCopy ::
    "order \<Rightarrow> AddonStatus_ref option \<Rightarrow> ('m, 's, 'x) store \<Rightarrow> AddonStatus_ref option \<times> ('m, 's, 'x) store" where
  "AddonStatus_DeepCopy \<rho> = new_copy (AddonStatus_DeepCopyInto \<rho>)"

definition AddonSpec_DeepCopy ::
    "('m, 's, 'l, 'x) meta_lib \<Rightarrow> order \<Rightarrow> 's AddonSpec_ref option \<Rightarrow> ('m, 's, 'x) store \<Rightarrow>
     's AddonSpec_ref option \<times> ('m, 's, 'x) store" where
  "AddonSpec_DeepCopy L \<rho> = new_copy (AddonSpec_DeepCopyInto L \<rho>)"

definition Addon_DeepCopy ::
    "('m, 's, 'l, 'x) meta_lib \<Rightarrow> order \<Rightarrow> ('m, 's) Addon_ref option \<Rightarrow> ('m, 's, 'x) store \<Rightarrow>
     ('m, 's) Addon_ref option \<times> ('m, 's, 'x) store" where
  "Addon_DeepCopy L \<rho> = new_copy (Addon_DeepCopyInto L \<rho>)"

definition AddonList_DeepCopy ::
    "('m, 's, 'l, 'x) meta_lib \<Rightarrow> order \<Rightarrow> 'l AddonList_ref option \<Rightarrow> ('m, 's, 'x) store \<Rightarrow>
     'l AddonList_ref option \<times> ('m, 's, 'x) store" where
  "AddonList_DeepCopy L \<rho> = new_copy (AddonList_DeepCopyInto L \<rho>)"

text \<open>
  A value of the interface \<open>runtime.Object\<close> is \<open>nil\<close>, or a pointer with its type, which may be a
  \<open>nil\<close> pointer.
\<close>

datatype ('m, 's, 'l) Object =
    Addon_Object "('m, 's) Addon_ref option"
  | AddonList_Object "'l AddonList_ref option"

definition Addon_DeepCopyObject ::
    "('m, 's, 'l, 'x) meta_lib \<Rightarrow> order \<Rightarrow> ('m, 's) Addon_ref option \<Rightarrow> ('m, 's, 'x) store \<Rightarrow>
     ('m, 's, 'l) Object option \<times> ('m, 's, 'x) store" where
  "Addon_DeepCopyObject L \<rho> p s =
     (let (c, s1) = Addon_DeepCopy L \<rho> p s in (if c \<noteq> None then Some (Addon_Object c) else None, s1))"

definition AddonList_DeepCopyObject ::
    "('m, 's, 'l, 'x) meta_lib \<Rightarrow> order \<Rightarrow> 'l AddonList_ref option \<Rightarrow> ('m, 's, 'x) store \<Rightarrow>
     ('m, 's, 'l) Object option \<times> ('m, 's, 'x) store" where
  "AddonList_DeepCopyObject L \<rho> p s =
     (let (c, s1) = AddonList_DeepCopy L \<rho> p s in (if c \<noteq> None then Some (AddonList_Object c) else None, s1))"

section \<open>What a deep copy promises\<close>

text \<open>Two stores that hold the same at some addresses; a store that only grew; maps without duplicate keys.\<close>

definition agree :: "nat set \<Rightarrow> ('m, 's, 'x) store \<Rightarrow> ('m, 's, 'x) store \<Rightarrow> bool" where
  "agree A s t \<longleftrightarrow> (\<forall>a \<in> A. maps s a = maps t a \<and> strs s a = strs t a \<and> objs s a = objs t a \<and>
     secs s a = secs t a \<and> addons s a = addons t a \<and> libs s a = libs t a)"

definition grows :: "('m, 's, 'x) store \<Rightarrow> ('m, 's, 'x) store \<Rightarrow> bool" where
  "grows s t \<longleftrightarrow> brk s \<le> brk t \<and> agree {..<brk s} s t"

definition store_ok :: "('m, 's, 'x) store \<Rightarrow> bool" where
  "store_ok s \<longleftrightarrow> (\<forall>m \<in> ran (maps s). gm_ok m)"

lemma agree_refl [simp]: "agree A s s"
  by (simp add: agree_def)

lemma agree_mono: "agree B s t \<Longrightarrow> A \<subseteq> B \<Longrightarrow> agree A s t"
  by (auto simp: agree_def)

lemma agree_trans: "agree A s t \<Longrightarrow> agree A t u \<Longrightarrow> agree A s u"
  by (auto simp: agree_def)

lemma grows_refl [simp]: "grows s s"
  by (simp add: grows_def)

lemma grows_trans: "grows s t \<Longrightarrow> grows t u \<Longrightarrow> grows s u"
  by (auto simp: grows_def agree_def)

lemma grows_agree: "grows s t \<Longrightarrow> A \<subseteq> {..<brk s} \<Longrightarrow> agree A s t"
  by (auto simp: grows_def intro: agree_mono)

text \<open>
  The copy \<open>y\<close> in the store \<open>t\<close> of the value \<open>x\<close> in the store \<open>s\<close>: \<open>same\<close> compares values across two stores,
  \<open>refs\<close> is everything that a value refers to, directly or not.
\<close>

definition is_copy ::
    "(('m, 's, 'x) store \<Rightarrow> 'a \<Rightarrow> ('m, 's, 'x) store \<Rightarrow> 'a \<Rightarrow> bool) \<Rightarrow> (('m, 's, 'x) store \<Rightarrow> 'a \<Rightarrow> nat set) \<Rightarrow>
     ('m, 's, 'x) store \<Rightarrow> 'a \<Rightarrow> ('m, 's, 'x) store \<Rightarrow> 'a \<Rightarrow> bool" where
  "is_copy same refs s x t y \<longleftrightarrow>
     store_ok t \<and> grows s t \<and> refs t y \<subseteq> {brk s..<brk t} \<and> same s x t y"

locale deep_copy =
  fixes copy :: "order \<Rightarrow> 'a \<Rightarrow> ('m, 's, 'x) store \<Rightarrow> 'a \<times> ('m, 's, 'x) store"
    and same :: "('m, 's, 'x) store \<Rightarrow> 'a \<Rightarrow> ('m, 's, 'x) store \<Rightarrow> 'a \<Rightarrow> bool"
    and refs :: "('m, 's, 'x) store \<Rightarrow> 'a \<Rightarrow> nat set"
  assumes copies: "rng_ok \<rho> \<Longrightarrow> store_ok s \<Longrightarrow> refs s x \<subseteq> {..<brk s} \<Longrightarrow> copy \<rho> x s = (y, t) \<Longrightarrow>
      is_copy same refs s x t y"
    and frame: "agree (refs s x) s t \<Longrightarrow> same s x t x \<and> refs t x = refs s x"
    and same_trans: "same s x t y \<Longrightarrow> same t y u z \<Longrightarrow> same s x u z"
begin

lemma same_refl: "same s x s x"
  using frame [of s x s] by simp

lemma refs_grow: "refs s x \<subseteq> {..<brk s} \<Longrightarrow> grows s t \<Longrightarrow> refs t x \<subseteq> {..<brk t}"
  using frame [OF grows_agree] by (fastforce simp: grows_def)

text \<open>A copy stays one while the store grows, and the original may have been older.\<close>

lemma copy_later:
  assumes "is_copy same refs s x t y" and "grows t u" and "store_ok u"
  shows "is_copy same refs s x u y"
proof -
  have "agree (refs t y) t u" using assms(1,2) by (intro grows_agree) (auto simp: is_copy_def)
  then show ?thesis
    using assms frame [of t y u] same_trans [of s x t y u y] grows_trans [of s t u]
    by (auto simp: is_copy_def grows_def)
qed

lemma copy_earlier:
  assumes "is_copy same refs t x u y" and "grows s t" and "refs s x \<subseteq> {..<brk s}"
  shows "is_copy same refs s x u y"
  using assms(1,2) frame [OF grows_agree [OF assms(2,3)]] same_trans [of s x t x u y] grows_trans [of s t u]
  by (auto simp: is_copy_def grows_def)

text \<open>
  The copy and the original are separated: whatever is written to anything that the copy refers
  to leaves the original as it is, and whatever is written to anything that the original refers to leaves
  the copy as the original was.
\<close>

lemma separated:
  assumes "rng_ok \<rho>" and "store_ok s" and "refs s x \<subseteq> {..<brk s}" and "copy \<rho> x s = (y, t)"
  shows "refs t x \<inter> refs t y = {}"
    and "agree (- refs t y) t u \<Longrightarrow> same s x u x"
    and "agree (- refs t x) t u \<Longrightarrow> same s x u y"
proof -
  have c: "grows s t" "refs t y \<subseteq> {brk s..<brk t}" "same s x t y"
    using copies [OF assms] by (simp_all add: is_copy_def)
  have x: "refs t x = refs s x" "same s x t x" using frame [OF grows_agree [OF c(1) assms(3)]] by simp_all
  show disj: "refs t x \<inter> refs t y = {}" using x(1) c(2) assms(3) by fastforce
  show "same s x u x" if "agree (- refs t y) t u"
  proof -
    have "agree (refs t x) t u" using that disj by (auto intro: agree_mono)
    then show ?thesis using frame [of t x u] same_trans [OF x(2)] by blast
  qed
  show "same s x u y" if "agree (- refs t x) t u"
  proof -
    have "agree (refs t y) t u" using that disj by (auto intro: agree_mono)
    then show ?thesis using frame [of t y u] same_trans [OF c(3)] by blast
  qed
qed

end

section \<open>Copies of composed values\<close>

text \<open>Two values, one after the other.\<close>

definition pair_copy ::
    "(order \<Rightarrow> 'a \<Rightarrow> 'st \<Rightarrow> 'a \<times> 'st) \<Rightarrow> (order \<Rightarrow> 'b \<Rightarrow> 'st \<Rightarrow> 'b \<times> 'st) \<Rightarrow> order \<Rightarrow> 'a \<times> 'b \<Rightarrow> 'st \<Rightarrow> ('a \<times> 'b) \<times> 'st" where
  "pair_copy c d \<rho> x s = (let (a, s1) = c \<rho> (fst x) s; (b, s2) = d \<rho> (snd x) s1 in ((a, b), s2))"

definition pair_same ::
    "('st \<Rightarrow> 'a \<Rightarrow> 'st \<Rightarrow> 'a \<Rightarrow> bool) \<Rightarrow> ('st \<Rightarrow> 'b \<Rightarrow> 'st \<Rightarrow> 'b \<Rightarrow> bool) \<Rightarrow> 'st \<Rightarrow> 'a \<times> 'b \<Rightarrow> 'st \<Rightarrow> 'a \<times> 'b \<Rightarrow> bool" where
  "pair_same c d s x t y \<longleftrightarrow> c s (fst x) t (fst y) \<and> d s (snd x) t (snd y)"

definition pair_refs :: "('st \<Rightarrow> 'a \<Rightarrow> nat set) \<Rightarrow> ('st \<Rightarrow> 'b \<Rightarrow> nat set) \<Rightarrow> 'st \<Rightarrow> 'a \<times> 'b \<Rightarrow> nat set" where
  "pair_refs c d s x = c s (fst x) \<union> d s (snd x)"

lemmas pair_defs = pair_copy_def pair_same_def pair_refs_def

lemma deep_copy_pair:
  assumes "deep_copy c same1 refs1" and "deep_copy d same2 refs2"
  shows "deep_copy (pair_copy c d) (pair_same same1 same2) (pair_refs refs1 refs2)"
proof
  fix \<rho> s t and x y
  assume "rng_ok \<rho>" "store_ok s" and bound: "pair_refs refs1 refs2 s x \<subseteq> {..<brk s}"
    and copy: "pair_copy c d \<rho> x s = (y, t)"
  obtain a s1 where a: "c \<rho> (fst x) s = (a, s1)" by (cases "c \<rho> (fst x) s")
  obtain b s2 where b: "d \<rho> (snd x) s1 = (b, s2)" by (cases "d \<rho> (snd x) s1")
  have y: "y = (a, b)" "t = s2" using copy a b by (simp_all add: pair_copy_def)
  have bounds: "refs1 s (fst x) \<subseteq> {..<brk s}" "refs2 s (snd x) \<subseteq> {..<brk s}"
    using bound by (simp_all add: pair_refs_def)
  have one: "is_copy same1 refs1 s (fst x) s1 a"
    using deep_copy.copies [OF assms(1) \<open>rng_ok \<rho>\<close> \<open>store_ok s\<close> bounds(1) a] .
  then have g: "grows s s1" "store_ok s1" by (simp_all add: is_copy_def)
  have two: "is_copy same2 refs2 s1 (snd x) s2 b"
    using deep_copy.copies [OF assms(2) \<open>rng_ok \<rho>\<close> g(2) deep_copy.refs_grow [OF assms(2) bounds(2) g(1)] b] .
  then have "grows s1 s2" "store_ok s2" by (simp_all add: is_copy_def)
  then show "is_copy (pair_same same1 same2) (pair_refs refs1 refs2) s x t y"
    using deep_copy.copy_later [OF assms(1) one] deep_copy.copy_earlier [OF assms(2) two g(1) bounds(2)]
    by (simp add: is_copy_def pair_same_def pair_refs_def y)
next
  fix s t x
  assume "agree (pair_refs refs1 refs2 s x) s t"
  then have "agree (refs1 s (fst x)) s t" "agree (refs2 s (snd x)) s t"
    by (auto simp: pair_refs_def intro: agree_mono)
  then show "pair_same same1 same2 s x t x \<and> pair_refs refs1 refs2 t x = pair_refs refs1 refs2 s x"
    using deep_copy.frame [OF assms(1)] deep_copy.frame [OF assms(2)] by (simp add: pair_same_def pair_refs_def)
next
  fix s t u and x y z
  assume "pair_same same1 same2 s x t y" "pair_same same1 same2 t y u z"
  then show "pair_same same1 same2 s x u z"
    using deep_copy.same_trans [OF assms(1)] deep_copy.same_trans [OF assms(2)] unfolding pair_same_def by blast
qed

text \<open>
  A struct, of which \<open>sel\<close> are the parts that are copied deeply, \<open>upd\<close> puts copies in
  their place, and \<open>flat\<close> is the rest, which the assignment copies.
\<close>

lemma deep_copy_struct:
  assumes "deep_copy c same refs"
    and copy: "\<And>\<rho> x s. copy \<rho> x s = (let (p, s1) = c \<rho> (sel x) s in (upd p x, s1))"
    and same': "\<And>s x t y. same' s x t y \<longleftrightarrow> same s (sel x) t (sel y) \<and> flat x = flat y"
    and refs': "\<And>s x. refs' s x = refs s (sel x)"
    and upd: "\<And>p x. sel (upd p x) = p" "\<And>p x. flat (upd p x) = flat x"
  shows "deep_copy copy same' refs'"
proof
  fix \<rho> s t x y
  assume pre: "rng_ok \<rho>" "store_ok s" "refs' s x \<subseteq> {..<brk s}" "copy \<rho> x s = (y, t)"
  obtain p s1 where "c \<rho> (sel x) s = (p, s1)" by (cases "c \<rho> (sel x) s")
  with pre show "is_copy same' refs' s x t y"
    using deep_copy.copies [OF assms(1), of \<rho> s "sel x" p s1]
    by (auto simp: copy is_copy_def same' refs' upd)
next
  fix s t x assume "agree (refs' s x) s t"
  then show "same' s x t x \<and> refs' t x = refs' s x"
    using deep_copy.frame [OF assms(1), of s "sel x" t] by (simp add: same' refs')
next
  fix s t u x y z assume "same' s x t y" "same' t y u z"
  then show "same' s x u z" using deep_copy.same_trans [OF assms(1)] by (auto simp: same')
qed

section \<open>Copies of maps and slices\<close>

definition map_same :: "('m, 's, 'x) store \<Rightarrow> ref \<Rightarrow> ('m, 's, 'x) store \<Rightarrow> ref \<Rightarrow> bool" where
  "map_same s p t q \<longleftrightarrow> (p = None \<longleftrightarrow> q = None) \<and> map_of (deref (maps s) p) = map_of (deref (maps t) q)"

definition map_refs :: "('m, 's, 'x) store \<Rightarrow> ref \<Rightarrow> nat set" where
  "map_refs s p = set_option p"

lemma fold_map_assign:
  "maps s b = Some m \<Longrightarrow>
   fold (map_assign b) kvs s = s\<lparr>maps := (maps s)(b \<mapsto> fold (\<lambda>(k, v). AList.update k v) kvs m)\<rparr>"
proof (induction kvs arbitrary: s m)
  case Nil
  then have "(maps s)(b \<mapsto> m) = maps s" by auto
  then show ?case by simp
qed (simp add: map_assign_def deref_def split_def)

lemma copy_map_Some:
  assumes "a < brk s"
  shows "copy_map \<rho> (Some a) s = (Some (brk s),
    s\<lparr>brk := brk s + 1, maps := (maps s)(brk s \<mapsto> gm_copy \<rho> id (deref (maps s) (Some a)))\<rparr>)"
  using assms by (simp add: copy_map_def new_map_def fold_map_assign deref_def gm_copy_def)

interpretation map_copy: deep_copy copy_map map_same map_refs
proof
  fix \<rho> and s t :: "('a, 'b, 'c) store" and p q
  assume pre: "rng_ok \<rho>" "store_ok s" "map_refs s p \<subseteq> {..<brk s}" "copy_map \<rho> p s = (q, t)"
  show "is_copy map_same map_refs s p t q"
  proof (cases p)
    case None
    with pre show ?thesis by (simp add: copy_map_def is_copy_def map_refs_def map_same_def)
  next
    case (Some a)
    have m: "gm_ok (deref (maps s) (Some a))"
      using pre(2) by (auto simp: deref_def store_ok_def ran_def split: option.splits)
    have t: "t = s\<lparr>brk := brk s + 1, maps := (maps s)(brk s \<mapsto> gm_copy \<rho> id (deref (maps s) (Some a)))\<rparr>" "q = Some (brk s)"
      using pre(3,4) Some copy_map_Some [of a s \<rho>] by (simp_all add: map_refs_def)
    have "store_ok t" using pre(2) by (auto simp: t store_ok_def ran_def)
    moreover have "map_of (gm_copy \<rho> id (deref (maps s) (Some a))) = map_of (deref (maps s) (Some a))"
      using pre(1) m by (simp add: map_option.id comp_def)
    ultimately show ?thesis
      using Some by (simp add: t is_copy_def grows_def agree_def map_refs_def map_same_def)
        (simp add: deref_def)
  qed
qed (auto simp: map_same_def map_refs_def agree_def deref_def split: option.splits)

text \<open>
  A part of the store that holds arrays: \<open>get\<close> reads it and \<open>put\<close> writes one array of it.
\<close>

definition slice_same ::
    "('st \<Rightarrow> nat \<rightharpoonup> 'c list) \<Rightarrow> ('st \<Rightarrow> 'c \<Rightarrow> 'st \<Rightarrow> 'c \<Rightarrow> bool) \<Rightarrow> 'st \<Rightarrow> ref \<Rightarrow> 'st \<Rightarrow> ref \<Rightarrow> bool" where
  "slice_same get same s p t q \<longleftrightarrow>
     (p = None \<longleftrightarrow> q = None) \<and> list_all2 (\<lambda>x y. same s x t y) (deref (get s) p) (deref (get t) q)"

definition slice_refs :: "('st \<Rightarrow> nat \<rightharpoonup> 'c list) \<Rightarrow> ('st \<Rightarrow> 'c \<Rightarrow> nat set) \<Rightarrow> 'st \<Rightarrow> ref \<Rightarrow> nat set" where
  "slice_refs get refs s p = set_option p \<union> (\<Union>x \<in> set (deref (get s) p). refs s x)"

abbreviation flat_same :: "'st \<Rightarrow> 'c \<Rightarrow> 'st \<Rightarrow> 'c \<Rightarrow> bool" where
  "flat_same s x t y \<equiv> x = y"

abbreviation flat_refs :: "'st \<Rightarrow> 'c \<Rightarrow> nat set" where
  "flat_refs s x \<equiv> {}"

lemma builtin_copy_full: "length dst = length src \<Longrightarrow> builtin_copy dst src = src"
  by (simp add: builtin_copy_def)

locale array_region =
  fixes get :: "('m, 's, 'x) store \<Rightarrow> nat \<rightharpoonup> 'c list"
    and put :: "nat \<Rightarrow> 'c list \<Rightarrow> ('m, 's, 'x) store \<Rightarrow> ('m, 's, 'x) store"
  assumes get_put: "get (put b xs s) = (get s)(b \<mapsto> xs)"
    and get_brk: "get (s\<lparr>brk := n\<rparr>) = get s"
    and brk_put: "brk (put b xs s) = brk s"
    and maps_put: "maps (put b xs s) = maps s"
    and agree_put: "b \<notin> A \<Longrightarrow> agree A s (put b xs s)"
    and agree_get: "agree A s t \<Longrightarrow> a \<in> A \<Longrightarrow> get s a = get t a"
begin

lemma store_ok_put: "store_ok (put b xs s) = store_ok s"
  by (simp add: store_ok_def maps_put)

lemma deref_agree: "agree A s t \<Longrightarrow> set_option p \<subseteq> A \<Longrightarrow> deref (get s) p = deref (get t) p"
  using agree_get by (auto simp: deref_def split: option.split)

lemma make_array_facts:
  assumes "make_array put z n s = (b, t)"
  shows "b = brk s" and "brk t = brk s + 1" and "get t b = Some (replicate n z)" and "grows s t"
    and "store_ok t = store_ok s"
proof -
  let ?u = "s\<lparr>brk := brk s + 1\<rparr>"
  have t: "b = brk s" "t = put (brk s) (replicate n z) ?u" using assms by (auto simp: make_array_def)
  have "agree {..<brk s} ?u t" using agree_put [of "brk s" "{..<brk s}" ?u] t(2) by simp
  then have "agree {..<brk s} s t" by (simp add: agree_def)
  moreover have "store_ok t = store_ok s" by (simp add: t(2) store_ok_def maps_put)
  ultimately show "b = brk s" "brk t = brk s + 1" "get t b = Some (replicate n z)" "grows s t" "store_ok t = store_ok s"
    by (simp_all add: t brk_put get_put get_brk grows_def)
qed

lemma slice_frame:
  assumes "deep_copy f same refs" and "agree (slice_refs get refs s p) s t"
  shows "slice_same get same s p t p \<and> slice_refs get refs t p = slice_refs get refs s p"
proof -
  have cells: "deref (get t) p = deref (get s) p"
    using deref_agree [OF assms(2)] by (simp add: slice_refs_def)
  have "same s x t x \<and> refs t x = refs s x" if "x \<in> set (deref (get s) p)" for x
    by (rule deep_copy.frame [OF assms(1)], rule agree_mono [OF assms(2)]) (use that in \<open>auto simp: slice_refs_def\<close>)
  then show ?thesis by (auto simp: slice_same_def slice_refs_def cells intro: list.rel_refl_strong)
qed

lemma slice_trans:
  assumes "deep_copy f same refs" and "slice_same get same s p t q" and "slice_same get same t q u r"
  shows "slice_same get same s p u r"
proof -
  have "same s x u z" if "same s x t y" and "same t y u z" for x y z
    using deep_copy.same_trans [OF assms(1) that] .
  then have "list_all2 (\<lambda>x z. same s x u z) (deref (get s) p) (deref (get u) r)"
    using assms(2,3) unfolding slice_same_def by (blast intro: list_all2_trans [rotated])
  then show ?thesis using assms(2,3) by (simp add: slice_same_def)
qed

end

lemma flat_deep_copy: "deep_copy (\<lambda>\<rho> x s. (x, s)) flat_same flat_refs"
  by unfold_locales (auto simp: is_copy_def)

text \<open>The loop over the elements, after \<open>k\<close> of the elements \<open>xs\<close> of the original in \<open>s\<close>: the new array is at \<open>brk s\<close>.\<close>

definition loop_inv ::
    "(('m, 's, 'x) store \<Rightarrow> nat \<rightharpoonup> 'c list) \<Rightarrow> (('m, 's, 'x) store \<Rightarrow> 'c \<Rightarrow> ('m, 's, 'x) store \<Rightarrow> 'c \<Rightarrow> bool) \<Rightarrow>
     (('m, 's, 'x) store \<Rightarrow> 'c \<Rightarrow> nat set) \<Rightarrow> 'c \<Rightarrow> ('m, 's, 'x) store \<Rightarrow> 'c list \<Rightarrow> nat \<Rightarrow> ('m, 's, 'x) store \<Rightarrow> bool" where
  "loop_inv get same refs z s xs k u \<longleftrightarrow> store_ok u \<and> grows s u \<and> brk s < brk u \<and>
     (\<exists>ys. get u (brk s) = Some (ys @ replicate (length xs - k) z) \<and>
        list_all2 (\<lambda>x y. same s x u y) (take k xs) ys \<and> (\<Union>y \<in> set ys. refs u y) \<subseteq> {Suc (brk s)..<brk u})"

context array_region
begin

lemma flat_slice: "deep_copy (copy_flat get put z) (slice_same get flat_same) (slice_refs get flat_refs)"
proof
  fix \<rho> s t p q
  assume pre: "rng_ok \<rho>" "store_ok s" "slice_refs get flat_refs s p \<subseteq> {..<brk s}" "copy_flat get put z \<rho> p s = (q, t)"
  show "is_copy (slice_same get flat_same) (slice_refs get flat_refs) s p t q"
  proof (cases p)
    case None
    with pre show ?thesis by (simp add: copy_flat_def is_copy_def slice_same_def slice_refs_def deref_def)
  next
    case (Some a)
    let ?xs = "deref (get s) p"
    obtain b u where u: "make_array put z (length ?xs) s = (b, u)" by (cases "make_array put z (length ?xs) s")
    note facts = make_array_facts [OF u]
    have "set_option p \<subseteq> {..<brk s}" using pre(3) by (simp add: slice_refs_def)
    then have xs: "deref (get u) p = ?xs" using deref_agree [of "{..<brk s}" s u p] facts(4) by (simp add: grows_def)
    have "deref (get u) (Some b) = replicate (length ?xs) z" using facts(3) by (simp add: deref_def)
    then have t: "q = Some b" "t = put b ?xs u"
      using pre(4) u Some xs builtin_copy_full [of "replicate (length ?xs) z" ?xs]
      by (auto simp: copy_flat_def)
    have "agree {..<brk s} u t" using agree_put [of b "{..<brk s}" u ?xs] facts(1) t(2) by simp
    then have "grows s t" using facts(4) agree_trans by (auto simp: grows_def t(2) brk_put)
    then show ?thesis
      using Some pre(2) facts(1,2,5)
      by (simp add: is_copy_def slice_same_def slice_refs_def t store_ok_put brk_put get_put list_all2_eq [symmetric])
        (simp add: deref_def)
  qed
qed (use slice_frame [OF flat_deep_copy] slice_trans [OF flat_deep_copy] in \<open>blast+\<close>)

lemma kept_across:
  assumes "deep_copy f same refs" and "grows u u'" and "refs u y \<subseteq> {Suc b..<brk u}" and "same s x u y"
  shows "same s x (put b ys u') y \<and> refs (put b ys u') y \<subseteq> {Suc b..<brk u'}"
proof -
  have "agree (refs u y) u u'" using assms(2,3) by (intro grows_agree) auto
  moreover have "agree (refs u y) u' (put b ys u')" using assms(3) by (intro agree_put) auto
  ultimately have "agree (refs u y) u (put b ys u')" by (rule agree_trans)
  then have "same u y (put b ys u') y" "refs (put b ys u') y = refs u y"
    using deep_copy.frame [OF assms(1)] by simp_all
  with assms(2,3) deep_copy.same_trans [OF assms(1,4)] show ?thesis by (auto simp: grows_def)
qed

lemma loop_step:
  assumes "deep_copy f same refs" and "rng_ok \<rho>" and "deref (get s) p = xs" and "slice_refs get refs s p \<subseteq> {..<brk s}"
    and "loop_inv get same refs z s xs k u" and "k < length xs" and "f \<rho> (deref (get u) p ! k) u = (c, u')"
  shows "loop_inv get same refs z s xs (Suc k) (elem_assign get put (brk s) k c u')"
proof -
  let ?b = "brk s" and ?x = "xs ! k"
  obtain ys where u: "store_ok u" "grows s u" "?b < brk u" "get u ?b = Some (ys @ replicate (length xs - k) z)"
    "list_all2 (\<lambda>x y. same s x u y) (take k xs) ys" "(\<Union>y \<in> set ys. refs u y) \<subseteq> {Suc ?b..<brk u}"
    using assms(5) by (auto simp: loop_inv_def)
  have "deref (get u) p = xs"
    using deref_agree [of "{..<?b}" s u p] u(2) assms(3,4) by (simp add: grows_def slice_refs_def)
  moreover have bound: "refs s ?x \<subseteq> {..<?b}" using assms(3,4) nth_mem [OF assms(6)] unfolding slice_refs_def by blast
  ultimately have c: "is_copy same refs u ?x u' c"
    using deep_copy.copies [OF assms(1,2) u(1) _ assms(7)] deep_copy.refs_grow [OF assms(1) bound u(2)] by simp
  then have g: "grows u u'" "store_ok u'" "refs u' c \<subseteq> {brk u..<brk u'}" by (simp_all add: is_copy_def)
  have len: "length ys = k" using u(5) assms(6) by (auto dest: list_all2_lengthD)
  have "get u' ?b = get u ?b" using agree_get [of "{..<brk u}" u u' ?b] g(1) u(3) by (simp add: grows_def)
  moreover have rest: "replicate (length xs - k) z = z # replicate (length xs - Suc k) z"
    using assms(6) by (metis Suc_diff_Suc replicate_Suc)
  ultimately have arr: "(deref (get u') (Some ?b))[k := c] = (ys @ [c]) @ replicate (length xs - Suc k) z"
    using u(4) len by (simp add: deref_def list_update_append rest)
  define v where "v = elem_assign get put ?b k c u'"
  have v: "v = put ?b ((ys @ [c]) @ replicate (length xs - Suc k) z) u'"
    using arr by (simp add: v_def elem_assign_def)
  have old: "same s x v y \<and> refs v y \<subseteq> {Suc ?b..<brk v}" if "same s x u y" "y \<in> set ys" for x y
    using kept_across [OF assms(1) g(1) _ that(1), of ?b] u(6) that(2) unfolding v brk_put by blast
  have "refs u' c \<subseteq> {Suc ?b..<brk u'}" using g(3) u(3) by auto
  then have new: "same s ?x v c" "refs v c \<subseteq> {Suc ?b..<brk v}"
    using kept_across [OF assms(1) grows_refl] deep_copy.copy_earlier [OF assms(1) c u(2) bound]
    unfolding v brk_put is_copy_def by blast+
  have "list_all2 (\<lambda>x y. same s x v y) (take k xs) ys"
    by (rule list.rel_mono_strong [OF u(5)]) (use old in blast)
  then have "list_all2 (\<lambda>x y. same s x v y) (take (Suc k) xs) (ys @ [c])"
    using new(1) assms(6) by (simp add: take_Suc_conv_app_nth list_all2_appendI)
  moreover have "(\<Union>y \<in> set (ys @ [c]). refs v y) \<subseteq> {Suc ?b..<brk v}"
  proof (rule UN_least)
    fix y assume "y \<in> set (ys @ [c])"
    moreover have "\<exists>x. same s x u y" if "y \<in> set ys"
      using u(5) that unfolding list_all2_conv_all_nth in_set_conv_nth by metis
    ultimately show "refs v y \<subseteq> {Suc ?b..<brk v}" using old [of _ y] new(2) by auto
  qed
  moreover have "grows s v"
    using grows_trans [OF u(2) g(1)] agree_trans [of "{..<?b}" s u' v] agree_put [of ?b "{..<?b}" u']
    by (simp add: grows_def v brk_put)
  ultimately show ?thesis
    using g(1,2) u(3) unfolding loop_inv_def v_def [symmetric]
    by (intro conjI exI [of _ "ys @ [c]"]) (auto simp: v brk_put store_ok_put get_put grows_def)
qed

lemma each_slice:
  assumes "deep_copy f same refs"
  shows "deep_copy (copy_each get put z f) (slice_same get same) (slice_refs get refs)"
proof
  fix \<rho> s t p q
  assume pre: "rng_ok \<rho>" "store_ok s" "slice_refs get refs s p \<subseteq> {..<brk s}" "copy_each get put z f \<rho> p s = (q, t)"
  show "is_copy (slice_same get same) (slice_refs get refs) s p t q"
  proof (cases p)
    case None
    with pre show ?thesis by (simp add: copy_each_def is_copy_def slice_same_def slice_refs_def deref_def)
  next
    case (Some a)
    let ?xs = "deref (get s) p"
    define step where "step = (\<lambda>i u. let (c, u') = f \<rho> (deref (get u) p ! i) u in elem_assign get put (brk s) i c u')"
    obtain b u where u: "make_array put z (length ?xs) s = (b, u)" by (cases "make_array put z (length ?xs) s")
    note facts = make_array_facts [OF u]
    have "set_option p \<subseteq> {..<brk s}" using pre(3) by (simp add: slice_refs_def)
    then have xs: "deref (get u) p = ?xs" using deref_agree [of "{..<brk s}" s u p] facts(4) by (simp add: grows_def)
    have loop: "loop_inv get same refs z s ?xs k (fold step [0..<k] u)" if "k \<le> length ?xs" for k
      using that
    proof (induction k)
      case 0
      show ?case using facts pre(2) by (simp add: loop_inv_def)
    next
      case (Suc k)
      let ?v = "fold step [0..<k] u"
      obtain c v where c: "f \<rho> (deref (get ?v) p ! k) ?v = (c, v)" by (cases "f \<rho> (deref (get ?v) p ! k) ?v")
      then have "step k ?v = elem_assign get put (brk s) k c v" by (simp add: step_def)
      then show ?case
        using loop_step [OF assms pre(1) refl pre(3) Suc.IH _ c] Suc.prems by simp
    qed
    have t: "q = Some (brk s)" "t = fold step [0..<length ?xs] u"
      using pre(4) u Some xs facts(1) by (auto simp: copy_each_def step_def)
    then show ?thesis
      using loop [of "length ?xs"] Some
      by (fastforce simp: loop_inv_def is_copy_def slice_same_def slice_refs_def deref_def)
  qed
qed (use slice_frame [OF assms] slice_trans [OF assms] in \<open>blast+\<close>)

end

interpretation strs_region: array_region strs put_strs
  by unfold_locales (auto simp: put_strs_def agree_def)

interpretation objs_region: array_region objs put_objs
  by unfold_locales (auto simp: put_objs_def agree_def)

interpretation secs_region: array_region secs put_secs
  by unfold_locales (auto simp: put_secs_def agree_def)

interpretation addons_region: array_region addons put_addons
  by unfold_locales (auto simp: put_addons_def agree_def)

section \<open>Copies of the API types\<close>

text \<open>
  For each type, when two values are the same and what a value refers to. Maps and slices
  are compared by their contents, and a \<open>nil\<close> one is not an empty one.
\<close>

abbreviation strs_same :: "('m, 's, 'x) store \<Rightarrow> ref \<Rightarrow> ('m, 's, 'x) store \<Rightarrow> ref \<Rightarrow> bool" where
  "strs_same \<equiv> slice_same strs flat_same"
abbreviation strs_refs :: "('m, 's, 'x) store \<Rightarrow> ref \<Rightarrow> nat set" where
  "strs_refs \<equiv> slice_refs strs flat_refs"

definition PackageSpec_same ::
    "('m, 's, 'x) store \<Rightarrow> PackageSpec_ref \<Rightarrow> ('m, 's, 'x) store \<Rightarrow> PackageSpec_ref \<Rightarrow> bool" where
  "PackageSpec_same s p t q \<longleftrightarrow>
     map_same s (gr_PkgDeps p) t (gr_PkgDeps q) \<and> p\<lparr>gr_PkgDeps := None\<rparr> = q\<lparr>gr_PkgDeps := None\<rparr>"

definition PackageSpec_refs :: "('m, 's, 'x) store \<Rightarrow> PackageSpec_ref \<Rightarrow> nat set" where
  "PackageSpec_refs s p = map_refs s (gr_PkgDeps p)"

interpretation PackageSpec_copy: deep_copy PackageSpec_DeepCopyInto PackageSpec_same PackageSpec_refs
  by (rule deep_copy_struct [OF map_copy.deep_copy_axioms,
        where sel = gr_PkgDeps and upd = "\<lambda>d. gr_PkgDeps_update (\<lambda>_. d)" and flat = "gr_PkgDeps_update (\<lambda>_. None)"])
    (simp_all add: PackageSpec_DeepCopyInto_def PackageSpec_same_def PackageSpec_refs_def)

definition ClusterContext_same ::
    "('m, 's, 'x) store \<Rightarrow> ClusterContext_ref \<Rightarrow> ('m, 's, 'x) store \<Rightarrow> ClusterContext_ref \<Rightarrow> bool" where
  "ClusterContext_same s p t q \<longleftrightarrow>
     map_same s (cr_AdditionalConfigs p) t (cr_AdditionalConfigs q) \<and>
     p\<lparr>cr_AdditionalConfigs := None\<rparr> = q\<lparr>cr_AdditionalConfigs := None\<rparr>"

definition ClusterContext_refs :: "('m, 's, 'x) store \<Rightarrow> ClusterContext_ref \<Rightarrow> nat set" where
  "ClusterContext_refs s p = map_refs s (cr_AdditionalConfigs p)"

interpretation ClusterContext_copy: deep_copy ClusterContext_DeepCopyInto ClusterContext_same ClusterContext_refs
  by (rule deep_copy_struct [OF map_copy.deep_copy_axioms, where sel = cr_AdditionalConfigs
        and upd = "\<lambda>d. cr_AdditionalConfigs_update (\<lambda>_. d)" and flat = "cr_AdditionalConfigs_update (\<lambda>_. None)"])
    (simp_all add: ClusterContext_DeepCopyInto_def ClusterContext_same_def ClusterContext_refs_def)

definition AddonParams_same ::
    "('m, 's, 'x) store \<Rightarrow> AddonParams_ref \<Rightarrow> ('m, 's, 'x) store \<Rightarrow> AddonParams_ref \<Rightarrow> bool" where
  "AddonParams_same s p t q \<longleftrightarrow>
     ClusterContext_same s (pr_Context p) t (pr_Context q) \<and> map_same s (pr_Data p) t (pr_Data q) \<and>
     pr_Namespace p = pr_Namespace q"

definition AddonParams_refs :: "('m, 's, 'x) store \<Rightarrow> AddonParams_ref \<Rightarrow> nat set" where
  "AddonParams_refs s p = ClusterContext_refs s (pr_Context p) \<union> map_refs s (pr_Data p)"

interpretation AddonParams_copy: deep_copy AddonParams_DeepCopyInto AddonParams_same AddonParams_refs
  by (rule deep_copy_struct [OF deep_copy_pair [OF ClusterContext_copy.deep_copy_axioms map_copy.deep_copy_axioms],
        where sel = "\<lambda>p. (pr_Context p, pr_Data p)" and upd = "\<lambda>(c, d) p. p\<lparr>pr_Context := c, pr_Data := d\<rparr>"
          and flat = pr_Namespace])
    (auto simp: AddonParams_DeepCopyInto_def AddonParams_same_def AddonParams_refs_def pair_defs split: prod.splits)

definition KustomizeTemplate_same ::
    "('m, 's, 'x) store \<Rightarrow> KustomizeTemplate_ref \<Rightarrow> ('m, 's, 'x) store \<Rightarrow> KustomizeTemplate_ref \<Rightarrow> bool" where
  "KustomizeTemplate_same s p t q \<longleftrightarrow> map_same s (tr_Template p) t (tr_Template q)"

definition KustomizeTemplate_refs :: "('m, 's, 'x) store \<Rightarrow> KustomizeTemplate_ref \<Rightarrow> nat set" where
  "KustomizeTemplate_refs s p = map_refs s (tr_Template p)"

interpretation KustomizeTemplate_copy:
  deep_copy KustomizeTemplate_DeepCopyInto KustomizeTemplate_same KustomizeTemplate_refs
  by (rule deep_copy_struct [OF map_copy.deep_copy_axioms,
        where sel = tr_Template and upd = "\<lambda>d. tr_Template_update (\<lambda>_. d)" and flat = "\<lambda>_. ()"])
    (simp_all add: KustomizeTemplate_DeepCopyInto_def KustomizeTemplate_same_def KustomizeTemplate_refs_def)

definition KustomizeSpec_same ::
    "('m, 's, 'x) store \<Rightarrow> KustomizeSpec_ref \<Rightarrow> ('m, 's, 'x) store \<Rightarrow> KustomizeSpec_ref \<Rightarrow> bool" where
  "KustomizeSpec_same s p t q \<longleftrightarrow>
     map_same s (kr_Labels p) t (kr_Labels q) \<and> map_same s (kr_Annotations p) t (kr_Annotations q) \<and>
     strs_same s (kr_Resources p) t (kr_Resources q) \<and> KustomizeTemplate_same s (kr_Overlay p) t (kr_Overlay q)"

definition KustomizeSpec_refs :: "('m, 's, 'x) store \<Rightarrow> KustomizeSpec_ref \<Rightarrow> nat set" where
  "KustomizeSpec_refs s p = map_refs s (kr_Labels p) \<union> (map_refs s (kr_Annotations p) \<union>
     (strs_refs s (kr_Resources p) \<union> KustomizeTemplate_refs s (kr_Overlay p)))"

interpretation KustomizeSpec_copy: deep_copy KustomizeSpec_DeepCopyInto KustomizeSpec_same KustomizeSpec_refs
  by (rule deep_copy_struct [OF deep_copy_pair [OF map_copy.deep_copy_axioms
          deep_copy_pair [OF map_copy.deep_copy_axioms
            deep_copy_pair [OF strs_region.flat_slice [of "[]"] KustomizeTemplate_copy.deep_copy_axioms]]],
        where sel = "\<lambda>p. (kr_Labels p, kr_Annotations p, kr_Resources p, kr_Overlay p)"
          and upd = "\<lambda>(l, n, r, v) p. p\<lparr>kr_Labels := l, kr_Annotations := n, kr_Resources := r, kr_Overlay := v\<rparr>"
          and flat = "\<lambda>_. ()"])
    (auto simp: KustomizeSpec_DeepCopyInto_def KustomizeSpec_same_def KustomizeSpec_refs_def pair_defs
      split: prod.splits)

definition AddonOverridesSpec_same ::
    "('m, 's, 'x) store \<Rightarrow> AddonOverridesSpec_ref \<Rightarrow> ('m, 's, 'x) store \<Rightarrow> AddonOverridesSpec_ref \<Rightarrow> bool" where
  "AddonOverridesSpec_same s p t q \<longleftrightarrow>
     KustomizeSpec_same s (or_Kustomize p) t (or_Kustomize q) \<and> map_same s (or_Template p) t (or_Template q)"

definition AddonOverridesSpec_refs :: "('m, 's, 'x) store \<Rightarrow> AddonOverridesSpec_ref \<Rightarrow> nat set" where
  "AddonOverridesSpec_refs s p = KustomizeSpec_refs s (or_Kustomize p) \<union> map_refs s (or_Template p)"

interpretation AddonOverridesSpec_copy:
  deep_copy AddonOverridesSpec_DeepCopyInto AddonOverridesSpec_same AddonOverridesSpec_refs
  by (rule deep_copy_struct [OF deep_copy_pair [OF KustomizeSpec_copy.deep_copy_axioms map_copy.deep_copy_axioms],
        where sel = "\<lambda>p. (or_Kustomize p, or_Template p)"
          and upd = "\<lambda>(k, d) p. p\<lparr>or_Kustomize := k, or_Template := d\<rparr>" and flat = "\<lambda>_. ()"])
    (auto simp: AddonOverridesSpec_DeepCopyInto_def AddonOverridesSpec_same_def AddonOverridesSpec_refs_def pair_defs
      split: prod.splits)

definition SecretCmdSpec_same ::
    "('m, 's, 'x) store \<Rightarrow> SecretCmdSpec_ref \<Rightarrow> ('m, 's, 'x) store \<Rightarrow> SecretCmdSpec_ref \<Rightarrow> bool" where
  "SecretCmdSpec_same s p t q \<longleftrightarrow>
     strs_same s (sr_Args p) t (sr_Args q) \<and> p\<lparr>sr_Args := None\<rparr> = q\<lparr>sr_Args := None\<rparr>"

definition SecretCmdSpec_refs :: "('m, 's, 'x) store \<Rightarrow> SecretCmdSpec_ref \<Rightarrow> nat set" where
  "SecretCmdSpec_refs s p = strs_refs s (sr_Args p)"

interpretation SecretCmdSpec_copy: deep_copy SecretCmdSpec_DeepCopyInto SecretCmdSpec_same SecretCmdSpec_refs
  by (rule deep_copy_struct [OF strs_region.flat_slice [of "[]"],
        where sel = sr_Args and upd = "\<lambda>d. sr_Args_update (\<lambda>_. d)" and flat = "sr_Args_update (\<lambda>_. None)"])
    (simp_all add: SecretCmdSpec_DeepCopyInto_def SecretCmdSpec_same_def SecretCmdSpec_refs_def)

definition AddonStatus_same ::
    "('m, 's, 'x) store \<Rightarrow> AddonStatus_ref \<Rightarrow> ('m, 's, 'x) store \<Rightarrow> AddonStatus_ref \<Rightarrow> bool" where
  "AddonStatus_same s p t q \<longleftrightarrow>
     slice_same objs flat_same s (ur_Resources p) t (ur_Resources q) \<and>
     p\<lparr>ur_Resources := None\<rparr> = q\<lparr>ur_Resources := None\<rparr>"

definition AddonStatus_refs :: "('m, 's, 'x) store \<Rightarrow> AddonStatus_ref \<Rightarrow> nat set" where
  "AddonStatus_refs s p = slice_refs objs flat_refs s (ur_Resources p)"

interpretation AddonStatus_copy: deep_copy AddonStatus_DeepCopyInto AddonStatus_same AddonStatus_refs
  by (rule deep_copy_struct [OF objs_region.flat_slice [of zero_ObjectStatus],
        where sel = ur_Resources and upd = "\<lambda>d. ur_Resources_update (\<lambda>_. d)" and flat = "ur_Resources_update (\<lambda>_. None)"])
    (simp_all add: AddonStatus_DeepCopyInto_def AddonStatus_same_def AddonStatus_refs_def)

text \<open>The structs that the assignment copies.\<close>

interpretation WorkflowType_copy: deep_copy WorkflowType_DeepCopyInto flat_same flat_refs
  using flat_deep_copy by (simp add: WorkflowType_DeepCopyInto_def [abs_def])

interpretation LifecycleWorkflowSpec_copy: deep_copy LifecycleWorkflowSpec_DeepCopyInto flat_same flat_refs
  using flat_deep_copy by (simp add: LifecycleWorkflowSpec_DeepCopyInto_def [abs_def])

interpretation ObjectStatus_copy: deep_copy ObjectStatus_DeepCopyInto flat_same flat_refs
  using flat_deep_copy by (simp add: ObjectStatus_DeepCopyInto_def [abs_def])

interpretation AddonStatusLifecycle_copy: deep_copy AddonStatusLifecycle_DeepCopyInto flat_same flat_refs
  using flat_deep_copy by (simp add: AddonStatusLifecycle_DeepCopyInto_def [abs_def])

text \<open>
  What equal values and what references are for the types of the library, and that the
  library's copies are deep ones.
\<close>

record ('m, 's, 'l, 'x) meta_view =
  ObjectMeta_same :: "('m, 's, 'x) store \<Rightarrow> 'm \<Rightarrow> ('m, 's, 'x) store \<Rightarrow> 'm \<Rightarrow> bool"
  ObjectMeta_refs :: "('m, 's, 'x) store \<Rightarrow> 'm \<Rightarrow> nat set"
  LabelSelector_same :: "('m, 's, 'x) store \<Rightarrow> 's \<Rightarrow> ('m, 's, 'x) store \<Rightarrow> 's \<Rightarrow> bool"
  LabelSelector_refs :: "('m, 's, 'x) store \<Rightarrow> 's \<Rightarrow> nat set"
  ListMeta_same :: "('m, 's, 'x) store \<Rightarrow> 'l \<Rightarrow> ('m, 's, 'x) store \<Rightarrow> 'l \<Rightarrow> bool"
  ListMeta_refs :: "('m, 's, 'x) store \<Rightarrow> 'l \<Rightarrow> nat set"

definition meta_law :: "('m, 's, 'l, 'x) meta_view \<Rightarrow> ('m, 's, 'l, 'x) meta_lib \<Rightarrow> bool" where
  "meta_law V L \<longleftrightarrow>
     deep_copy (ObjectMeta_DeepCopyInto L) (ObjectMeta_same V) (ObjectMeta_refs V) \<and>
     deep_copy (LabelSelector_DeepCopyInto L) (LabelSelector_same V) (LabelSelector_refs V) \<and>
     deep_copy (ListMeta_DeepCopyInto L) (ListMeta_same V) (ListMeta_refs V)"

definition AddonSpec_same ::
    "('m, 's, 'l, 'x) meta_view \<Rightarrow> ('m, 's, 'x) store \<Rightarrow> 's AddonSpec_ref \<Rightarrow> ('m, 's, 'x) store \<Rightarrow> 's AddonSpec_ref \<Rightarrow> bool" where
  "AddonSpec_same V s p t q \<longleftrightarrow>
     PackageSpec_same s (ar_PackageSpec p) t (ar_PackageSpec q) \<and> AddonParams_same s (ar_Params p) t (ar_Params q) \<and>
     LabelSelector_same V s (ar_Selector p) t (ar_Selector q) \<and>
     AddonOverridesSpec_same s (ar_Overrides p) t (ar_Overrides q) \<and>
     slice_same secs SecretCmdSpec_same s (ar_Secrets p) t (ar_Secrets q) \<and> ar_Lifecycle p = ar_Lifecycle q"

definition AddonSpec_refs ::
    "('m, 's, 'l, 'x) meta_view \<Rightarrow> ('m, 's, 'x) store \<Rightarrow> 's AddonSpec_ref \<Rightarrow> nat set" where
  "AddonSpec_refs V s p = PackageSpec_refs s (ar_PackageSpec p) \<union> (AddonParams_refs s (ar_Params p) \<union>
     (LabelSelector_refs V s (ar_Selector p) \<union> (AddonOverridesSpec_refs s (ar_Overrides p) \<union>
      slice_refs secs SecretCmdSpec_refs s (ar_Secrets p))))"

lemma AddonSpec_deep_copy:
  assumes "meta_law V L"
  shows "deep_copy (AddonSpec_DeepCopyInto L) (AddonSpec_same V) (AddonSpec_refs V)"
  by (rule deep_copy_struct [OF deep_copy_pair [OF PackageSpec_copy.deep_copy_axioms
          deep_copy_pair [OF AddonParams_copy.deep_copy_axioms
            deep_copy_pair [OF assms [unfolded meta_law_def, THEN conjunct2, THEN conjunct1]
              deep_copy_pair [OF AddonOverridesSpec_copy.deep_copy_axioms
                secs_region.each_slice [OF SecretCmdSpec_copy.deep_copy_axioms, of zero_SecretCmdSpec]]]]],
        where sel = "\<lambda>p. (ar_PackageSpec p, ar_Params p, ar_Selector p, ar_Overrides p, ar_Secrets p)"
          and upd = "\<lambda>(g, r, l, v, c) p. p\<lparr>ar_PackageSpec := g, ar_Params := r, ar_Selector := l,
            ar_Overrides := v, ar_Secrets := c\<rparr>" and flat = ar_Lifecycle])
    (auto simp: AddonSpec_DeepCopyInto_def AddonSpec_same_def AddonSpec_refs_def pair_defs split: prod.splits)

definition Addon_same ::
    "('m, 's, 'l, 'x) meta_view \<Rightarrow> ('m, 's, 'x) store \<Rightarrow> ('m, 's) Addon_ref \<Rightarrow> ('m, 's, 'x) store \<Rightarrow>
     ('m, 's) Addon_ref \<Rightarrow> bool" where
  "Addon_same V s p t q \<longleftrightarrow>
     ObjectMeta_same V s (xr_ObjectMeta p) t (xr_ObjectMeta q) \<and> AddonSpec_same V s (xr_Spec p) t (xr_Spec q) \<and>
     AddonStatus_same s (xr_Status p) t (xr_Status q) \<and> xr_TypeMeta p = xr_TypeMeta q"

definition Addon_refs :: "('m, 's, 'l, 'x) meta_view \<Rightarrow> ('m, 's, 'x) store \<Rightarrow> ('m, 's) Addon_ref \<Rightarrow> nat set" where
  "Addon_refs V s p = ObjectMeta_refs V s (xr_ObjectMeta p) \<union>
     (AddonSpec_refs V s (xr_Spec p) \<union> AddonStatus_refs s (xr_Status p))"

lemma Addon_deep_copy:
  assumes "meta_law V L"
  shows "deep_copy (Addon_DeepCopyInto L) (Addon_same V) (Addon_refs V)"
  by (rule deep_copy_struct [OF deep_copy_pair [OF assms [unfolded meta_law_def, THEN conjunct1]
          deep_copy_pair [OF AddonSpec_deep_copy [OF assms] AddonStatus_copy.deep_copy_axioms]],
        where sel = "\<lambda>p. (xr_ObjectMeta p, xr_Spec p, xr_Status p)"
          and upd = "\<lambda>(m, c, u) p. p\<lparr>xr_ObjectMeta := m, xr_Spec := c, xr_Status := u\<rparr>" and flat = xr_TypeMeta])
    (auto simp: Addon_DeepCopyInto_def Addon_same_def Addon_refs_def pair_defs split: prod.splits)

definition AddonList_same ::
    "('m, 's, 'l, 'x) meta_view \<Rightarrow> ('m, 's, 'x) store \<Rightarrow> 'l AddonList_ref \<Rightarrow> ('m, 's, 'x) store \<Rightarrow> 'l AddonList_ref \<Rightarrow> bool" where
  "AddonList_same V s p t q \<longleftrightarrow>
     ListMeta_same V s (lr_ListMeta p) t (lr_ListMeta q) \<and>
     slice_same addons (Addon_same V) s (lr_Items p) t (lr_Items q) \<and> lr_TypeMeta p = lr_TypeMeta q"

definition AddonList_refs :: "('m, 's, 'l, 'x) meta_view \<Rightarrow> ('m, 's, 'x) store \<Rightarrow> 'l AddonList_ref \<Rightarrow> nat set" where
  "AddonList_refs V s p = ListMeta_refs V s (lr_ListMeta p) \<union> slice_refs addons (Addon_refs V) s (lr_Items p)"

lemma AddonList_deep_copy:
  assumes "meta_law V L"
  shows "deep_copy (AddonList_DeepCopyInto L) (AddonList_same V) (AddonList_refs V)"
  by (rule deep_copy_struct [OF deep_copy_pair [OF assms [unfolded meta_law_def, THEN conjunct2, THEN conjunct2]
          addons_region.each_slice [OF Addon_deep_copy [OF assms], of "zero_Addon_ref L"]],
        where sel = "\<lambda>p. (lr_ListMeta p, lr_Items p)"
          and upd = "\<lambda>(m, xs) p. p\<lparr>lr_ListMeta := m, lr_Items := xs\<rparr>" and flat = lr_TypeMeta])
    (auto simp: AddonList_DeepCopyInto_def AddonList_same_def AddonList_refs_def pair_defs split: prod.splits)

section \<open>Properties\<close>

text \<open>\<open>DeepCopyObject\<close> never wraps a \<open>nil\<close> pointer into an interface that is not \<open>nil\<close>.\<close>

lemma copy_object_nil:
  "fst (Addon_DeepCopyObject L \<rho> p s) \<noteq> Some (Addon_Object None)"
  "fst (AddonList_DeepCopyObject L \<rho> q s) \<noteq> Some (AddonList_Object None)"
  by (simp_all add: Addon_DeepCopyObject_def AddonList_DeepCopyObject_def split_def Let_def)

lemma new_copy_separated:
  assumes "deep_copy f same refs" and "rng_ok \<rho>" and "store_ok s" and "refs s x \<subseteq> {..<brk s}"
  obtains y t where "new_copy (f \<rho>) (Some x) s = (Some y, t)" and "is_copy same refs s x t y" and "same s x t x"
    and "refs t x \<inter> refs t y = {}"
    and "\<forall>u. agree (- refs t y) t u \<longrightarrow> same s x u x" and "\<forall>u. agree (- refs t x) t u \<longrightarrow> same s x u y"
proof -
  obtain y t where y: "f \<rho> x s = (y, t)" by (cases "f \<rho> x s")
  note sep = deep_copy.separated [OF assms y]
  show thesis
    using deep_copy.copies [OF assms y] sep(2) [of t]
    by (intro that [OF _ _ _ sep(1)] allI impI; (elim sep(2) sep(3))?) (simp_all add: new_copy_def y)
qed

text \<open>
  C26: A deep copy of a list of addons is equal to the original and independent of it. Take any
  store and any list of addons whose maps and slices are all allocated in it. \<open>DeepCopy\<close>
  returns a list that has the same contents, down to the distinction of \<open>nil\<close> and empty maps and slices;
  the original still has the contents it had; the two share no map and no array; and
  whatever is written afterwards through the copy leaves the original as it was, and
  whatever is written through the original leaves the copy as the original was. The copies of
  the three library types are assumed to promise the same.
\<close>

theorem deep_copy_separates:
  assumes "meta_law V L" and "rng_ok \<rho>" and "store_ok s" and "AddonList_refs V s l \<subseteq> {..<brk s}"
  shows "\<exists>c t. AddonList_DeepCopy L \<rho> (Some l) s = (Some c, t) \<and>
    AddonList_same V s l t c \<and> AddonList_same V s l t l \<and>
    AddonList_refs V t l \<inter> AddonList_refs V t c = {} \<and>
    (\<forall>u. agree (- AddonList_refs V t c) t u \<longrightarrow> AddonList_same V s l u l) \<and>
    (\<forall>u. agree (- AddonList_refs V t l) t u \<longrightarrow> AddonList_same V s l u c)"
proof -
  obtain c t where "new_copy (AddonList_DeepCopyInto L \<rho>) (Some l) s = (Some c, t)"
    "is_copy (AddonList_same V) (AddonList_refs V) s l t c" "AddonList_same V s l t l"
    "AddonList_refs V t l \<inter> AddonList_refs V t c = {}"
    "\<forall>u. agree (- AddonList_refs V t c) t u \<longrightarrow> AddonList_same V s l u l"
    "\<forall>u. agree (- AddonList_refs V t l) t u \<longrightarrow> AddonList_same V s l u c"
    using new_copy_separated [OF AddonList_deep_copy [OF assms(1)] assms(2-4)] .
  then show ?thesis by (intro exI [of _ c] exI [of _ t]) (simp add: AddonList_DeepCopy_def is_copy_def)
qed

text \<open>An instance: metadata and selectors that are one map each, and a list with one addon.\<close>

definition sample_lib :: "(ref, ref, string, unit) meta_lib" where
  "sample_lib = \<lparr>ObjectMeta_DeepCopyInto = copy_map, LabelSelector_DeepCopyInto = copy_map,
     ListMeta_DeepCopyInto = (\<lambda>_ x s. (x, s)), zero_ObjectMeta = None, zero_LabelSelector = None\<rparr>"

definition sample_view :: "(ref, ref, string, unit) meta_view" where
  "sample_view = \<lparr>ObjectMeta_same = map_same, ObjectMeta_refs = map_refs, LabelSelector_same = map_same,
     LabelSelector_refs = map_refs, ListMeta_same = flat_same, ListMeta_refs = flat_refs\<rparr>"

lemma sample_law: "meta_law sample_view sample_lib"
  using map_copy.deep_copy_axioms flat_deep_copy by (simp add: meta_law_def sample_lib_def sample_view_def)

definition sample_addon :: "(ref, ref) Addon_ref" where
  "sample_addon = xr_Spec_update (\<lambda>p. p\<lparr>ar_Secrets := Some 2,
      ar_PackageSpec := (ar_PackageSpec p)\<lparr>gr_PkgDeps := Some 0\<rparr>\<rparr>) (zero_Addon_ref sample_lib)"

definition sample_store :: "(ref, ref, unit) store" where
  "sample_store = \<lparr>brk = 4, maps = [0 \<mapsto> [(''x'', ''1'')]], strs = [1 \<mapsto> [''a'', ''b'']], objs = Map.empty,
     secs = [2 \<mapsto> [\<lparr>sr_Name = ''k'', sr_Cmd = 0, sr_Args = Some 1\<rparr>]], addons = [3 \<mapsto> [sample_addon]],
     libs = Map.empty\<rparr>"

definition sample_list :: "string AddonList_ref" where
  "sample_list = \<lparr>lr_TypeMeta = \<lparr>TypeMeta_Kind = [], TypeMeta_APIVersion = []\<rparr>, lr_ListMeta = [], lr_Items = Some 3\<rparr>"

lemmas refs_defs = AddonList_refs_def Addon_refs_def AddonSpec_refs_def AddonStatus_refs_def PackageSpec_refs_def
  AddonParams_refs_def ClusterContext_refs_def AddonOverridesSpec_refs_def KustomizeSpec_refs_def
  KustomizeTemplate_refs_def SecretCmdSpec_refs_def slice_refs_def map_refs_def deref_def

lemma sample_ok: "store_ok sample_store" "AddonList_refs sample_view sample_store sample_list \<subseteq> {..<brk sample_store}"
  "Addon_refs sample_view sample_store sample_addon \<subseteq> {..<brk sample_store}"
proof -
  show "store_ok sample_store" by (auto simp: store_ok_def sample_store_def ran_def gm_ok_def split: if_splits)
  show a: "Addon_refs sample_view sample_store sample_addon \<subseteq> {..<brk sample_store}"
    by (simp add: refs_defs sample_view_def sample_store_def sample_addon_def sample_lib_def zero_Addon_ref_def)
  then show "AddonList_refs sample_view sample_store sample_list \<subseteq> {..<brk sample_store}"
    by (simp add: AddonList_refs_def slice_refs_def deref_def sample_list_def)
      (simp add: sample_store_def sample_view_def)
qed

theorem deep_copy_separates_witness:
  "\<exists>c t. AddonList_DeepCopy sample_lib rev (Some sample_list) sample_store = (Some c, t) \<and>
    AddonList_same sample_view sample_store sample_list t c \<and>
    AddonList_refs sample_view t sample_list \<inter> AddonList_refs sample_view t c = {}"
  using deep_copy_separates [OF sample_law rng_ok_rev sample_ok(1,2)] by blast

section \<open>The value of an addon\<close>

text \<open>What an addon in the store denotes, where \<open>\<mu>\<close> and \<open>\<sigma>\<close> say it of the library's types.\<close>

definition package_value :: "('m, 's, 'x) store \<Rightarrow> PackageSpec_ref \<Rightarrow> PackageSpec" where
  "package_value s p = \<lparr>PkgChannel = gr_PkgChannel p, PkgName = gr_PkgName p, PkgVersion = gr_PkgVersion p,
     PkgType = gr_PkgType p, PkgDescription = gr_PkgDescription p, PkgDeps = deref (maps s) (gr_PkgDeps p)\<rparr>"

definition params_value :: "('m, 's, 'x) store \<Rightarrow> AddonParams_ref \<Rightarrow> AddonParams" where
  "params_value s p = \<lparr>Params_Namespace = pr_Namespace p,
     Params_Context = \<lparr>ClusterName = cr_ClusterName (pr_Context p), ClusterRegion = cr_ClusterRegion (pr_Context p),
       AdditionalConfigs = deref (maps s) (cr_AdditionalConfigs (pr_Context p))\<rparr>,
     Params_Data = deref (maps s) (pr_Data p)\<rparr>"

definition overrides_value :: "('m, 's, 'x) store \<Rightarrow> AddonOverridesSpec_ref \<Rightarrow> AddonOverridesSpec" where
  "overrides_value s v = (let k = or_Kustomize v in
     \<lparr>Overrides_Kustomize = \<lparr>Kustomize_Labels = deref (maps s) (kr_Labels k),
        Kustomize_Annotations = deref (maps s) (kr_Annotations k), Kustomize_Resources = deref (strs s) (kr_Resources k),
        Kustomize_Overlay = \<lparr>Overlay_Template = deref (maps s) (tr_Template (kr_Overlay k))\<rparr>\<rparr>,
      Overrides_Template = deref (maps s) (or_Template v)\<rparr>)"

definition secret_value :: "('m, 's, 'x) store \<Rightarrow> SecretCmdSpec_ref \<Rightarrow> SecretCmdSpec" where
  "secret_value s c = \<lparr>Secret_Name = sr_Name c, Secret_Cmd = sr_Cmd c, Secret_Args = deref (strs s) (sr_Args c)\<rparr>"

definition spec_value :: "(('m, 's, 'x) store \<Rightarrow> 's \<Rightarrow> LabelSelector) \<Rightarrow> ('m, 's, 'x) store \<Rightarrow> 's AddonSpec_ref \<Rightarrow> AddonSpec" where
  "spec_value \<sigma> s p = \<lparr>Spec_PackageSpec = package_value s (ar_PackageSpec p),
     Spec_Params = params_value s (ar_Params p), Spec_Selector = \<sigma> s (ar_Selector p),
     Spec_Overrides = overrides_value s (ar_Overrides p),
     Spec_Secrets = map (secret_value s) (deref (secs s) (ar_Secrets p)), Spec_Lifecycle = ar_Lifecycle p\<rparr>"

definition status_value :: "('m, 's, 'x) store \<Rightarrow> AddonStatus_ref \<Rightarrow> AddonStatus" where
  "status_value s u = \<lparr>Checksum = ur_Checksum u, Status_Lifecycle = ur_Lifecycle u,
     Resources = deref (objs s) (ur_Resources u), Reason = ur_Reason u, StartTime = ur_StartTime u\<rparr>"

definition addon_value ::
    "(('m, 's, 'x) store \<Rightarrow> 'm \<Rightarrow> ObjectMeta) \<Rightarrow> (('m, 's, 'x) store \<Rightarrow> 's \<Rightarrow> LabelSelector) \<Rightarrow>
     ('m, 's, 'x) store \<Rightarrow> ('m, 's) Addon_ref \<Rightarrow> Addon" where
  "addon_value \<mu> \<sigma> s a = \<lparr>Addon_Meta = \<mu> s (xr_ObjectMeta a), Spec = spec_value \<sigma> s (xr_Spec a),
     Status = status_value s (xr_Status a)\<rparr>"

text \<open>Metadata that are the same denote the same, and so do selectors, but for the order of their labels.\<close>

definition value_law ::
    "('m, 's, 'l, 'x) meta_view \<Rightarrow> (('m, 's, 'x) store \<Rightarrow> 'm \<Rightarrow> ObjectMeta) \<Rightarrow>
     (('m, 's, 'x) store \<Rightarrow> 's \<Rightarrow> LabelSelector) \<Rightarrow> bool" where
  "value_law V \<mu> \<sigma> \<longleftrightarrow>
     (\<forall>s x t y. ObjectMeta_same V s x t y \<longrightarrow> \<mu> s x = \<mu> t y) \<and>
     (\<forall>s x t y. store_ok s \<and> store_ok t \<and> LabelSelector_same V s x t y \<longrightarrow>
        same_map (MatchLabels (\<sigma> s x)) (MatchLabels (\<sigma> t y)) \<and>
        MatchExpressions (\<sigma> s x) = MatchExpressions (\<sigma> t y))"

lemma map_same_value:
  assumes "store_ok s" and "store_ok t" and "map_same s p t q"
  shows "same_map (deref (maps s) p) (deref (maps t) q)"
proof -
  have "gm_ok (deref (maps s) p)" "gm_ok (deref (maps t) q)"
    using assms(1,2) by (auto simp: deref_def store_ok_def ran_def split: option.split)
  with assms(3) show ?thesis by (simp add: same_map_def map_same_def)
qed

lemma strs_same_value: "strs_same s p t q \<Longrightarrow> deref (strs s) p = deref (strs t) q"
  by (simp add: slice_same_def list.rel_eq)

lemma secrets_same_value:
  assumes "slice_same secs SecretCmdSpec_same s p t q"
  shows "map (secret_value s) (deref (secs s) p) = map (secret_value t) (deref (secs t) q)"
proof -
  have "secret_value s x = secret_value t y" if "SecretCmdSpec_same s x t y" for x y
    using that strs_same_value [of s "sr_Args x" t "sr_Args y"]
    by (cases x; cases y) (simp add: SecretCmdSpec_same_def secret_value_def)
  then have "list_all2 (\<lambda>x y. secret_value s x = secret_value t y) (deref (secs s) p) (deref (secs t) q)"
    using assms unfolding slice_same_def by (blast intro: list_all2_mono)
  then show ?thesis by (simp add: list_all2_conv_all_nth list_eq_iff_nth_eq)
qed

lemma spec_same_value:
  assumes "value_law V \<mu> \<sigma>" and "store_ok s" and "store_ok t" and "AddonSpec_same V s p t q"
  shows "same_spec (spec_value \<sigma> s p) (spec_value \<sigma> t q)"
proof -
  note m = map_same_value [OF assms(2,3)]
  have parts: "PackageSpec_same s (ar_PackageSpec p) t (ar_PackageSpec q)" "AddonParams_same s (ar_Params p) t (ar_Params q)"
    "LabelSelector_same V s (ar_Selector p) t (ar_Selector q)" "AddonOverridesSpec_same s (ar_Overrides p) t (ar_Overrides q)"
    "slice_same secs SecretCmdSpec_same s (ar_Secrets p) t (ar_Secrets q)" "ar_Lifecycle p = ar_Lifecycle q"
    using assms(4) by (simp_all add: AddonSpec_same_def)
  have "same_package (package_value s (ar_PackageSpec p)) (package_value t (ar_PackageSpec q))"
    using parts(1) m by (cases "ar_PackageSpec p"; cases "ar_PackageSpec q")
      (simp add: PackageSpec_same_def same_package_def package_value_def)
  moreover have "same_params (params_value s (ar_Params p)) (params_value t (ar_Params q))"
    using parts(2) m by (cases "pr_Context (ar_Params p)"; cases "pr_Context (ar_Params q)")
      (simp add: AddonParams_same_def ClusterContext_same_def same_params_def params_value_def)
  moreover have "same_overrides (overrides_value s (ar_Overrides p)) (overrides_value t (ar_Overrides q))"
    using parts(4) m strs_same_value [of s "kr_Resources (or_Kustomize (ar_Overrides p))" t]
    by (simp add: AddonOverridesSpec_same_def KustomizeSpec_same_def KustomizeTemplate_same_def same_overrides_def
        overrides_value_def Let_def)
  moreover have "same_map (MatchLabels (\<sigma> s (ar_Selector p))) (MatchLabels (\<sigma> t (ar_Selector q)))"
    "MatchExpressions (\<sigma> s (ar_Selector p)) = MatchExpressions (\<sigma> t (ar_Selector q))"
    using assms(1-3) parts(3) unfolding value_law_def by blast+
  ultimately show ?thesis
    using parts(6) secrets_same_value [OF parts(5)] by (simp add: same_spec_def spec_value_def)
qed

text \<open>Equal addons have the same status, checksum and workflow names.\<close>

lemma addon_same_value:
  assumes "value_law V \<mu> \<sigma>" and "store_ok s" and "store_ok t" and "Addon_same V s a t b"
  shows "CalculateChecksum (addon_value \<mu> \<sigma> s a) = CalculateChecksum (addon_value \<mu> \<sigma> t b)"
    and "Status (addon_value \<mu> \<sigma> s a) = Status (addon_value \<mu> \<sigma> t b)"
    and "GetFormattedWorkflowName (addon_value \<mu> \<sigma> s a) step = GetFormattedWorkflowName (addon_value \<mu> \<sigma> t b) step"
proof -
  let ?a = "addon_value \<mu> \<sigma> s a" and ?b = "addon_value \<mu> \<sigma> t b"
  have spec: "same_spec (Spec ?a) (Spec ?b)"
    using assms by (simp add: addon_value_def Addon_same_def spec_same_value)
  then show chk: "CalculateChecksum ?a = CalculateChecksum ?b" by (simp add: CalculateChecksum_def fmt_Spec_same)
  have "ObjectMeta_same V s (xr_ObjectMeta a) t (xr_ObjectMeta b)" using assms(4) by (simp add: Addon_same_def)
  then have meta: "Addon_Meta ?a = Addon_Meta ?b" using assms(1) by (simp add: addon_value_def value_law_def)
  show "Status ?a = Status ?b"
    using assms(4) by (cases "xr_Status a"; cases "xr_Status b")
      (simp add: addon_value_def Addon_same_def AddonStatus_same_def status_value_def slice_same_def list.rel_eq)
  have "GetWorkflowType ?a step = GetWorkflowType ?b step"
    using spec by (simp add: GetWorkflowType_def same_spec_def)
  then show "GetFormattedWorkflowName ?a step = GetFormattedWorkflowName ?b step"
    using chk meta by (cases "GetWorkflowType ?b step") (simp_all add: GetFormattedWorkflowName_def)
qed

text \<open>
  Changing a deep copy never makes the controller think that the addon changed. The deep copy of
  an addon has the status, the checksum and, for every lifecycle step, the workflow name of the
  original; and whatever is written afterwards to the maps and slices of the copy, the
  checksum of the original stays the one that it had.
\<close>

lemma deep_copy_checksum:
  assumes "meta_law V L" and "value_law V \<mu> \<sigma>" and "rng_ok \<rho>" and "store_ok s" and "Addon_refs V s a \<subseteq> {..<brk s}"
  shows "\<exists>c t. Addon_DeepCopy L \<rho> (Some a) s = (Some c, t) \<and>
    Status (addon_value \<mu> \<sigma> t c) = Status (addon_value \<mu> \<sigma> s a) \<and>
    CalculateChecksum (addon_value \<mu> \<sigma> t c) = CalculateChecksum (addon_value \<mu> \<sigma> s a) \<and>
    (\<forall>step. GetFormattedWorkflowName (addon_value \<mu> \<sigma> t c) step = GetFormattedWorkflowName (addon_value \<mu> \<sigma> s a) step) \<and>
    (\<forall>u. store_ok u \<and> agree (- Addon_refs V t c) t u \<longrightarrow>
       CalculateChecksum (addon_value \<mu> \<sigma> u a) = CalculateChecksum (addon_value \<mu> \<sigma> s a))"
proof -
  obtain c t where new: "new_copy (Addon_DeepCopyInto L \<rho>) (Some a) s = (Some c, t)"
    and copy: "is_copy (Addon_same V) (Addon_refs V) s a t c"
    and later: "\<forall>u. agree (- Addon_refs V t c) t u \<longrightarrow> Addon_same V s a u a"
    by (rule new_copy_separated [OF Addon_deep_copy [OF assms(1)] assms(3-5)])
  have t: "store_ok t" "Addon_same V s a t c" using copy by (simp_all add: is_copy_def)
  have "CalculateChecksum (addon_value \<mu> \<sigma> u a) = CalculateChecksum (addon_value \<mu> \<sigma> s a)"
    if "store_ok u" and "agree (- Addon_refs V t c) t u" for u
    using addon_same_value(1) [OF assms(2,4) that(1)] later that(2) by metis
  then show ?thesis
    using new addon_same_value [OF assms(2,4) t] by (intro exI [of _ c] exI [of _ t]) (simp add: Addon_DeepCopy_def)
qed

definition sample_meta :: "(ref, ref, unit) store \<Rightarrow> ref \<Rightarrow> ObjectMeta" where
  "sample_meta s p = Addon_Meta (zero_Addon [] [])"

definition sample_selector :: "(ref, ref, unit) store \<Rightarrow> ref \<Rightarrow> LabelSelector" where
  "sample_selector s p = \<lparr>MatchLabels = deref (maps s) p, MatchExpressions = []\<rparr>"

lemma sample_values: "value_law sample_view sample_meta sample_selector"
  by (simp add: value_law_def sample_view_def sample_meta_def sample_selector_def map_same_value)

end
