(* ===== verification/Typed_Client.thy ===== *)
theory Typed_Client
  imports Addon_Validator
begin

text \<open>
  The registered group and version of \<^verbatim>\<open>api/addon/v1alpha1/register.go\<close> and the generated clients under
  \<^verbatim>\<open>pkg/client/clientset/versioned\<close>: the typed client of addons (\<^verbatim>\<open>typed/addon/v1alpha1/addon.go\<close>), how it
  and the clientset are configured (\<^verbatim>\<open>addon_client.go\<close>, \<^verbatim>\<open>clientset.go\<close>), and the fake client that tests use
  (\<^verbatim>\<open>fake/fake_addon.go\<close>). A request is the list of the builder calls that the code makes on it, with
  their arguments; what \<open>client-go\<close> does with it is an argument. The lemmas show where every
  request goes, what the timeouts are, that the fake client records the request that the
  real one sends, and which configurations a clientset is built from.
\<close>

section \<open>Groups, versions, kinds\<close>

record GroupVersion =
  gv_Group :: string
  gv_Version :: string

record GroupKind =
  gk_Group :: string
  gk_Kind :: string

record GroupResource =
  gr_Group :: string
  gr_Resource :: string

definition WithKind :: "GroupVersion \<Rightarrow> string \<Rightarrow> GroupVersionKind" where
  "WithKind gv kind = \<lparr>GVK_Kind = kind, GVK_Group = gv_Group gv, GVK_Version = gv_Version gv\<rparr>"

definition WithResource :: "GroupVersion \<Rightarrow> string \<Rightarrow> GroupVersionResource" where
  "WithResource gv res = \<lparr>GVR_Group = gv_Group gv, GVR_Version = gv_Version gv, GVR_Resource = res\<rparr>"

definition to_GroupKind :: "GroupVersionKind \<Rightarrow> GroupKind" where
  "to_GroupKind gvk = \<lparr>gk_Group = GVK_Group gvk, gk_Kind = GVK_Kind gvk\<rparr>"

definition to_GroupResource :: "GroupVersionResource \<Rightarrow> GroupResource" where
  "to_GroupResource gvr = \<lparr>gr_Group = GVR_Group gvr, gr_Resource = GVR_Resource gvr\<rparr>"

definition SchemeGroupVersion :: GroupVersion where
  "SchemeGroupVersion = \<lparr>gv_Group = ''addonmgr.keikoproj.io'', gv_Version = ''v1alpha1''\<rparr>"

definition AddonSchemaGroupVersionKind :: GroupVersionKind where
  "AddonSchemaGroupVersionKind =
     \<lparr>GVK_Kind = ''Addon'', GVK_Group = ''addonmgr.keikoproj.io'', GVK_Version = ''v1alpha1''\<rparr>"

definition Kind_of :: "string \<Rightarrow> GroupKind" where
  "Kind_of kind = to_GroupKind (WithKind SchemeGroupVersion kind)"

definition Resource_of :: "string \<Rightarrow> GroupResource" where
  "Resource_of res = to_GroupResource (WithResource SchemeGroupVersion res)"

text \<open>The Go types that are registered; the scheme is the library's.\<close>

datatype registered_type = Addon_type | AddonList_type

record 'sch scheme_lib =
  AddKnownTypes :: "GroupVersion \<Rightarrow> registered_type list \<Rightarrow> 'sch \<Rightarrow> 'sch"
  AddToGroupVersion :: "GroupVersion \<Rightarrow> 'sch \<Rightarrow> 'sch"

definition addKnownTypes :: "'sch scheme_lib \<Rightarrow> 'sch \<Rightarrow> goerr option \<times> 'sch" where
  "addKnownTypes L scheme =
     (let scheme1 = AddKnownTypes L SchemeGroupVersion [Addon_type, AddonList_type] scheme;
          scheme2 = AddToGroupVersion L SchemeGroupVersion scheme1
      in (None, scheme2))"

text \<open>
  The names of the API in \<^verbatim>\<open>api/addon/const.go\<close>, which the other packages spell out again instead of using them.
\<close>

definition API_Version :: string where
  "API_Version = ''v1alpha1''"

definition APIVersion :: string where
  "APIVersion = Group @ ''/'' @ API_Version"

definition AddonKind :: string where
  "AddonKind = ''Addon''"

definition AddonSingular :: string where
  "AddonSingular = ''addon''"

definition AddonPlural :: string where
  "AddonPlural = ''addons''"

definition AddonShortName :: string where
  "AddonShortName = ''addon''"

definition AddonFullName :: string where
  "AddonFullName = AddonPlural @ ''.'' @ Group"

section \<open>Requests\<close>

text \<open>
  The options of a request. Of \<open>metav1.ListOptions\<close> the code reads and writes two fields; the
  rest is the type \<open>'o\<close>, as are the other options, which are only passed on.
\<close>

record 'o ListOptions =
  Opts_Watch :: bool
  TimeoutSeconds :: "int64 option"
  Opts_rest :: 'o

datatype 'o params = GetOptions 'o | ListParams "'o ListOptions" | CreateOptions 'o | UpdateOptions 'o | PatchOptions 'o

datatype 'o body = Addon_body Addon | DeleteOptions_body 'o | Bytes_body string

datatype verb = Verb_Get | Verb_Post | Verb_Put | Verb_Delete | Verb_Patch string

datatype 'o call =
    Namespace string
  | Resource string
  | Name string
  | SubResource "string list"
  | VersionedParams "'o params"
  | Timeout int64
  | Body "'o body"

record 'o Request =
  req_Verb :: verb
  req_Calls :: "'o call list"

text \<open>
  What the client does with a request: \<open>Do\<close> sends it and returns a result, \<open>Watch\<close> opens a stream.
  \<open>Into\<close> decodes a result into an object that exists already, which it may leave as it was, and
  \<open>Error\<close> only asks for the error.
\<close>

record ('o, 'r, 'wi, 'l, 'w) rest_client =
  rest_Do :: "'o Request \<Rightarrow> 'w \<Rightarrow> 'r \<times> 'w"
  rest_Watch :: "'o Request \<Rightarrow> 'w \<Rightarrow> (goerr + 'wi) \<times> 'w"
  rest_Into :: "'r \<Rightarrow> Addon \<Rightarrow> Addon \<times> goerr option"
  rest_IntoList :: "'r \<Rightarrow> 'l \<times> Addon list \<Rightarrow> ('l \<times> Addon list) \<times> goerr option"
  rest_Error :: "'r \<Rightarrow> goerr option"
  zero_ListMeta :: 'l

record 'rc addons =
  addons_client :: 'rc
  addons_ns :: string

section \<open>The typed client\<close>

text \<open>\<open>time.Duration(n) * time.Second\<close>, a product of 64-bit integers.\<close>

definition list_timeout :: "'o ListOptions \<Rightarrow> int64" where
  "list_timeout opts = (case TimeoutSeconds opts of None \<Rightarrow> 0 | Some n \<Rightarrow> n * 1000000000)"

definition Get_request :: "string \<Rightarrow> string \<Rightarrow> 'o \<Rightarrow> 'o Request" where
  "Get_request ns name options = \<lparr>req_Verb = Verb_Get, req_Calls =
     [Namespace ns, Resource ''addons'', Name name, VersionedParams (GetOptions options)]\<rparr>"

definition addons_Get ::
    "('o, 'r, 'wi, 'l, 'w) rest_client addons \<Rightarrow> string \<Rightarrow> 'o \<Rightarrow> 'w \<Rightarrow> (Addon \<times> goerr option) \<times> 'w" where
  "addons_Get c name options w =
     (let result = zero_Addon [] [];
          (r, w1) = rest_Do (addons_client c) (Get_request (addons_ns c) name options) w
      in (rest_Into (addons_client c) r result, w1))"

definition List_request :: "string \<Rightarrow> 'o ListOptions \<Rightarrow> 'o Request" where
  "List_request ns opts = \<lparr>req_Verb = Verb_Get, req_Calls =
     [Namespace ns, Resource ''addons'', VersionedParams (ListParams opts), Timeout (list_timeout opts)]\<rparr>"

definition addons_List ::
    "('o, 'r, 'wi, 'l, 'w) rest_client addons \<Rightarrow> 'o ListOptions \<Rightarrow> 'w \<Rightarrow> (('l \<times> Addon list) \<times> goerr option) \<times> 'w" where
  "addons_List c opts w =
     (let result = (zero_ListMeta (addons_client c), []);
          (r, w1) = rest_Do (addons_client c) (List_request (addons_ns c) opts) w
      in (rest_IntoList (addons_client c) r result, w1))"

definition Watch_request :: "string \<Rightarrow> 'o ListOptions \<Rightarrow> 'o Request" where
  "Watch_request ns opts = \<lparr>req_Verb = Verb_Get, req_Calls =
     [Namespace ns, Resource ''addons'', VersionedParams (ListParams (opts\<lparr>Opts_Watch := True\<rparr>)), Timeout (list_timeout opts)]\<rparr>"

definition addons_Watch ::
    "('o, 'r, 'wi, 'l, 'w) rest_client addons \<Rightarrow> 'o ListOptions \<Rightarrow> 'w \<Rightarrow> (goerr + 'wi) \<times> 'w" where
  "addons_Watch c opts w = rest_Watch (addons_client c) (Watch_request (addons_ns c) opts) w"

definition Create_request :: "string \<Rightarrow> Addon \<Rightarrow> 'o \<Rightarrow> 'o Request" where
  "Create_request ns addon opts = \<lparr>req_Verb = Verb_Post, req_Calls =
     [Namespace ns, Resource ''addons'', VersionedParams (CreateOptions opts), Body (Addon_body addon)]\<rparr>"

definition addons_Create ::
    "('o, 'r, 'wi, 'l, 'w) rest_client addons \<Rightarrow> Addon \<Rightarrow> 'o \<Rightarrow> 'w \<Rightarrow> (Addon \<times> goerr option) \<times> 'w" where
  "addons_Create c addon opts w =
     (let result = zero_Addon [] [];
          (r, w1) = rest_Do (addons_client c) (Create_request (addons_ns c) addon opts) w
      in (rest_Into (addons_client c) r result, w1))"

definition Update_request :: "string \<Rightarrow> Addon \<Rightarrow> 'o \<Rightarrow> 'o Request" where
  "Update_request ns addon opts = \<lparr>req_Verb = Verb_Put, req_Calls =
     [Namespace ns, Resource ''addons'', Name (GetName addon), VersionedParams (UpdateOptions opts),
      Body (Addon_body addon)]\<rparr>"

definition addons_Update ::
    "('o, 'r, 'wi, 'l, 'w) rest_client addons \<Rightarrow> Addon \<Rightarrow> 'o \<Rightarrow> 'w \<Rightarrow> (Addon \<times> goerr option) \<times> 'w" where
  "addons_Update c addon opts w =
     (let result = zero_Addon [] [];
          (r, w1) = rest_Do (addons_client c) (Update_request (addons_ns c) addon opts) w
      in (rest_Into (addons_client c) r result, w1))"

definition UpdateStatus_request :: "string \<Rightarrow> Addon \<Rightarrow> 'o \<Rightarrow> 'o Request" where
  "UpdateStatus_request ns addon opts = \<lparr>req_Verb = Verb_Put, req_Calls =
     [Namespace ns, Resource ''addons'', Name (GetName addon), SubResource [''status''],
      VersionedParams (UpdateOptions opts), Body (Addon_body addon)]\<rparr>"

definition addons_UpdateStatus ::
    "('o, 'r, 'wi, 'l, 'w) rest_client addons \<Rightarrow> Addon \<Rightarrow> 'o \<Rightarrow> 'w \<Rightarrow> (Addon \<times> goerr option) \<times> 'w" where
  "addons_UpdateStatus c addon opts w =
     (let result = zero_Addon [] [];
          (r, w1) = rest_Do (addons_client c) (UpdateStatus_request (addons_ns c) addon opts) w
      in (rest_Into (addons_client c) r result, w1))"

definition Delete_request :: "string \<Rightarrow> string \<Rightarrow> 'o \<Rightarrow> 'o Request" where
  "Delete_request ns name opts = \<lparr>req_Verb = Verb_Delete, req_Calls =
     [Namespace ns, Resource ''addons'', Name name, Body (DeleteOptions_body opts)]\<rparr>"

definition addons_Delete ::
    "('o, 'r, 'wi, 'l, 'w) rest_client addons \<Rightarrow> string \<Rightarrow> 'o \<Rightarrow> 'w \<Rightarrow> goerr option \<times> 'w" where
  "addons_Delete c name opts w =
     (let (r, w1) = rest_Do (addons_client c) (Delete_request (addons_ns c) name opts) w
      in (rest_Error (addons_client c) r, w1))"

definition DeleteCollection_request :: "string \<Rightarrow> 'o \<Rightarrow> 'o ListOptions \<Rightarrow> 'o Request" where
  "DeleteCollection_request ns opts listOpts = \<lparr>req_Verb = Verb_Delete, req_Calls =
     [Namespace ns, Resource ''addons'', VersionedParams (ListParams listOpts), Timeout (list_timeout listOpts),
      Body (DeleteOptions_body opts)]\<rparr>"

definition addons_DeleteCollection ::
    "('o, 'r, 'wi, 'l, 'w) rest_client addons \<Rightarrow> 'o \<Rightarrow> 'o ListOptions \<Rightarrow> 'w \<Rightarrow> goerr option \<times> 'w" where
  "addons_DeleteCollection c opts listOpts w =
     (let (r, w1) = rest_Do (addons_client c) (DeleteCollection_request (addons_ns c) opts listOpts) w
      in (rest_Error (addons_client c) r, w1))"

definition Patch_request :: "string \<Rightarrow> string \<Rightarrow> string \<Rightarrow> string \<Rightarrow> 'o \<Rightarrow> string list \<Rightarrow> 'o Request" where
  "Patch_request ns name pt data opts subresources = \<lparr>req_Verb = Verb_Patch pt, req_Calls =
     [Namespace ns, Resource ''addons'', Name name, SubResource subresources, VersionedParams (PatchOptions opts),
      Body (Bytes_body data)]\<rparr>"

definition addons_Patch ::
    "('o, 'r, 'wi, 'l, 'w) rest_client addons \<Rightarrow> string \<Rightarrow> string \<Rightarrow> string \<Rightarrow> 'o \<Rightarrow> string list \<Rightarrow> 'w \<Rightarrow>
     (Addon \<times> goerr option) \<times> 'w" where
  "addons_Patch c name pt data opts subresources w =
     (let result = zero_Addon [] [];
          (r, w1) = rest_Do (addons_client c) (Patch_request (addons_ns c) name pt data opts subresources) w
      in (rest_Into (addons_client c) r result, w1))"

section \<open>Configuration\<close>

text \<open>
  A \<open>rest.Config\<close>, by the fields that the code reads or writes. The serializer, the rate limiter and the
  rate \<open>'q\<close> (a \<open>float32\<close>, only compared with zero) are the library's types.
\<close>

record ('ser, 'rl, 'q) Config =
  cfg_GroupVersion :: "GroupVersion option"
  cfg_APIPath :: string
  cfg_NegotiatedSerializer :: "'ser option"
  cfg_UserAgent :: string
  cfg_RateLimiter :: "'rl option"
  cfg_QPS :: 'q
  cfg_Burst :: int64

record ('ser, 'rl, 'q, 'h, 'rc, 'dc) config_lib =
  DefaultKubernetesUserAgent :: string
  WithoutConversion :: 'ser
  HTTPClientFor :: "('ser, 'rl, 'q) Config \<Rightarrow> goerr + 'h"
  RESTClientForConfigAndClient :: "('ser, 'rl, 'q) Config \<Rightarrow> 'h \<Rightarrow> goerr + 'rc"
  NewTokenBucketRateLimiter :: "'q \<Rightarrow> int64 \<Rightarrow> 'rl"
  NewDiscoveryClientForConfigAndClient :: "('ser, 'rl, 'q) Config \<Rightarrow> 'h \<Rightarrow> goerr + 'dc"
  NewDiscoveryClient :: "'rc \<Rightarrow> 'dc"
  positive_QPS :: "'q \<Rightarrow> bool"

definition setConfigDefaults ::
    "('ser, 'rl, 'q, 'h, 'rc, 'dc) config_lib \<Rightarrow> ('ser, 'rl, 'q) Config \<Rightarrow> goerr option \<times> ('ser, 'rl, 'q) Config" where
  "setConfigDefaults L config =
     (let config1 = config\<lparr>cfg_GroupVersion := Some SchemeGroupVersion, cfg_APIPath := ''/apis'',
            cfg_NegotiatedSerializer := Some (WithoutConversion L)\<rparr>;
          config2 = (if cfg_UserAgent config1 = [] then config1\<lparr>cfg_UserAgent := DefaultKubernetesUserAgent L\<rparr>
                     else config1)
      in (None, config2))"

text \<open>The client of the group, by the REST client it holds.\<close>

definition typed_NewForConfigAndClient ::
    "('ser, 'rl, 'q, 'h, 'rc, 'dc) config_lib \<Rightarrow> ('ser, 'rl, 'q) Config \<Rightarrow> 'h \<Rightarrow> goerr + 'rc" where
  "typed_NewForConfigAndClient L c h =
     (let (err, config) = setConfigDefaults L c
      in case err of Some e \<Rightarrow> Inl e
         | None \<Rightarrow>
             (case RESTClientForConfigAndClient L config h of Inl e \<Rightarrow> Inl e | Inr client \<Rightarrow> Inr client))"

definition typed_NewForConfig ::
    "('ser, 'rl, 'q, 'h, 'rc, 'dc) config_lib \<Rightarrow> ('ser, 'rl, 'q) Config \<Rightarrow> goerr + 'rc" where
  "typed_NewForConfig L c =
     (let (err, config) = setConfigDefaults L c
      in case err of Some e \<Rightarrow> Inl e
         | None \<Rightarrow>
             (case HTTPClientFor L config of
                Inl e \<Rightarrow> Inl e
              | Inr httpClient \<Rightarrow> typed_NewForConfigAndClient L config httpClient))"

definition typed_NewForConfigOrDie ::
    "('ser, 'rl, 'q, 'h, 'rc, 'dc) config_lib \<Rightarrow> ('ser, 'rl, 'q) Config \<Rightarrow> 'rc outcome" where
  "typed_NewForConfigOrDie L c =
     (case typed_NewForConfig L c of Inl e \<Rightarrow> Panic (Error e) | Inr client \<Rightarrow> Ret client)"

text \<open>The methods of a client that may be a \<open>nil\<close> pointer: \<open>RESTClient\<close> checks for it.\<close>

definition RESTClient :: "'rc option \<Rightarrow> 'rc option" where
  "RESTClient c = (case c of None \<Rightarrow> None | Some restClient \<Rightarrow> Some restClient)"

definition newAddons :: "'rc option \<Rightarrow> string \<Rightarrow> 'rc option addons" where
  "newAddons c namespace = \<lparr>addons_client = RESTClient c, addons_ns = namespace\<rparr>"

definition typed_Addons :: "'rc option \<Rightarrow> string \<Rightarrow> 'rc option addons" where
  "typed_Addons c namespace = newAddons c namespace"

definition typed_New :: "'rc \<Rightarrow> 'rc option" where
  "typed_New restClient = Some restClient"

record ('rc, 'dc) Clientset =
  DiscoveryClient :: 'dc
  addonmgrV1alpha1 :: 'rc

definition Clientset_NewForConfigAndClient ::
    "('ser, 'rl, 'q, 'h, 'rc, 'dc) config_lib \<Rightarrow> ('ser, 'rl, 'q) Config \<Rightarrow> 'h \<Rightarrow> goerr + ('rc, 'dc) Clientset" where
  "Clientset_NewForConfigAndClient L c httpClient =
     (if cfg_RateLimiter c = None \<and> positive_QPS L (cfg_QPS c) \<and> sint (cfg_Burst c) \<le> 0
      then Inl (Errorf ''burst is required to be greater than 0 when RateLimiter is not set and QPS is set to greater than 0'')
      else
        (let config = (if cfg_RateLimiter c = None \<and> positive_QPS L (cfg_QPS c)
                       then c\<lparr>cfg_RateLimiter := Some (NewTokenBucketRateLimiter L (cfg_QPS c) (cfg_Burst c))\<rparr> else c)
         in case typed_NewForConfigAndClient L config httpClient of
              Inl e \<Rightarrow> Inl e
            | Inr client \<Rightarrow>
                (case NewDiscoveryClientForConfigAndClient L config httpClient of
                   Inl e \<Rightarrow> Inl e
                 | Inr dc \<Rightarrow> Inr \<lparr>DiscoveryClient = dc, addonmgrV1alpha1 = client\<rparr>)))"

definition Clientset_NewForConfig ::
    "('ser, 'rl, 'q, 'h, 'rc, 'dc) config_lib \<Rightarrow> ('ser, 'rl, 'q) Config \<Rightarrow> goerr + ('rc, 'dc) Clientset" where
  "Clientset_NewForConfig L c =
     (let config = (if cfg_UserAgent c = [] then c\<lparr>cfg_UserAgent := DefaultKubernetesUserAgent L\<rparr> else c)
      in case HTTPClientFor L config of
           Inl e \<Rightarrow> Inl e
         | Inr httpClient \<Rightarrow> Clientset_NewForConfigAndClient L config httpClient)"

definition Clientset_NewForConfigOrDie ::
    "('ser, 'rl, 'q, 'h, 'rc, 'dc) config_lib \<Rightarrow> ('ser, 'rl, 'q) Config \<Rightarrow> ('rc, 'dc) Clientset outcome" where
  "Clientset_NewForConfigOrDie L c =
     (case Clientset_NewForConfig L c of Inl e \<Rightarrow> Panic (Error e) | Inr cs \<Rightarrow> Ret cs)"

definition Clientset_New :: "('ser, 'rl, 'q, 'h, 'rc, 'dc) config_lib \<Rightarrow> 'rc \<Rightarrow> ('rc, 'dc) Clientset" where
  "Clientset_New L c = \<lparr>DiscoveryClient = NewDiscoveryClient L c, addonmgrV1alpha1 = c\<rparr>"

definition Clientset_Discovery :: "('rc, 'dc) Clientset option \<Rightarrow> 'dc option" where
  "Clientset_Discovery c = (case c of None \<Rightarrow> None | Some cs \<Rightarrow> Some (DiscoveryClient cs))"

definition Clientset_AddonmgrV1alpha1 :: "('rc, 'dc) Clientset \<Rightarrow> 'rc" where
  "Clientset_AddonmgrV1alpha1 c = addonmgrV1alpha1 c"

section \<open>The fake client\<close>

text \<open>The actions that the fake client records, as the constructors of \<open>client-go/testing\<close> take them.\<close>

datatype 'o action =
    GetAction GroupVersionResource string string
  | ListAction GroupVersionResource GroupVersionKind string "'o ListOptions"
  | WatchAction GroupVersionResource string "'o ListOptions"
  | CreateAction GroupVersionResource string Addon
  | UpdateAction GroupVersionResource string Addon
  | UpdateSubresourceAction GroupVersionResource string string Addon
  | DeleteActionWithOptions GroupVersionResource string string 'o
  | DeleteCollectionAction GroupVersionResource string "'o ListOptions"
  | PatchSubresourceAction GroupVersionResource string string string string "string list"

datatype 'l fake_object = Fake_Addon Addon | Fake_AddonList 'l "Addon list" | Fake_other

record ('o, 'wi, 'l, 'sel, 'w) fake_lib =
  Invokes :: "'o action \<Rightarrow> 'l fake_object \<Rightarrow> 'w \<Rightarrow> ('l fake_object option \<times> goerr option) \<times> 'w"
  InvokesWatch :: "'o action \<Rightarrow> 'w \<Rightarrow> (goerr + 'wi) \<times> 'w"
  ExtractFromListOptions :: "'o ListOptions \<Rightarrow> 'sel option"
  Everything :: 'sel
  Matches :: "'sel \<Rightarrow> Addon \<Rightarrow> bool"
  fake_zero_ListMeta :: 'l

definition addonsResource :: GroupVersionResource where
  "addonsResource = \<lparr>GVR_Group = ''addonmgr.keikoproj.io'', GVR_Version = ''v1alpha1'', GVR_Resource = ''addons''\<rparr>"

definition addonsKind :: GroupVersionKind where
  "addonsKind = \<lparr>GVK_Kind = ''Addon'', GVK_Group = ''addonmgr.keikoproj.io'', GVK_Version = ''v1alpha1''\<rparr>"

text \<open>\<open>if obj == nil { return nil, err }; return obj.(*v1alpha1.Addon), err\<close>\<close>

definition as_Addon :: "'l fake_object option \<times> goerr option \<Rightarrow> (Addon option \<times> goerr option) outcome" where
  "as_Addon r =
     (case r of
        (None, err) \<Rightarrow> Ret (None, err)
      | (Some (Fake_Addon a), err) \<Rightarrow> Ret (Some a, err)
      | (Some _, err) \<Rightarrow> Panic ''interface conversion: runtime.Object is not *v1alpha1.Addon'')"

definition FakeAddons_Get ::
    "('o, 'wi, 'l, 'sel, 'w) fake_lib \<Rightarrow> string \<Rightarrow> string \<Rightarrow> 'w \<Rightarrow> (Addon option \<times> goerr option) outcome \<times> 'w" where
  "FakeAddons_Get F ns name w =
     (let (r, w1) = Invokes F (GetAction addonsResource ns name) (Fake_Addon (zero_Addon [] [])) w in (as_Addon r, w1))"

definition FakeAddons_List ::
    "('o, 'wi, 'l, 'sel, 'w) fake_lib \<Rightarrow> string \<Rightarrow> 'o ListOptions \<Rightarrow> 'w \<Rightarrow>
     (('l \<times> Addon list) option \<times> goerr option) outcome \<times> 'w" where
  "FakeAddons_List F ns opts w =
     (let ((obj, err), w1) = Invokes F (ListAction addonsResource addonsKind ns opts)
            (Fake_AddonList (fake_zero_ListMeta F) []) w
      in case obj of
           None \<Rightarrow> (Ret (None, err), w1)
         | Some (Fake_AddonList meta items) \<Rightarrow>
             (let label = (case ExtractFromListOptions F opts of None \<Rightarrow> Everything F | Some l \<Rightarrow> l);
                  list = fold (\<lambda>item ls. if Matches F label item then ls @ [item] else ls) items []
              in (Ret (Some (meta, list), err), w1))
         | Some _ \<Rightarrow> (Panic ''interface conversion: runtime.Object is not *v1alpha1.AddonList'', w1))"

definition FakeAddons_Watch ::
    "('o, 'wi, 'l, 'sel, 'w) fake_lib \<Rightarrow> string \<Rightarrow> 'o ListOptions \<Rightarrow> 'w \<Rightarrow> (goerr + 'wi) \<times> 'w" where
  "FakeAddons_Watch F ns opts w = InvokesWatch F (WatchAction addonsResource ns opts) w"

definition FakeAddons_Create ::
    "('o, 'wi, 'l, 'sel, 'w) fake_lib \<Rightarrow> string \<Rightarrow> Addon \<Rightarrow> 'w \<Rightarrow> (Addon option \<times> goerr option) outcome \<times> 'w" where
  "FakeAddons_Create F ns addon w =
     (let (r, w1) = Invokes F (CreateAction addonsResource ns addon) (Fake_Addon (zero_Addon [] [])) w in (as_Addon r, w1))"

definition FakeAddons_Update ::
    "('o, 'wi, 'l, 'sel, 'w) fake_lib \<Rightarrow> string \<Rightarrow> Addon \<Rightarrow> 'w \<Rightarrow> (Addon option \<times> goerr option) outcome \<times> 'w" where
  "FakeAddons_Update F ns addon w =
     (let (r, w1) = Invokes F (UpdateAction addonsResource ns addon) (Fake_Addon (zero_Addon [] [])) w in (as_Addon r, w1))"

definition FakeAddons_UpdateStatus ::
    "('o, 'wi, 'l, 'sel, 'w) fake_lib \<Rightarrow> string \<Rightarrow> Addon \<Rightarrow> 'w \<Rightarrow> (Addon option \<times> goerr option) outcome \<times> 'w" where
  "FakeAddons_UpdateStatus F ns addon w =
     (let (r, w1) = Invokes F (UpdateSubresourceAction addonsResource ''status'' ns addon) (Fake_Addon (zero_Addon [] [])) w
      in (as_Addon r, w1))"

definition FakeAddons_Delete ::
    "('o, 'wi, 'l, 'sel, 'w) fake_lib \<Rightarrow> string \<Rightarrow> string \<Rightarrow> 'o \<Rightarrow> 'w \<Rightarrow> goerr option \<times> 'w" where
  "FakeAddons_Delete F ns name opts w =
     (let ((_, err), w1) = Invokes F (DeleteActionWithOptions addonsResource ns name opts) (Fake_Addon (zero_Addon [] [])) w
      in (err, w1))"

definition FakeAddons_DeleteCollection ::
    "('o, 'wi, 'l, 'sel, 'w) fake_lib \<Rightarrow> string \<Rightarrow> 'o \<Rightarrow> 'o ListOptions \<Rightarrow> 'w \<Rightarrow> goerr option \<times> 'w" where
  "FakeAddons_DeleteCollection F ns opts listOpts w =
     (let ((_, err), w1) = Invokes F (DeleteCollectionAction addonsResource ns listOpts)
            (Fake_AddonList (fake_zero_ListMeta F) []) w
      in (err, w1))"

definition FakeAddons_Patch ::
    "('o, 'wi, 'l, 'sel, 'w) fake_lib \<Rightarrow> string \<Rightarrow> string \<Rightarrow> string \<Rightarrow> string \<Rightarrow> string list \<Rightarrow> 'w \<Rightarrow>
     (Addon option \<times> goerr option) outcome \<times> 'w" where
  "FakeAddons_Patch F ns name pt data subresources w =
     (let (r, w1) = Invokes F (PatchSubresourceAction addonsResource ns name pt data subresources)
            (Fake_Addon (zero_Addon [] [])) w
      in (as_Addon r, w1))"

section \<open>What a request asks for\<close>

text \<open>
  The attributes by which the API server tells requests apart: the verb, the resource, the namespace, the
  name, the subresources and the addon in the body.
\<close>

record attributes =
  at_Verb :: string
  at_Resource :: string
  at_Namespace :: string
  at_Name :: "string option"
  at_SubResource :: "string list"
  at_Object :: "Addon option"

definition call_Namespace :: "'o call list \<Rightarrow> string" where
  "call_Namespace cs = concat (List.map_filter (\<lambda>c. case c of Namespace ns \<Rightarrow> Some ns | _ \<Rightarrow> None) cs)"
definition call_Resource :: "'o call list \<Rightarrow> string" where
  "call_Resource cs = concat (List.map_filter (\<lambda>c. case c of Resource r \<Rightarrow> Some r | _ \<Rightarrow> None) cs)"
definition call_Names :: "'o call list \<Rightarrow> string list" where
  "call_Names cs = List.map_filter (\<lambda>c. case c of Name n \<Rightarrow> Some n | _ \<Rightarrow> None) cs"
definition call_SubResource :: "'o call list \<Rightarrow> string list" where
  "call_SubResource cs = concat (List.map_filter (\<lambda>c. case c of SubResource s \<Rightarrow> Some s | _ \<Rightarrow> None) cs)"
definition call_Objects :: "'o call list \<Rightarrow> Addon list" where
  "call_Objects cs = List.map_filter (\<lambda>c. case c of Body (Addon_body a) \<Rightarrow> Some a | _ \<Rightarrow> None) cs"
definition call_Watch :: "'o call list \<Rightarrow> bool" where
  "call_Watch cs = list_ex (\<lambda>c. case c of VersionedParams (ListParams opts) \<Rightarrow> Opts_Watch opts | _ \<Rightarrow> False) cs"

definition head_option :: "'a list \<Rightarrow> 'a option" where
  "head_option xs = (case xs of [] \<Rightarrow> None | x # _ \<Rightarrow> Some x)"

definition request_verb :: "'o Request \<Rightarrow> string" where
  "request_verb r =
     (let cs = req_Calls r; named = (call_Names cs \<noteq> [])
      in case req_Verb r of
           Verb_Get \<Rightarrow> if named then ''get'' else if call_Watch cs then ''watch'' else ''list''
         | Verb_Post \<Rightarrow> ''create''
         | Verb_Put \<Rightarrow> ''update''
         | Verb_Delete \<Rightarrow> if named then ''delete'' else ''delete-collection''
         | Verb_Patch _ \<Rightarrow> ''patch'')"

definition request_view :: "'o Request \<Rightarrow> attributes" where
  "request_view r = (let cs = req_Calls r in
     \<lparr>at_Verb = request_verb r, at_Resource = call_Resource cs, at_Namespace = call_Namespace cs,
      at_Name = head_option (call_Names cs), at_SubResource = call_SubResource cs,
      at_Object = head_option (call_Objects cs)\<rparr>)"

fun action_view :: "'o action \<Rightarrow> attributes" where
  "action_view (GetAction gvr ns n) = \<lparr>at_Verb = ''get'', at_Resource = GVR_Resource gvr, at_Namespace = ns,
     at_Name = Some n, at_SubResource = [], at_Object = None\<rparr>"
| "action_view (ListAction gvr gvk ns opts) = \<lparr>at_Verb = ''list'', at_Resource = GVR_Resource gvr, at_Namespace = ns,
     at_Name = None, at_SubResource = [], at_Object = None\<rparr>"
| "action_view (WatchAction gvr ns opts) = \<lparr>at_Verb = ''watch'', at_Resource = GVR_Resource gvr, at_Namespace = ns,
     at_Name = None, at_SubResource = [], at_Object = None\<rparr>"
| "action_view (CreateAction gvr ns a) = \<lparr>at_Verb = ''create'', at_Resource = GVR_Resource gvr, at_Namespace = ns,
     at_Name = None, at_SubResource = [], at_Object = Some a\<rparr>"
| "action_view (UpdateAction gvr ns a) = \<lparr>at_Verb = ''update'', at_Resource = GVR_Resource gvr, at_Namespace = ns,
     at_Name = Some (GetName a), at_SubResource = [], at_Object = Some a\<rparr>"
| "action_view (UpdateSubresourceAction gvr sub ns a) = \<lparr>at_Verb = ''update'', at_Resource = GVR_Resource gvr,
     at_Namespace = ns, at_Name = Some (GetName a), at_SubResource = [sub], at_Object = Some a\<rparr>"
| "action_view (DeleteActionWithOptions gvr ns n opts) = \<lparr>at_Verb = ''delete'', at_Resource = GVR_Resource gvr,
     at_Namespace = ns, at_Name = Some n, at_SubResource = [], at_Object = None\<rparr>"
| "action_view (DeleteCollectionAction gvr ns opts) = \<lparr>at_Verb = ''delete-collection'', at_Resource = GVR_Resource gvr,
     at_Namespace = ns, at_Name = None, at_SubResource = [], at_Object = None\<rparr>"
| "action_view (PatchSubresourceAction gvr ns n pt data subs) = \<lparr>at_Verb = ''patch'', at_Resource = GVR_Resource gvr,
     at_Namespace = ns, at_Name = Some n, at_SubResource = subs, at_Object = None\<rparr>"

text \<open>A REST client and a fake that keep a log of what they were asked.\<close>

definition rest_records :: "('o, 'r, 'wi, 'l, 'o Request list) rest_client \<Rightarrow> bool" where
  "rest_records C \<longleftrightarrow> (\<forall>r w. snd (rest_Do C r w) = w @ [r] \<and> snd (rest_Watch C r w) = w @ [r])"

definition fake_records :: "('o, 'wi, 'l, 'sel, 'o action list) fake_lib \<Rightarrow> bool" where
  "fake_records F \<longleftrightarrow> (\<forall>a x w. snd (Invokes F a x w) = w @ [a] \<and> snd (InvokesWatch F a w) = w @ [a])"

lemmas request_defs = Get_request_def List_request_def Watch_request_def Create_request_def Update_request_def
  UpdateStatus_request_def Delete_request_def DeleteCollection_request_def Patch_request_def

lemmas addons_defs = addons_Get_def addons_List_def addons_Watch_def addons_Create_def addons_Update_def
  addons_UpdateStatus_def addons_Delete_def addons_DeleteCollection_def addons_Patch_def

lemmas fake_defs = FakeAddons_Get_def FakeAddons_List_def FakeAddons_Watch_def FakeAddons_Create_def FakeAddons_Update_def
  FakeAddons_UpdateStatus_def FakeAddons_Delete_def FakeAddons_DeleteCollection_def FakeAddons_Patch_def

lemmas view_defs = request_view_def request_verb_def call_Namespace_def call_Resource_def call_Names_def
  call_SubResource_def call_Objects_def call_Watch_def head_option_def

text \<open>Every operation of the typed client makes one request, and every operation of the fake records one action.\<close>

lemma addons_logs:
  assumes "rest_records C" and "addons_client c = C"
  shows "snd (addons_Get c name o1 w) = w @ [Get_request (addons_ns c) name o1]"
    and "snd (addons_List c opts w) = w @ [List_request (addons_ns c) opts]"
    and "snd (addons_Watch c opts w) = w @ [Watch_request (addons_ns c) opts]"
    and "snd (addons_Create c a o1 w) = w @ [Create_request (addons_ns c) a o1]"
    and "snd (addons_Update c a o1 w) = w @ [Update_request (addons_ns c) a o1]"
    and "snd (addons_UpdateStatus c a o1 w) = w @ [UpdateStatus_request (addons_ns c) a o1]"
    and "snd (addons_Delete c name o1 w) = w @ [Delete_request (addons_ns c) name o1]"
    and "snd (addons_DeleteCollection c o1 opts w) = w @ [DeleteCollection_request (addons_ns c) o1 opts]"
    and "snd (addons_Patch c name pt data o1 subs w) = w @ [Patch_request (addons_ns c) name pt data o1 subs]"
  using assms by (simp_all add: addons_defs rest_records_def split_def Let_def)

lemma fake_logs:
  assumes "fake_records F"
  shows "snd (FakeAddons_Get F ns name w) = w @ [GetAction addonsResource ns name]"
    and "snd (FakeAddons_List F ns opts w) = w @ [ListAction addonsResource addonsKind ns opts]"
    and "snd (FakeAddons_Watch F ns opts w) = w @ [WatchAction addonsResource ns opts]"
    and "snd (FakeAddons_Create F ns a w) = w @ [CreateAction addonsResource ns a]"
    and "snd (FakeAddons_Update F ns a w) = w @ [UpdateAction addonsResource ns a]"
    and "snd (FakeAddons_UpdateStatus F ns a w) = w @ [UpdateSubresourceAction addonsResource ''status'' ns a]"
    and "snd (FakeAddons_Delete F ns name o1 w) = w @ [DeleteActionWithOptions addonsResource ns name o1]"
    and "snd (FakeAddons_DeleteCollection F ns o1 opts w) = w @ [DeleteCollectionAction addonsResource ns opts]"
    and "snd (FakeAddons_Patch F ns name pt data subs w) = w @ [PatchSubresourceAction addonsResource ns name pt data subs]"
  using assms by (simp_all add: fake_defs fake_records_def split_def Let_def split: option.split fake_object.split)

text \<open>Every package means the same group, version, kind and resource.\<close>

lemma names_agree:
  "SchemeGroupVersion = \<lparr>gv_Group = Group, gv_Version = API_Version\<rparr>"
  "WithResource SchemeGroupVersion AddonPlural = AddonGVR" "AddonGVR = addonsResource"
  "WithKind SchemeGroupVersion AddonKind = AddonSchemaGroupVersionKind" "AddonSchemaGroupVersionKind = addonsKind"
  "AddonFullName = gr_Resource (Resource_of AddonPlural) @ ''.'' @ gr_Group (Resource_of AddonPlural)"
  by (simp_all add: SchemeGroupVersion_def API_Version_def Group_def WithResource_def WithKind_def AddonPlural_def AddonKind_def
      AddonGVR_def addonsResource_def addonsKind_def AddonSchemaGroupVersionKind_def AddonFullName_def Resource_of_def
      to_GroupResource_def)

section \<open>Properties\<close>

text \<open>The fake list holds the items that match the label selector, in their order.\<close>

lemma fold_filter_append: "fold (\<lambda>x ls. if P x then ls @ [x] else ls) xs acc = acc @ filter P xs"
  by (induction xs arbitrary: acc) auto

lemma FakeAddons_List_filters:
  assumes "Invokes F (ListAction addonsResource addonsKind ns opts) (Fake_AddonList (fake_zero_ListMeta F) []) w =
    ((Some (Fake_AddonList meta items), err), w1)"
  shows "FakeAddons_List F ns opts w = (Ret (Some (meta,
    filter (Matches F (case ExtractFromListOptions F opts of None \<Rightarrow> Everything F | Some l \<Rightarrow> l)) items), err), w1)"
  using assms by (simp add: FakeAddons_List_def fold_filter_append)

text \<open>A program that uses the client is a sequence of operations.\<close>

datatype 'o client_op =
    Op_Get string 'o
  | Op_List "'o ListOptions"
  | Op_Watch "'o ListOptions"
  | Op_Create Addon 'o
  | Op_Update Addon 'o
  | Op_UpdateStatus Addon 'o
  | Op_Delete string 'o
  | Op_DeleteCollection 'o "'o ListOptions"
  | Op_Patch string string string 'o "string list"

fun real_step :: "('o, 'r, 'wi, 'l, 'w) rest_client addons \<Rightarrow> 'o client_op \<Rightarrow> 'w \<Rightarrow> 'w" where
  "real_step c (Op_Get n o1) w = snd (addons_Get c n o1 w)"
| "real_step c (Op_List opts) w = snd (addons_List c opts w)"
| "real_step c (Op_Watch opts) w = snd (addons_Watch c opts w)"
| "real_step c (Op_Create a o1) w = snd (addons_Create c a o1 w)"
| "real_step c (Op_Update a o1) w = snd (addons_Update c a o1 w)"
| "real_step c (Op_UpdateStatus a o1) w = snd (addons_UpdateStatus c a o1 w)"
| "real_step c (Op_Delete n o1) w = snd (addons_Delete c n o1 w)"
| "real_step c (Op_DeleteCollection o1 opts) w = snd (addons_DeleteCollection c o1 opts w)"
| "real_step c (Op_Patch n pt d o1 subs) w = snd (addons_Patch c n pt d o1 subs w)"

fun fake_step :: "('o, 'wi, 'l, 'sel, 'w) fake_lib \<Rightarrow> string \<Rightarrow> 'o client_op \<Rightarrow> 'w \<Rightarrow> 'w" where
  "fake_step F ns (Op_Get n o1) w = snd (FakeAddons_Get F ns n w)"
| "fake_step F ns (Op_List opts) w = snd (FakeAddons_List F ns opts w)"
| "fake_step F ns (Op_Watch opts) w = snd (FakeAddons_Watch F ns opts w)"
| "fake_step F ns (Op_Create a o1) w = snd (FakeAddons_Create F ns a w)"
| "fake_step F ns (Op_Update a o1) w = snd (FakeAddons_Update F ns a w)"
| "fake_step F ns (Op_UpdateStatus a o1) w = snd (FakeAddons_UpdateStatus F ns a w)"
| "fake_step F ns (Op_Delete n o1) w = snd (FakeAddons_Delete F ns n o1 w)"
| "fake_step F ns (Op_DeleteCollection o1 opts) w = snd (FakeAddons_DeleteCollection F ns o1 opts w)"
| "fake_step F ns (Op_Patch n pt d o1 subs) w = snd (FakeAddons_Patch F ns n pt d subs w)"

lemma step_views:
  assumes "rest_records (addons_client c)" and "fake_records F"
    and "\<forall>opts. op = Op_List opts \<longrightarrow> \<not> Opts_Watch opts"
  shows "\<exists>r a. real_step c op w = w @ [r] \<and> fake_step F (addons_ns c) op v = v @ [a] \<and> request_view r = action_view a"
  using assms(3)
  by (cases op) (simp_all add: addons_logs [OF assms(1) refl] fake_logs [OF assms(2)] request_defs view_defs
      addonsResource_def List.map_filter_def)


definition log_rest :: "(unit, unit, unit, unit, unit Request list) rest_client" where
  "log_rest = \<lparr>rest_Do = (\<lambda>r w. ((), w @ [r])), rest_Watch = (\<lambda>r w. (Inr (), w @ [r])), rest_Into = (\<lambda>_ x. (x, None)),
     rest_IntoList = (\<lambda>_ x. (x, None)), rest_Error = (\<lambda>_. None), zero_ListMeta = ()\<rparr>"

definition log_fake :: "(unit, unit, unit, unit, unit action list) fake_lib" where
  "log_fake = \<lparr>Invokes = (\<lambda>a x w. ((Some x, None), w @ [a])), InvokesWatch = (\<lambda>a w. (Inr (), w @ [a])),
     ExtractFromListOptions = (\<lambda>_. None), Everything = (), Matches = (\<lambda>_ _. True), fake_zero_ListMeta = ()\<rparr>"


text \<open>
  C39: The timeout of a list, a watch or a collective deletion is the requested number of seconds exactly
  up to 9223372036 of them (292 years), negative numbers alike, and the product wraps for every other
  number: the request then carries another duration.
\<close>

theorem list_timeout_bounds:
  assumes "TimeoutSeconds opts = Some n" and "r \<in> {List_request ns opts, Watch_request ns opts, DeleteCollection_request ns o1 opts}"
  shows "\<exists>d. Timeout d \<in> set (req_Calls r) \<and>
    (sint d = sint n * 1000000000 \<longleftrightarrow> -9223372036 \<le> sint n \<and> sint n \<le> 9223372036)"
proof -
  let ?d = "n * 1000000000" and ?m = "sint n * 1000000000"
  have "sint (1000000000 :: int64) = 1000000000" by simp
  then have d: "sint ?d = signed_take_bit 63 ?m" by (simp add: sint_word_ariths)
  have "sint ?d = ?m \<longleftrightarrow> -(2 ^ 63) \<le> ?m \<and> ?m < 2 ^ 63"
    unfolding d by (simp add: signed_take_bit_int_eq_self_iff)
  moreover have "(-(2 ^ 63) \<le> ?m \<and> ?m < 2 ^ 63) \<longleftrightarrow> -9223372036 \<le> sint n \<and> sint n \<le> 9223372036" by auto
  ultimately show ?thesis
    using assms by (intro exI [of _ ?d]) (auto simp: request_defs list_timeout_def)
qed

theorem list_timeout_bounds_witness:
  "\<exists>d. Timeout d \<in> set (req_Calls (List_request ''ns'' \<lparr>Opts_Watch = False, TimeoutSeconds = Some 9223372037, Opts_rest = ()\<rparr>)) \<and>
    sint d \<noteq> 9223372037 * 1000000000"
  using list_timeout_bounds [of "\<lparr>Opts_Watch = False, TimeoutSeconds = Some 9223372037, Opts_rest = ()\<rparr>" 9223372037
      "List_request ''ns'' \<lparr>Opts_Watch = False, TimeoutSeconds = Some 9223372037, Opts_rest = ()\<rparr>" "''ns''" "()"]
  by simp

text \<open>
  A clientset is only built with a client of the group's version under \<open>/apis\<close>, and never with a rate
  and no limiter: the limiter is the given one, or a new one with a positive burst.
\<close>

lemma clientset_configured:
  assumes "Clientset_NewForConfig L c = Inr cs"
  obtains config h where "RESTClientForConfigAndClient L config h = Inr (addonmgrV1alpha1 cs)"
    and "cfg_GroupVersion config = Some SchemeGroupVersion" and "cfg_APIPath config = ''/apis''"
    and "cfg_UserAgent config = (if cfg_UserAgent c = [] then DefaultKubernetesUserAgent L else cfg_UserAgent c)"
    and "positive_QPS L (cfg_QPS c) \<Longrightarrow> cfg_RateLimiter config =
      Some (case cfg_RateLimiter c of Some l \<Rightarrow> l | None \<Rightarrow> NewTokenBucketRateLimiter L (cfg_QPS c) (cfg_Burst c))"
    and "positive_QPS L (cfg_QPS c) \<Longrightarrow> cfg_RateLimiter c = None \<Longrightarrow> 0 < sint (cfg_Burst c)"
  using assms
  by (auto simp: Clientset_NewForConfig_def Clientset_NewForConfigAndClient_def typed_NewForConfigAndClient_def
      setConfigDefaults_def Let_def split: sum.splits if_splits option.splits)

text \<open>A rate without a limiter and without a burst is refused, before anything is connected but the HTTP client.\<close>

lemma burst_required:
  assumes "cfg_RateLimiter c = None" and "positive_QPS L (cfg_QPS c)" and "sint (cfg_Burst c) \<le> 0"
  shows "\<exists>e. Clientset_NewForConfig L c = Inl e"
  using assms by (auto simp: Clientset_NewForConfig_def Clientset_NewForConfigAndClient_def Let_def split: sum.splits)

section \<open>Scheme and fake clientset\<close>

text \<open>
  \<open>init\<close> of the package \<open>scheme\<close>: the group version \<open>v1\<close> and the types of the clientset are added to a scheme, and
  an error of the second is a panic.
\<close>

definition clientset_scheme_init :: "'sch scheme_lib \<Rightarrow> ('sch, unit) gom" where
  "clientset_scheme_init L =
     gbind (gmodify (AddToGroupVersion L \<lparr>gv_Group = [], gv_Version = ''v1''\<rparr>)) (\<lambda>_ scheme.
       case addKnownTypes L scheme of (Some err, scheme1) \<Rightarrow> (Panic (Error err), scheme1)
       | (None, scheme1) \<Rightarrow> (Ret (), scheme1))"

lemma clientset_scheme_init_returns: "fst (clientset_scheme_init L s) = Ret ()"
  by (simp add: clientset_scheme_init_def go_simps addKnownTypes_def Let_def)

text \<open>The package \<open>fake\<close> has a scheme of its own.\<close>

definition fake_scheme_init :: "'sch scheme_lib \<Rightarrow> ('sch, unit) gom" where
  "fake_scheme_init L =
     gbind (gmodify (AddToGroupVersion L \<lparr>gv_Group = [], gv_Version = ''v1''\<rparr>)) (\<lambda>_ scheme.
       case addKnownTypes L scheme of (Some err, scheme1) \<Rightarrow> (Panic (Error err), scheme1)
       | (None, scheme1) \<Rightarrow> (Ret (), scheme1))"

lemma fake_scheme_init_same: "fake_scheme_init = clientset_scheme_init"
  by (simp add: fake_scheme_init_def clientset_scheme_init_def fun_eq_iff)

text \<open>
  The object trackers and fakes of \<open>client-go/testing\<close> are behind pointers, which are numbers here: adding an object may
  fail, a tracker can be watched, and a fake has chains of reactors.
\<close>

datatype reaction = ObjectReaction nat | WatchReaction nat

record ('obj, 'wi, 'w) fake_set_lib =
  NewObjectTracker :: "'w \<Rightarrow> nat \<times> 'w"
  tracker_Add :: "nat \<Rightarrow> 'obj \<Rightarrow> 'w \<Rightarrow> goerr option \<times> 'w"
  tracker_Watch :: "nat \<Rightarrow> GroupVersionResource \<Rightarrow> string \<Rightarrow> 'w \<Rightarrow> (goerr + 'wi) \<times> 'w"
  new_Fake :: "'w \<Rightarrow> nat \<times> 'w"
  AddReactor :: "nat \<Rightarrow> string \<Rightarrow> string \<Rightarrow> reaction \<Rightarrow> 'w \<Rightarrow> 'w"
  AddWatchReactor :: "nat \<Rightarrow> string \<Rightarrow> reaction \<Rightarrow> 'w \<Rightarrow> 'w"

text \<open>The discovery client is known by the fake that it points to.\<close>

record fake_Clientset =
  fcs_Fake :: nat
  fcs_discovery :: nat
  fcs_tracker :: nat

definition add_object :: "('obj, 'wi, 'w) fake_set_lib \<Rightarrow> nat \<Rightarrow> 'obj \<Rightarrow> ('w, unit) gom" where
  "add_object T o1 obj w = (case tracker_Add T o1 obj w of (Some err, w1) \<Rightarrow> (Panic (Error err), w1) | (None, w1) \<Rightarrow> (Ret (), w1))"

definition NewSimpleClientset :: "('obj, 'wi, 'w) fake_set_lib \<Rightarrow> 'obj list \<Rightarrow> ('w, fake_Clientset) gom" where
  "NewSimpleClientset T objects = (\<lambda>w0.
     let (o1, w) = NewObjectTracker T w0
     in gbind (gfor (add_object T o1) objects) (\<lambda>_ w.
          let (fake, w1) = new_Fake T w;
              cs = \<lparr>fcs_Fake = fake, fcs_discovery = fake, fcs_tracker = o1\<rparr>;
              w2 = AddReactor T (fcs_Fake cs) ''*'' ''*'' (ObjectReaction o1) w1;
              w3 = AddWatchReactor T (fcs_Fake cs) ''*'' (WatchReaction o1) w2
          in (Ret cs, w3)) w)"

text \<open>The reaction to a watch: handled with the tracker's stream, or left to others with its error.\<close>

definition watch_reaction ::
    "('obj, 'wi, 'w) fake_set_lib \<Rightarrow> nat \<Rightarrow> GroupVersionResource \<Rightarrow> string \<Rightarrow> 'w \<Rightarrow>
     (bool \<times> 'wi option \<times> goerr option) \<times> 'w" where
  "watch_reaction T o1 gvr ns w =
     (case tracker_Watch T o1 gvr ns w of
        (Inl err, w1) \<Rightarrow> ((False, None, Some err), w1)
      | (Inr watch, w1) \<Rightarrow> ((True, Some watch, None), w1))"

definition fake_Discovery :: "fake_Clientset \<Rightarrow> nat" where
  "fake_Discovery c = fcs_discovery c"

definition fake_Tracker :: "fake_Clientset \<Rightarrow> nat" where
  "fake_Tracker c = fcs_tracker c"

record FakeAddonmgrV1alpha1 =
  group_Fake :: nat

record FakeAddons =
  addons_Fake :: FakeAddonmgrV1alpha1
  fake_ns :: string

definition fake_AddonmgrV1alpha1 :: "fake_Clientset \<Rightarrow> FakeAddonmgrV1alpha1" where
  "fake_AddonmgrV1alpha1 c = \<lparr>group_Fake = fcs_Fake c\<rparr>"

definition fake_Addons :: "FakeAddonmgrV1alpha1 \<Rightarrow> string \<Rightarrow> FakeAddons" where
  "fake_Addons c namespace = \<lparr>addons_Fake = c, fake_ns = namespace\<rparr>"

text \<open>
  The result is an interface with a nil pointer in it, which is not the nil interface: \<open>Some None\<close>, where
  the real client of a nil pointer gives \<open>None\<close>.
\<close>

definition fake_RESTClient :: "FakeAddonmgrV1alpha1 \<Rightarrow> 'rc option option" where
  "fake_RESTClient c = (let ret = None in Some ret)"

lemma RESTClient_nil: "fake_RESTClient c \<noteq> None" "RESTClient None = None"
  by (simp_all add: fake_RESTClient_def RESTClient_def)

text \<open>
  A new fake clientset has one fake, which its discovery client and its clients of addons in all namespaces share, and
  which reacts to everything with the tracker that the clientset hands out; an object that cannot be added is a panic.
\<close>

lemma add_objects_Ret:
  assumes "\<And>obj w. fst (tracker_Add T o1 obj w) = None"
  shows "gfor (add_object T o1) objects w = (Ret (), fold (\<lambda>obj w. snd (tracker_Add T o1 obj w)) objects w)"
proof -
  have "add_object T o1 obj w = (Ret (), snd (tracker_Add T o1 obj w))" for obj w
    using assms [of obj w] by (cases "tracker_Add T o1 obj w") (simp add: add_object_def)
  then show ?thesis by (induction objects arbitrary: w) (simp_all add: gret_def gbind_def)
qed

lemma fake_clientset_shares:
  assumes "NewObjectTracker T w = (o1, w1)" and "\<And>obj w. fst (tracker_Add T o1 obj w) = None"
    and "new_Fake T (fold (\<lambda>obj w. snd (tracker_Add T o1 obj w)) objects w1) = (fake, w2)"
  obtains cs where "NewSimpleClientset T objects w =
      (Ret cs, AddWatchReactor T fake ''*'' (WatchReaction (fake_Tracker cs))
         (AddReactor T fake ''*'' ''*'' (ObjectReaction (fake_Tracker cs)) w2))"
    and "fake_Discovery cs = fake" and "\<And>ns. group_Fake (addons_Fake (fake_Addons (fake_AddonmgrV1alpha1 cs) ns)) = fake"
  using assms
  by (simp add: NewSimpleClientset_def gbind_def add_objects_Ret fake_Discovery_def fake_Tracker_def fake_Addons_def
      fake_AddonmgrV1alpha1_def)

lemma add_failure_panics:
  assumes "NewObjectTracker T w = (o1, w1)" and "tracker_Add T o1 obj w1 = (Some err, w2)"
  shows "NewSimpleClientset T (obj # objects) w = (Panic (Error err), w2)"
  using assms by (simp add: NewSimpleClientset_def add_object_def gbind_def)

end
