(* ===== verification/Informers.thy ===== *)
theory Informers
  imports Typed_Client
begin

text \<open>
  The generated informers and listers of \<^verbatim>\<open>pkg/client/informers/externalversions\<close> and
  \<^verbatim>\<open>pkg/client/listers\<close>. The shared informer factory is a record that is changed by its methods; every
  method holds the factory's lock, so a concurrent use is a sequence of method calls. Informers are objects
  with an identity, and the state keeps the informers that were set running. The lemmas show that
  the factory hands out one informer per type for ever, that it sets each running at most once,
  that its namespace and options reach every list and watch, and that the lister finds an
  addon by its namespace and name.
\<close>

section \<open>Informers\<close>

text \<open>
  What \<open>cache.NewSharedIndexInformer\<close> is given, with the identity of the informer that it makes. A
  \<open>reflect.Type\<close> is its name.
\<close>

type_synonym 'o tweak = "('o ListOptions \<Rightarrow> 'o ListOptions) option"

record ('o, 'wi, 'l, 'w) SharedIndexInformer =
  inf_id :: nat
  ListFunc :: "'o ListOptions \<Rightarrow> 'w \<Rightarrow> (('l \<times> Addon list) \<times> goerr option) \<times> 'w"
  WatchFunc :: "'o ListOptions \<Rightarrow> 'w \<Rightarrow> (goerr + 'wi) \<times> 'w"
  inf_object :: string
  inf_resync :: int64
  inf_indexers :: "string list"

record ('o, 'r, 'wi, 'l, 'w) sharedInformerFactory =
  fac_client :: "('o, 'r, 'wi, 'l, 'w) rest_client"
  fac_namespace :: string
  fac_tweakListOptions :: "'o tweak"
  fac_defaultResync :: int64
  fac_customResync :: "int64 gomap"
  fac_informers :: "('o, 'wi, 'l, 'w) SharedIndexInformer gomap"
  fac_startedInformers :: "bool gomap"

text \<open>The factory, the next identity, and the informers whose \<open>Run\<close> was called, in that order.\<close>

record ('o, 'r, 'wi, 'l, 'w) informer_state =
  fac :: "('o, 'r, 'wi, 'l, 'w) sharedInformerFactory"
  next_id :: nat
  running :: "('o, 'wi, 'l, 'w) SharedIndexInformer list"

definition tweaked :: "'o tweak \<Rightarrow> 'o ListOptions \<Rightarrow> 'o ListOptions" where
  "tweaked t options = (case t of None \<Rightarrow> options | Some f \<Rightarrow> f options)"

definition Addon_Type :: string where "Addon_Type = ''*v1alpha1.Addon''"

definition NewFilteredAddonInformer ::
    "('o, 'r, 'wi, 'l, 'w) rest_client \<Rightarrow> string \<Rightarrow> int64 \<Rightarrow> string list \<Rightarrow> 'o tweak \<Rightarrow>
     ('o, 'r, 'wi, 'l, 'w) informer_state \<Rightarrow>
     ('o, 'wi, 'l, 'w) SharedIndexInformer \<times> ('o, 'r, 'wi, 'l, 'w) informer_state" where
  "NewFilteredAddonInformer client namespace resyncPeriod indexers tweakListOptions s =
     (\<lparr>inf_id = next_id s,
       ListFunc = (\<lambda>options. addons_List \<lparr>addons_client = client, addons_ns = namespace\<rparr> (tweaked tweakListOptions options)),
       WatchFunc = (\<lambda>options. addons_Watch \<lparr>addons_client = client, addons_ns = namespace\<rparr> (tweaked tweakListOptions options)),
       inf_object = Addon_Type, inf_resync = resyncPeriod, inf_indexers = indexers\<rparr>,
      s\<lparr>next_id := next_id s + 1\<rparr>)"

definition NewAddonInformer ::
    "('o, 'r, 'wi, 'l, 'w) rest_client \<Rightarrow> string \<Rightarrow> int64 \<Rightarrow> string list \<Rightarrow> ('o, 'r, 'wi, 'l, 'w) informer_state \<Rightarrow>
     ('o, 'wi, 'l, 'w) SharedIndexInformer \<times> ('o, 'r, 'wi, 'l, 'w) informer_state" where
  "NewAddonInformer client namespace resyncPeriod indexers =
     NewFilteredAddonInformer client namespace resyncPeriod indexers None"

section \<open>The factory\<close>

text \<open>
  The options; the loop of the first visits the objects of the configuration in some order, here by
  their types.
\<close>

definition WithCustomResyncConfig ::
    "(string \<times> int64) list \<Rightarrow> ('o, 'r, 'wi, 'l, 'w) sharedInformerFactory \<Rightarrow> ('o, 'r, 'wi, 'l, 'w) sharedInformerFactory" where
  "WithCustomResyncConfig resyncConfig factory =
     factory\<lparr>fac_customResync := fold (\<lambda>(k, v). AList.update k v) resyncConfig (fac_customResync factory)\<rparr>"

definition WithTweakListOptions ::
    "'o tweak \<Rightarrow> ('o, 'r, 'wi, 'l, 'w) sharedInformerFactory \<Rightarrow> ('o, 'r, 'wi, 'l, 'w) sharedInformerFactory" where
  "WithTweakListOptions tweakListOptions factory = factory\<lparr>fac_tweakListOptions := tweakListOptions\<rparr>"

definition WithNamespace ::
    "string \<Rightarrow> ('o, 'r, 'wi, 'l, 'w) sharedInformerFactory \<Rightarrow> ('o, 'r, 'wi, 'l, 'w) sharedInformerFactory" where
  "WithNamespace namespace factory = factory\<lparr>fac_namespace := namespace\<rparr>"

definition NewSharedInformerFactoryWithOptions ::
    "('o, 'r, 'wi, 'l, 'w) rest_client \<Rightarrow> int64 \<Rightarrow>
     (('o, 'r, 'wi, 'l, 'w) sharedInformerFactory \<Rightarrow> ('o, 'r, 'wi, 'l, 'w) sharedInformerFactory) list \<Rightarrow>
     ('o, 'r, 'wi, 'l, 'w) sharedInformerFactory" where
  "NewSharedInformerFactoryWithOptions client defaultResync options =
     fold (\<lambda>opt factory. opt factory) options
       \<lparr>fac_client = client, fac_namespace = [], fac_tweakListOptions = None, fac_defaultResync = defaultResync,
        fac_customResync = [], fac_informers = [], fac_startedInformers = []\<rparr>"

definition NewSharedInformerFactory ::
    "('o, 'r, 'wi, 'l, 'w) rest_client \<Rightarrow> int64 \<Rightarrow> ('o, 'r, 'wi, 'l, 'w) sharedInformerFactory" where
  "NewSharedInformerFactory client defaultResync = NewSharedInformerFactoryWithOptions client defaultResync []"

definition NewFilteredSharedInformerFactory ::
    "('o, 'r, 'wi, 'l, 'w) rest_client \<Rightarrow> int64 \<Rightarrow> string \<Rightarrow> 'o tweak \<Rightarrow> ('o, 'r, 'wi, 'l, 'w) sharedInformerFactory" where
  "NewFilteredSharedInformerFactory client defaultResync namespace tweakListOptions =
     NewSharedInformerFactoryWithOptions client defaultResync
       [WithNamespace namespace, WithTweakListOptions tweakListOptions]"

text \<open>A read of a missing key gives \<open>false\<close>.\<close>

definition is_started :: "('o, 'r, 'wi, 'l, 'w) sharedInformerFactory \<Rightarrow> string \<Rightarrow> bool" where
  "is_started f ty \<longleftrightarrow> map_of (fac_startedInformers f) ty = Some True"

definition start_one ::
    "string \<times> ('o, 'wi, 'l, 'w) SharedIndexInformer \<Rightarrow> ('o, 'r, 'wi, 'l, 'w) informer_state \<Rightarrow>
     ('o, 'r, 'wi, 'l, 'w) informer_state" where
  "start_one ti s =
     (if \<not> is_started (fac s) (fst ti)
      then s\<lparr>running := running s @ [snd ti],
             fac := fac_startedInformers_update (AList.update (fst ti) True) (fac s)\<rparr>
      else s)"

definition Start ::
    "order \<Rightarrow> ('o, 'r, 'wi, 'l, 'w) informer_state \<Rightarrow> ('o, 'r, 'wi, 'l, 'w) informer_state" where
  "Start \<rho> s = fold start_one (gm_range \<rho> (fac_informers (fac s))) s"

text \<open>
  \<open>cache.WaitForCacheSync\<close> on one informer is an argument, which may change the rest of the world.
\<close>

definition WaitForCacheSync ::
    "(('o, 'wi, 'l, 'w) SharedIndexInformer \<Rightarrow> 'v \<Rightarrow> bool \<times> 'v) \<Rightarrow> order \<Rightarrow> order \<Rightarrow>
     ('o, 'r, 'wi, 'l, 'w) informer_state \<Rightarrow> 'v \<Rightarrow> bool gomap \<times> 'v" where
  "WaitForCacheSync wait \<rho> \<rho>' s v =
     (let informers = fold (\<lambda>(ty, i) m. if is_started (fac s) ty then AList.update ty i m else m)
            (gm_range \<rho> (fac_informers (fac s))) []
      in fold (\<lambda>(ty, i) (res, v). let (b, v1) = wait i v in (AList.update ty b res, v1)) (gm_range \<rho>' informers) ([], v))"

definition InformerFor ::
    "string \<Rightarrow>
     (('o, 'r, 'wi, 'l, 'w) rest_client \<Rightarrow> int64 \<Rightarrow> ('o, 'r, 'wi, 'l, 'w) informer_state \<Rightarrow>
       ('o, 'wi, 'l, 'w) SharedIndexInformer \<times> ('o, 'r, 'wi, 'l, 'w) informer_state) \<Rightarrow>
     ('o, 'r, 'wi, 'l, 'w) informer_state \<Rightarrow>
     ('o, 'wi, 'l, 'w) SharedIndexInformer \<times> ('o, 'r, 'wi, 'l, 'w) informer_state" where
  "InformerFor informerType newFunc s =
     (case map_of (fac_informers (fac s)) informerType of
        Some informer \<Rightarrow> (informer, s)
      | None \<Rightarrow>
          (let resyncPeriod = (case map_of (fac_customResync (fac s)) informerType of
                 Some d \<Rightarrow> d | None \<Rightarrow> fac_defaultResync (fac s));
               (informer, s1) = newFunc (fac_client (fac s)) resyncPeriod s
           in (informer, s1\<lparr>fac := fac_informers_update (AList.update informerType informer) (fac s1)\<rparr>)))"

section \<open>Access by group, version and resource\<close>

text \<open>
  The objects \<open>group\<close>, \<open>version\<close> and \<open>addonInformer\<close> hold a pointer to the factory, a namespace and the options.
\<close>

record 'o addonInformer =
  ai_namespace :: string
  ai_tweakListOptions :: "'o tweak"

record 'o informer_version =
  iv_namespace :: string
  iv_tweakListOptions :: "'o tweak"

record 'o informer_group =
  ig_namespace :: string
  ig_tweakListOptions :: "'o tweak"

definition addon_New :: "string \<Rightarrow> 'o tweak \<Rightarrow> 'o informer_group" where
  "addon_New namespace tweak = \<lparr>ig_namespace = namespace, ig_tweakListOptions = tweak\<rparr>"

definition v1alpha1_New :: "string \<Rightarrow> 'o tweak \<Rightarrow> 'o informer_version" where
  "v1alpha1_New namespace tweak = \<lparr>iv_namespace = namespace, iv_tweakListOptions = tweak\<rparr>"

definition V1alpha1 :: "'o informer_group \<Rightarrow> 'o informer_version" where
  "V1alpha1 g = v1alpha1_New (ig_namespace g) (ig_tweakListOptions g)"

definition version_Addons :: "'o informer_version \<Rightarrow> 'o addonInformer" where
  "version_Addons v = \<lparr>ai_namespace = iv_namespace v, ai_tweakListOptions = iv_tweakListOptions v\<rparr>"

definition Addonmgr :: "('o, 'r, 'wi, 'l, 'w) sharedInformerFactory \<Rightarrow> 'o informer_group" where
  "Addonmgr f = addon_New (fac_namespace f) (fac_tweakListOptions f)"

definition defaultInformer ::
    "'o addonInformer \<Rightarrow> ('o, 'r, 'wi, 'l, 'w) rest_client \<Rightarrow> int64 \<Rightarrow> ('o, 'r, 'wi, 'l, 'w) informer_state \<Rightarrow>
     ('o, 'wi, 'l, 'w) SharedIndexInformer \<times> ('o, 'r, 'wi, 'l, 'w) informer_state" where
  "defaultInformer f client resyncPeriod =
     NewFilteredAddonInformer client (ai_namespace f) resyncPeriod [''namespace''] (ai_tweakListOptions f)"

definition Informer ::
    "'o addonInformer \<Rightarrow> ('o, 'r, 'wi, 'l, 'w) informer_state \<Rightarrow>
     ('o, 'wi, 'l, 'w) SharedIndexInformer \<times> ('o, 'r, 'wi, 'l, 'w) informer_state" where
  "Informer f s = InformerFor Addon_Type (defaultInformer f) s"

record ('o, 'wi, 'l, 'w) genericInformer =
  gen_informer :: "('o, 'wi, 'l, 'w) SharedIndexInformer"
  gen_resource :: GroupResource

text \<open>\<open>gvr.String()\<close> is the library's.\<close>

definition ForResource ::
    "(GroupVersionResource \<Rightarrow> string) \<Rightarrow> GroupVersionResource \<Rightarrow> ('o, 'r, 'wi, 'l, 'w) informer_state \<Rightarrow>
     (goerr + ('o, 'wi, 'l, 'w) genericInformer) \<times> ('o, 'r, 'wi, 'l, 'w) informer_state" where
  "ForResource gvr_String resource s =
     (if resource = WithResource SchemeGroupVersion ''addons''
      then (let (i, s1) = Informer (version_Addons (V1alpha1 (Addonmgr (fac s)))) s
            in (Inr \<lparr>gen_informer = i, gen_resource = to_GroupResource resource\<rparr>, s1))
      else (Inl (Errorf (''no informer found for '' @ gvr_String resource)), s))"

section \<open>Listers\<close>

text \<open>
  An indexer of \<open>client-go\<close>: the objects that \<open>ListAll\<close> and \<open>ListAllByNamespace\<close> hand to their callback, in order,
  with the error that they return, and the object under a key.
\<close>

datatype cache_item = Cached_Addon Addon | Cached_other

record 'sel indexer =
  ListAll :: "'sel \<Rightarrow> cache_item list \<times> goerr option"
  ListAllByNamespace :: "string \<Rightarrow> 'sel \<Rightarrow> cache_item list \<times> goerr option"
  GetByKey :: "string \<Rightarrow> goerr + cache_item option"

type_synonym 'sel addonLister = "'sel indexer"

definition NewAddonLister :: "'sel indexer \<Rightarrow> 'sel addonLister" where
  "NewAddonLister indexer = indexer"

text \<open>The callback appends \<open>m.(*v1alpha1.Addon)\<close>.\<close>

fun append_addons :: "Addon list \<Rightarrow> cache_item list \<Rightarrow> Addon list outcome" where
  "append_addons ret [] = Ret ret"
| "append_addons ret (Cached_Addon a # ms) = append_addons (ret @ [a]) ms"
| "append_addons ret (Cached_other # ms) = Panic ''interface conversion: interface {} is not *v1alpha1.Addon''"

definition listed :: "cache_item list \<times> goerr option \<Rightarrow> (Addon list \<times> goerr option) outcome" where
  "listed r = (case append_addons [] (fst r) of Panic p \<Rightarrow> Panic p | Ret ret \<Rightarrow> Ret (ret, snd r))"

definition addonLister_List :: "'sel addonLister \<Rightarrow> 'sel \<Rightarrow> (Addon list \<times> goerr option) outcome" where
  "addonLister_List indexer selector = listed (ListAll indexer selector)"

record 'sel addonNamespaceLister =
  lister_indexer :: "'sel indexer"
  lister_namespace :: string

definition addonLister_Addons :: "'sel addonLister \<Rightarrow> string \<Rightarrow> 'sel addonNamespaceLister" where
  "addonLister_Addons indexer namespace = \<lparr>lister_indexer = indexer, lister_namespace = namespace\<rparr>"

definition addonNamespaceLister_List :: "'sel addonNamespaceLister \<Rightarrow> 'sel \<Rightarrow> (Addon list \<times> goerr option) outcome" where
  "addonNamespaceLister_List s selector = listed (ListAllByNamespace (lister_indexer s) (lister_namespace s) selector)"

definition addonNamespaceLister_Get ::
    "(GroupResource \<Rightarrow> string \<Rightarrow> goerr) \<Rightarrow> 'sel addonNamespaceLister \<Rightarrow> string \<Rightarrow> (goerr + Addon) outcome" where
  "addonNamespaceLister_Get NewNotFound s name =
     (case GetByKey (lister_indexer s) (lister_namespace s @ ''/'' @ name) of
        Inl err \<Rightarrow> Ret (Inl err)
      | Inr None \<Rightarrow> Ret (Inl (NewNotFound (Resource_of ''addon'') name))
      | Inr (Some (Cached_Addon a)) \<Rightarrow> Ret (Inr a)
      | Inr (Some Cached_other) \<Rightarrow> Panic ''interface conversion: interface {} is not *v1alpha1.Addon'')"

text \<open>The lister of an informer, where \<open>GetIndexer\<close> of \<open>client-go\<close> is an argument.\<close>

definition informer_Lister ::
    "(('o, 'wi, 'l, 'w) SharedIndexInformer \<Rightarrow> 'sel indexer) \<Rightarrow> 'o addonInformer \<Rightarrow>
     ('o, 'r, 'wi, 'l, 'w) informer_state \<Rightarrow> 'sel addonLister \<times> ('o, 'r, 'wi, 'l, 'w) informer_state" where
  "informer_Lister GetIndexer f s = (let (i, s1) = Informer f s in (NewAddonLister (GetIndexer i), s1))"

text \<open>The informer and the lister of a generic informer; the generic lister is \<open>client-go\<close>'s.\<close>

definition genericInformer_Informer :: "('o, 'wi, 'l, 'w) genericInformer \<Rightarrow> ('o, 'wi, 'l, 'w) SharedIndexInformer" where
  "genericInformer_Informer f = gen_informer f"

definition genericInformer_Lister ::
    "('sel indexer \<Rightarrow> GroupResource \<Rightarrow> 'gl) \<Rightarrow> (('o, 'wi, 'l, 'w) SharedIndexInformer \<Rightarrow> 'sel indexer) \<Rightarrow>
     ('o, 'wi, 'l, 'w) genericInformer \<Rightarrow> 'gl" where
  "genericInformer_Lister NewGenericLister GetIndexer f =
     NewGenericLister (GetIndexer (genericInformer_Informer f)) (gen_resource f)"

text \<open>The lister of the informer of a resource and that of the group read the same indexer.\<close>

lemma listers_agree:
  assumes "ForResource str (WithResource SchemeGroupVersion ''addons'') s = (r, s1)"
  shows "\<exists>g. r = Inr g \<and> genericInformer_Lister (\<lambda>i _. i) GetIndexer g =
    fst (informer_Lister GetIndexer (version_Addons (V1alpha1 (Addonmgr (fac s)))) s)"
  using assms
  by (auto simp: ForResource_def informer_Lister_def genericInformer_Lister_def genericInformer_Informer_def
      NewAddonLister_def split: prod.splits)

section \<open>The states of a factory\<close>

text \<open>
  A constructor of informers makes a new one and touches nothing else. A factory is used by
  asking it for informers and by starting it, in any order and any number of times.
\<close>

definition fresh_constructor ::
    "(('o, 'r, 'wi, 'l, 'w) rest_client \<Rightarrow> int64 \<Rightarrow> ('o, 'r, 'wi, 'l, 'w) informer_state \<Rightarrow>
      ('o, 'wi, 'l, 'w) SharedIndexInformer \<times> ('o, 'r, 'wi, 'l, 'w) informer_state) \<Rightarrow> bool" where
  "fresh_constructor newFunc \<longleftrightarrow>
     (\<forall>c d s. inf_id (fst (newFunc c d s)) = next_id s \<and> snd (newFunc c d s) = s\<lparr>next_id := next_id s + 1\<rparr>)"

lemma defaultInformer_fresh: "fresh_constructor (defaultInformer f)"
  by (simp add: fresh_constructor_def defaultInformer_def NewFilteredAddonInformer_def)

inductive factory_step ::
    "('o, 'r, 'wi, 'l, 'w) informer_state \<Rightarrow> ('o, 'r, 'wi, 'l, 'w) informer_state \<Rightarrow> bool" where
  step_InformerFor: "fresh_constructor newFunc \<Longrightarrow> InformerFor ty newFunc s = (i, t) \<Longrightarrow> factory_step s t"
| step_Start: "rng_ok \<rho> \<Longrightarrow> factory_step s (Start \<rho> s)"

definition initial_state :: "('o, 'r, 'wi, 'l, 'w) informer_state \<Rightarrow> bool" where
  "initial_state s \<longleftrightarrow> fac_informers (fac s) = [] \<and> fac_startedInformers (fac s) = [] \<and> running s = []"

definition factory_inv :: "('o, 'r, 'wi, 'l, 'w) informer_state \<Rightarrow> bool" where
  "factory_inv s \<longleftrightarrow>
     gm_ok (fac_informers (fac s)) \<and>
     (\<forall>ty i. map_of (fac_informers (fac s)) ty = Some i \<longrightarrow> inf_id i < next_id s) \<and>
     (\<forall>ty ty' i i'. map_of (fac_informers (fac s)) ty = Some i \<and> map_of (fac_informers (fac s)) ty' = Some i' \<and>
        inf_id i = inf_id i' \<longrightarrow> ty = ty') \<and>
     distinct (map inf_id (running s)) \<and>
     set (running s) = {i. \<exists>ty. map_of (fac_informers (fac s)) ty = Some i \<and> is_started (fac s) ty} \<and>
     (\<forall>ty. is_started (fac s) ty \<longrightarrow> map_of (fac_informers (fac s)) ty \<noteq> None)"

lemma options_keep:
  "fac_informers (WithNamespace ns f) = fac_informers f" "fac_startedInformers (WithNamespace ns f) = fac_startedInformers f"
  "fac_informers (WithTweakListOptions tw f) = fac_informers f"
  "fac_startedInformers (WithTweakListOptions tw f) = fac_startedInformers f"
  "fac_informers (WithCustomResyncConfig rc f) = fac_informers f"
  "fac_startedInformers (WithCustomResyncConfig rc f) = fac_startedInformers f"
  by (simp_all add: WithNamespace_def WithTweakListOptions_def WithCustomResyncConfig_def)

lemma initial_inv: "initial_state s \<Longrightarrow> factory_inv s"
  by (simp add: initial_state_def factory_inv_def is_started_def)

lemma start_one_inv:
  assumes "factory_inv s" and "map_of (fac_informers (fac s)) ty = Some i"
  shows "factory_inv (start_one (ty, i) s)"
proof (cases "is_started (fac s) ty")
  case True
  then show ?thesis using assms(1) by (simp add: start_one_def)
next
  case False
  let ?t = "start_one (ty, i) s"
  have t: "fac_informers (fac ?t) = fac_informers (fac s)" "next_id ?t = next_id s" "running ?t = running s @ [i]"
    "\<And>ty'. is_started (fac ?t) ty' \<longleftrightarrow> ty' = ty \<or> is_started (fac s) ty'"
    using False by (auto simp: start_one_def is_started_def)
  have "inf_id i \<noteq> inf_id j" if j: "j \<in> set (running s)" for j
  proof -
    obtain ty' where "map_of (fac_informers (fac s)) ty' = Some j" "is_started (fac s) ty'"
      using assms(1) j by (auto simp: factory_inv_def)
    moreover have "inf_id i = inf_id j \<longrightarrow> ty = ty'" if "map_of (fac_informers (fac s)) ty' = Some j" for ty'
      using assms that by (simp add: factory_inv_def)
    ultimately show ?thesis using False by blast
  qed
  then show ?thesis
    using assms by (auto simp: factory_inv_def t image_iff)
qed

lemma start_one_keeps [simp]:
  "fac_informers (fac (start_one ti s)) = fac_informers (fac s)" "next_id (start_one ti s) = next_id s"
  by (simp_all add: start_one_def)

lemma start_one_started: "is_started (fac (start_one ti s)) ty \<longleftrightarrow> is_started (fac s) ty \<or> ty = fst ti"
  by (auto simp: start_one_def is_started_def)

lemma start_fold_keeps [simp]:
  "fac_informers (fac (fold start_one tis s)) = fac_informers (fac s)" "next_id (fold start_one tis s) = next_id s"
  by (induction tis arbitrary: s) simp_all

lemma start_fold_started:
  "is_started (fac (fold start_one tis s)) ty \<longleftrightarrow> is_started (fac s) ty \<or> ty \<in> fst ` set tis"
  by (induction tis arbitrary: s) (auto simp: start_one_started)

lemma start_fold_inv:
  "factory_inv s \<Longrightarrow> (\<And>ty i. (ty, i) \<in> set tis \<Longrightarrow> map_of (fac_informers (fac s)) ty = Some i) \<Longrightarrow>
   factory_inv (fold start_one tis s)"
proof (induction tis arbitrary: s)
  case (Cons ti tis)
  obtain ty i where ti: "ti = (ty, i)" by (cases ti)
  have "factory_inv (start_one ti s)" using Cons.prems(1) Cons.prems(2) [of ty i] start_one_inv ti by simp
  moreover have "map_of (fac_informers (fac (start_one ti s))) ty' = Some i'" if "(ty', i') \<in> set tis" for ty' i'
    using Cons.prems(2) [of ty' i'] that by simp
  ultimately show ?case using Cons.IH [of "start_one ti s"] by simp
qed simp

lemma Start_inv: "factory_inv s \<Longrightarrow> factory_inv (Start \<rho> s)"
  unfolding Start_def by (rule start_fold_inv) (auto dest: gm_range_subset)

lemma Start_started:
  assumes "rng_ok \<rho>" and "factory_inv s"
  shows "is_started (fac (Start \<rho> s)) ty \<longleftrightarrow> map_of (fac_informers (fac s)) ty \<noteq> None"
proof -
  have "fst ` set (gm_range \<rho> (fac_informers (fac s))) = dom (map_of (fac_informers (fac s)))"
    using assms(2) by (simp add: factory_inv_def set_gm_range [OF assms(1)] dom_map_of_conv_image_fst)
  moreover have "is_started (fac s) ty \<longrightarrow> map_of (fac_informers (fac s)) ty \<noteq> None"
    using assms(2) by (simp add: factory_inv_def)
  ultimately show ?thesis by (auto simp: Start_def start_fold_started)
qed

lemma InformerFor_inv:
  assumes "factory_inv s" and "fresh_constructor newFunc" and "InformerFor ty newFunc s = (i, t)"
  shows "factory_inv t"
proof (cases "map_of (fac_informers (fac s)) ty")
  case (Some j)
  then show ?thesis using assms by (simp add: InformerFor_def)
next
  case None
  let ?m = "fac_informers (fac s)"
  have t: "t = s\<lparr>next_id := next_id s + 1, fac := fac_informers_update (AList.update ty i) (fac s)\<rparr>" "inf_id i = next_id s"
    using assms(2,3) None by (auto simp: InformerFor_def fresh_constructor_def split_def Let_def)
  have inv: "gm_ok ?m" "\<And>ty j. map_of ?m ty = Some j \<Longrightarrow> inf_id j < next_id s"
    "\<And>ty ty' j j'. map_of ?m ty = Some j \<Longrightarrow> map_of ?m ty' = Some j' \<Longrightarrow> inf_id j = inf_id j' \<Longrightarrow> ty = ty'"
    "distinct (map inf_id (running s))"
    "set (running s) = {j. \<exists>ty. map_of ?m ty = Some j \<and> is_started (fac s) ty}"
    "\<And>ty. is_started (fac s) ty \<Longrightarrow> map_of ?m ty \<noteq> None"
    using assms(1) unfolding factory_inv_def by blast+
  have st: "is_started (fac t) ty' = is_started (fac s) ty'" for ty' by (simp add: t(1) is_started_def)
  have old: "is_started (fac s) ty' \<Longrightarrow> ty' \<noteq> ty" for ty' using inv(6) None by blast
  have run: "set (running s) = {j. \<exists>ty'. map_of (AList.update ty i ?m) ty' = Some j \<and> is_started (fac s) ty'}"
    using old by (auto simp: inv(5) update_conv')
  have ids: "ty1 = ty2" if "map_of (AList.update ty i ?m) ty1 = Some j" "map_of (AList.update ty i ?m) ty2 = Some j'"
    "inf_id j = inf_id j'" for ty1 ty2 j j'
    using that inv(2) inv(3) t(2) by (fastforce simp: update_conv' split: if_splits)
  have bound: "inf_id j < next_id s + 1" if "map_of (AList.update ty i ?m) ty' = Some j" for ty' j
    using that inv(2) t(2) by (fastforce simp: update_conv' split: if_splits)
  have dom: "map_of (AList.update ty i ?m) ty' \<noteq> None" if "is_started (fac s) ty'" for ty'
    using inv(6) [OF that] by (simp add: update_conv')
  have m: "fac_informers (fac t) = AList.update ty i ?m" "next_id t = next_id s + 1" "running t = running s"
    by (simp_all add: t(1))
  show ?thesis
    unfolding factory_inv_def st m
    by (intro conjI allI impI; (elim conjE)?)
      (simp add: inv(1), erule bound, erule (2) ids, rule inv(4), rule run, erule dom)
qed

lemma factory_step_inv: "factory_step s t \<Longrightarrow> factory_inv s \<Longrightarrow> factory_inv t"
  by (induction rule: factory_step.induct) (auto simp: Start_inv InformerFor_inv)

lemma factory_steps_inv: "factory_step\<^sup>*\<^sup>* s t \<Longrightarrow> factory_inv s \<Longrightarrow> factory_inv t"
  by (induction rule: rtranclp_induct) (auto dest: factory_step_inv)

text \<open>No step replaces an informer, and none stops one.\<close>

lemma factory_step_keeps:
  assumes "factory_step s t"
  shows "map_of (fac_informers (fac s)) ty = Some i \<Longrightarrow> map_of (fac_informers (fac t)) ty = Some i"
  using assms
proof cases
  case (step_InformerFor newFunc ty' j)
  then show "map_of (fac_informers (fac s)) ty = Some i \<Longrightarrow> map_of (fac_informers (fac t)) ty = Some i"
    by (auto simp: InformerFor_def fresh_constructor_def split_def Let_def update_conv' split: option.splits)
qed (simp add: Start_def)

lemma factory_steps_keep:
  "factory_step\<^sup>*\<^sup>* s t \<Longrightarrow> map_of (fac_informers (fac s)) ty = Some i \<Longrightarrow> map_of (fac_informers (fac t)) ty = Some i"
  by (induction rule: rtranclp_induct) (auto dest: factory_step_keeps)

section \<open>Properties\<close>

text \<open>
  C27: A factory gives every client the same informer and sets each informer running at most once. However
  often and in whatever order the factory is asked for informers and started: the informer that it
  hands out for a type is the one that it will hand out for that type ever after, with
  nothing changed by asking again; no informer is running twice; and once \<open>Start\<close> returns, the
  informers that are running are exactly those that were asked for.
\<close>

theorem informers_shared:
  assumes "initial_state s" and "factory_step\<^sup>*\<^sup>* s t" and "fresh_constructor f" and "InformerFor ty f t = (i, u)"
    and "factory_step\<^sup>*\<^sup>* u v" and "rng_ok \<rho>"
  shows "InformerFor ty g v = (i, v) \<and> distinct (map inf_id (running v)) \<and>
    set (running (Start \<rho> v)) = {j. \<exists>ty'. map_of (fac_informers (fac v)) ty' = Some j} \<and>
    distinct (map inf_id (running (Start \<rho> v)))"
proof -
  have step: "factory_step t u" using assms(3,4) by (rule step_InformerFor)
  have inv: "factory_inv v"
    using initial_inv [OF assms(1)] factory_steps_inv [OF assms(2)] factory_step_inv [OF step] factory_steps_inv [OF assms(5)]
    by blast
  have "map_of (fac_informers (fac u)) ty = Some i"
    using assms(4) by (auto simp: InformerFor_def split_def Let_def update_conv' split: option.splits)
  then have keep: "map_of (fac_informers (fac v)) ty = Some i" using factory_steps_keep [OF assms(5)] by blast
  have st: "factory_inv (Start \<rho> v)" using Start_inv [OF inv] .
  have "fac_informers (fac (Start \<rho> v)) = fac_informers (fac v)" by (simp add: Start_def)
  then have "set (running (Start \<rho> v)) = {j. \<exists>ty'. map_of (fac_informers (fac v)) ty' = Some j}"
    using st Start_started [OF assms(6) inv] by (auto simp: factory_inv_def)
  with keep inv st show ?thesis by (simp add: InformerFor_def factory_inv_def)
qed

definition empty_state :: "(unit, unit, unit, unit, unit Request list) informer_state" where
  "empty_state = \<lparr>fac = NewSharedInformerFactory log_rest 0, next_id = 0, running = []\<rparr>"

theorem informers_shared_witness:
  "\<exists>i u. InformerFor Addon_Type (defaultInformer \<lparr>ai_namespace = ''ns'', ai_tweakListOptions = None\<rparr>) empty_state = (i, u) \<and>
    InformerFor Addon_Type (defaultInformer \<lparr>ai_namespace = ''m'', ai_tweakListOptions = None\<rparr>) (Start rev u) = (i, Start rev u)"
proof -
  let ?f = "defaultInformer \<lparr>ai_namespace = ''ns'', ai_tweakListOptions = None\<rparr>"
  obtain i u where u: "InformerFor Addon_Type ?f empty_state = (i, u)"
    by (cases "InformerFor Addon_Type ?f empty_state")
  have init: "initial_state empty_state"
    by (simp add: initial_state_def empty_state_def NewSharedInformerFactory_def NewSharedInformerFactoryWithOptions_def)
  have "factory_step u (Start rev u)" using rng_ok_rev by (rule step_Start)
  then have steps: "factory_step\<^sup>*\<^sup>* u (Start rev u)" by (rule r_into_rtranclp)
  have "factory_step\<^sup>*\<^sup>* empty_state empty_state" by simp
  then show ?thesis
    using informers_shared [OF init _ defaultInformer_fresh u steps rng_ok_rev] u by blast
qed

text \<open>\<open>WaitForCacheSync\<close> reports on exactly the informers that were started.\<close>

lemma collect_gm_ok: "gm_ok m \<Longrightarrow> gm_ok (fold (\<lambda>(k, v) m. if P k then AList.update k v m else m) xs m)"
  by (induction xs arbitrary: m) auto

lemma collect_dom:
  "dom (map_of (fold (\<lambda>(k, v) m. if P k then AList.update k v m else m) xs m)) = dom (map_of m) \<union> {k \<in> fst ` set xs. P k}"
proof (induction xs arbitrary: m)
  case (Cons kv xs)
  show ?case by (cases kv; cases "P (fst kv)") (auto simp: Cons.IH update_conv' split: if_splits)
qed simp

lemma report_keys:
  "dom (map_of (fst (fold (\<lambda>(k, i) (res, v). case wait i v of (b, v1) \<Rightarrow> (AList.update k b res, v1)) xs (res, v)))) =
   dom (map_of res) \<union> fst ` set xs"
  by (induction xs arbitrary: res v) (auto simp: split_def Let_def update_conv')

lemma WaitForCacheSync_keys:
  assumes "rng_ok \<rho>" and "rng_ok \<rho>'" and "factory_inv s"
  shows "dom (map_of (fst (WaitForCacheSync wait \<rho> \<rho>' s v))) = {ty. is_started (fac s) ty}"
proof -
  let ?m = "fold (\<lambda>(ty, i) m. if is_started (fac s) ty then AList.update ty i m else m)
    (gm_range \<rho> (fac_informers (fac s))) []"
  have ok: "gm_ok (fac_informers (fac s))" using assms(3) by (simp add: factory_inv_def)
  have "dom (map_of ?m) = {ty \<in> fst ` set (fac_informers (fac s)). is_started (fac s) ty}"
    using collect_dom [of "is_started (fac s)" "gm_range \<rho> (fac_informers (fac s))" "[]"] set_gm_range [OF assms(1) ok]
    by simp
  also have "\<dots> = {ty. is_started (fac s) ty}"
    using assms(3) by (auto simp: factory_inv_def map_of_eq_None_iff)
  finally have "fst ` set ?m = {ty. is_started (fac s) ty}" by (simp add: dom_map_of_conv_image_fst)
  moreover have "gm_ok ?m" by (rule collect_gm_ok) simp
  ultimately show ?thesis by (simp add: WaitForCacheSync_def Let_def report_keys set_gm_range [OF assms(2)])
qed

text \<open>
  The informer of a filtered factory lists and watches in the namespace and with the options of the
  factory, and asks for them with its own tweak last.
\<close>

lemma filtered_factory_scope:
  assumes "fac s = NewFilteredSharedInformerFactory client d ns tw"
  shows "\<exists>i t. ForResource str (WithResource SchemeGroupVersion ''addons'') s =
      (Inr \<lparr>gen_informer = i, gen_resource = Resource_of ''addons''\<rparr>, t) \<and> inf_resync i = d \<and> inf_object i = Addon_Type \<and>
    ListFunc i = (\<lambda>options. addons_List \<lparr>addons_client = client, addons_ns = ns\<rparr> (tweaked tw options)) \<and>
    WatchFunc i = (\<lambda>options. addons_Watch \<lparr>addons_client = client, addons_ns = ns\<rparr> (tweaked tw options))"
  using assms
  by (simp add: ForResource_def Informer_def InformerFor_def NewFilteredSharedInformerFactory_def
      NewSharedInformerFactoryWithOptions_def WithNamespace_def WithTweakListOptions_def Addonmgr_def addon_New_def
      V1alpha1_def v1alpha1_New_def version_Addons_def defaultInformer_def NewFilteredAddonInformer_def Resource_of_def)

lemma ForResource_unknown:
  "resource \<noteq> WithResource SchemeGroupVersion ''addons'' \<Longrightarrow>
   ForResource str resource s = (Inl (Errorf (''no informer found for '' @ str resource)), s)"
  by (simp add: ForResource_def)

lemma append_addons_all: "append_addons ret (map Cached_Addon as) = Ret (ret @ as)"
  by (induction as arbitrary: ret) simp_all

text \<open>
  The indexer stores objects under \<open>namespace/name\<close>, or under the name alone when they have no namespace.
\<close>

definition MetaNamespaceKey :: "Addon \<Rightarrow> string" where
  "MetaNamespaceKey a = (if GetNamespace a \<noteq> [] then GetNamespace a @ ''/'' @ GetName a else GetName a)"

definition indexer_law :: "'sel indexer \<Rightarrow> Addon list \<Rightarrow> bool" where
  "indexer_law idx as \<longleftrightarrow>
     (\<forall>k. GetByKey idx k = Inr (map_option Cached_Addon (List.find (\<lambda>a. MetaNamespaceKey a = k) as)))"

lemma split_at_slash:
  "CHR ''/'' \<notin> set xs \<Longrightarrow> CHR ''/'' \<notin> set xs' \<Longrightarrow> xs @ CHR ''/'' # ys = xs' @ CHR ''/'' # ys' \<longleftrightarrow> xs = xs' \<and> ys = ys'"
proof (induction xs arbitrary: xs')
  case Nil
  then show ?case by (cases xs') auto
next
  case (Cons x xs)
  then show ?case by (cases xs') auto
qed

text \<open>
  The lister finds an addon by its namespace and name. When no name or namespace in the cache and
  not the requested namespace contains a slash, \<open>Get\<close> returns the cached addon that has
  exactly this namespace and this name, and the error \<open>NotFound\<close> when there is none; it never
  confuses two objects because of how their keys are put together.
\<close>

lemma lister_get_exact:
  assumes "indexer_law idx as" and "ns \<noteq> []" and "CHR ''/'' \<notin> set ns"
    and "\<forall>a \<in> set as. CHR ''/'' \<notin> set (GetNamespace a) \<and> CHR ''/'' \<notin> set (GetName a)"
  shows "addonNamespaceLister_Get NewNotFound (addonLister_Addons idx ns) name =
    Ret (case List.find (\<lambda>a. GetNamespace a = ns \<and> GetName a = name) as of
           Some a \<Rightarrow> Inr a | None \<Rightarrow> Inl (NewNotFound (Resource_of ''addon'') name))"
proof -
  have "MetaNamespaceKey a = ns @ ''/'' @ name \<longleftrightarrow> GetNamespace a = ns \<and> GetName a = name" if "a \<in> set as" for a
  proof (cases "GetNamespace a = []")
    case True
    then have "MetaNamespaceKey a \<noteq> ns @ ''/'' @ name"
      using assms(4) that by (auto simp: MetaNamespaceKey_def)
    then show ?thesis using True assms(2) by blast
  next
    case False
    then show ?thesis using assms(3,4) that by (simp add: MetaNamespaceKey_def split_at_slash)
  qed
  then have "List.find (\<lambda>a. MetaNamespaceKey a = ns @ ''/'' @ name) as =
      List.find (\<lambda>a. GetNamespace a = ns \<and> GetName a = name) as"
    by (intro find_cong refl)
  then show ?thesis
    using assms(1)
    by (simp add: addonNamespaceLister_Get_def addonLister_Addons_def indexer_law_def split: option.split)
qed

definition sample_indexer :: "unit indexer" where
  "sample_indexer = \<lparr>ListAll = (\<lambda>_. ([], None)), ListAllByNamespace = (\<lambda>_ _. ([], None)),
     GetByKey = (\<lambda>k. Inr (map_option Cached_Addon (List.find (\<lambda>a. MetaNamespaceKey a = k) [zero_Addon ''a'' ''ns''])))\<rparr>"

lemma sample_indexer_law: "indexer_law sample_indexer [zero_Addon ''a'' ''ns'']"
  by (simp add: indexer_law_def sample_indexer_def)

end
