(* ===== verification/Test_Support.thy ===== *)
theory Test_Support
  imports Addon_Validator
begin

text \<open>
  The helpers of the behaviour tests (\<^verbatim>\<open>test-bdd/testutil\<close>), which
  drive the manager from outside: they read objects from files, and create or replace them in the API. Files,
  processes, the decoder of YAML documents and the clients are arguments. Printing and waiting are left out.
\<close>

section \<open>Files and processes\<close>

record 'w test_lib =
  filepath_Abs :: "string \<Rightarrow> goerr + string"
  os_Open :: "string \<Rightarrow> goerr option"
  test_ReadFile :: "string \<Rightarrow> goerr + string"
  exec_LookPath :: "string \<Rightarrow> goerr + string"
  cmd_Start :: "string \<Rightarrow> string list \<Rightarrow> 'w \<Rightarrow> goerr option \<times> 'w"
  cmd_Wait :: "string \<Rightarrow> string list \<Rightarrow> 'w \<Rightarrow> goerr option \<times> 'w"
  file_content :: "string \<Rightarrow> string"
  Decode :: "string \<Rightarrow> json gomap list \<times> goerr"
  io_EOF :: goerr
  GetKind :: "json gomap \<Rightarrow> string"
  MarshalJSON :: "json gomap \<Rightarrow> goerr + string"
  json_Unmarshal_addon :: "string \<Rightarrow> json gomap option"
  un_Name :: "json gomap \<Rightarrow> string"
  un_Namespace :: "json gomap \<Rightarrow> string"
  un_GetResourceVersion :: "json gomap \<Rightarrow> string"
  put_Name :: "string \<Rightarrow> json gomap \<Rightarrow> json gomap"
  un_SetResourceVersion :: "string \<Rightarrow> json gomap \<Rightarrow> json gomap"
  set_nested :: "json gomap \<Rightarrow> json \<Rightarrow> string list \<Rightarrow> goerr + json gomap"
  yaml_object :: "string \<Rightarrow> goerr + json gomap"

definition PathToOSFile :: "'w test_lib \<Rightarrow> string \<Rightarrow> goerr + string" where
  "PathToOSFile L relativPath =
     (case filepath_Abs L relativPath of
        Inl err \<Rightarrow> Inl (Wrapf (''failed generate absolut file path of '' @ relativPath @ '': '') err)
      | Inr path \<Rightarrow>
          (case os_Open L path of
             Some err \<Rightarrow> Inl (Wrapf (''failed to open file '' @ path @ '': '') err)
           | None \<Rightarrow> Inr path))"

definition KubectlApply :: "'w test_lib \<Rightarrow> string \<Rightarrow> 'w \<Rightarrow> goerr option \<times> 'w" where
  "KubectlApply L manifestRelativePath w =
     (case exec_LookPath L ''kubectl'' of
        Inl err \<Rightarrow> (Some err, w)
      | Inr kubectlBinaryPath \<Rightarrow>
          (case filepath_Abs L manifestRelativePath of
             Inl err \<Rightarrow>
               (Some (Wrapf (''failed generate absolut file path of '' @ manifestRelativePath @ '': '') err), w)
           | Inr path \<Rightarrow>
               (let applyArgs = [''apply'', ''-f'', path]
                in case cmd_Start L kubectlBinaryPath applyArgs w of
                     (Some err, w1) \<Rightarrow> (Some (Wrapf ''Could not exec kubectl: : '' err), w1)
                   | (None, w1) \<Rightarrow>
                       (case cmd_Wait L kubectlBinaryPath applyArgs w1 of
                          (Some err, w2) \<Rightarrow> (Some (Wrapf ''Command resulted in error: : '' err), w2)
                        | (None, w2) \<Rightarrow> (None, w2)))))"

definition ReadFile :: "'w test_lib \<Rightarrow> string \<Rightarrow> goerr + string" where
  "ReadFile L path = (case test_ReadFile L path of Inl err \<Rightarrow> Inl err | Inr f \<Rightarrow> Inr f)"

text \<open>The conditions of a node, as pairs of type and status.\<close>

fun isNodeReady :: "(string \<times> string) list \<Rightarrow> bool" where
  "isNodeReady [] = False"
| "isNodeReady ((ty, status) # cs) =
     (if ty = ''Ready'' then (if status = ''True'' then True else isNodeReady cs) else isNodeReady cs)"

section \<open>Lists of words\<close>

text \<open>\<open>strings.Fields\<close>, \<open>strings.Trim\<close> and \<open>fmt.Sprint\<close> of a slice of strings.\<close>

fun fields_from :: "string \<Rightarrow> string \<Rightarrow> string list" where
  "fields_from cur [] = (if cur = [] then [] else [cur])"
| "fields_from cur (c # cs) =
     (if is_space c then (if cur = [] then fields_from [] cs else cur # fields_from [] cs)
      else fields_from (cur @ [c]) cs)"

definition Fields :: "string \<Rightarrow> string list" where
  "Fields s = fields_from [] s"

definition Trim :: "string \<Rightarrow> string \<Rightarrow> string" where
  "Trim s cutset = rev (dropWhile (\<lambda>c. c \<in> set cutset) (rev (dropWhile (\<lambda>c. c \<in> set cutset) s)))"

definition Sprint :: "string list \<Rightarrow> string" where
  "Sprint xs = ''['' @ Join xs '' '' @ '']''"

definition ConcatonateList :: "string list \<Rightarrow> string \<Rightarrow> string" where
  "ConcatonateList xs delimiter = Trim (Join (Fields (Sprint xs)) delimiter) ''[]''"

section \<open>Objects from files\<close>

text \<open>
  The loop over the documents of a file: the first of the kind ends it, with the error of its encoding; otherwise
  the error of the decoder does, which is \<open>io.EOF\<close> at the end of the file. The result is the encoded
  object, if there is one.
\<close>

fun find_kind :: "'w test_lib \<Rightarrow> string \<Rightarrow> json gomap list \<Rightarrow> goerr \<Rightarrow> string option \<times> goerr option" where
  "find_kind L kind [] end_err = (None, Some end_err)"
| "find_kind L kind (out # docs) end_err =
     (if GetKind L out = kind
      then (case MarshalJSON L out of Inl err \<Rightarrow> (Some [], Some err) | Inr marshaled \<Rightarrow> (Some marshaled, None))
      else find_kind L kind docs end_err)"

definition parseAddonYaml :: "'w test_lib \<Rightarrow> string \<Rightarrow> goerr + json gomap option" where
  "parseAddonYaml L relativePath =
     (case PathToOSFile L relativePath of
        Inl err \<Rightarrow> Inl err
      | Inr _ \<Rightarrow>
          (case ReadFile L relativePath of
             Inl err \<Rightarrow> Inl err
           | Inr fileData \<Rightarrow>
               (case find_kind L ''Addon'' (fst (Decode L fileData)) (snd (Decode L fileData)) of
                  (found, err) \<Rightarrow>
                    (let addon = (case found of None \<Rightarrow> None | Some marshaled \<Rightarrow> json_Unmarshal_addon L marshaled)
                     in case err of
                          None \<Rightarrow> Inr addon
                        | Some e \<Rightarrow> if e \<noteq> io_EOF L then Inl e else Inr addon))))"

text \<open>A custom resource definition is decoded into a struct that is there from the start: an empty one if none is found.\<close>

definition parseCRDYaml :: "'w test_lib \<Rightarrow> (string \<Rightarrow> 'crd) \<Rightarrow> 'crd \<Rightarrow> string \<Rightarrow> goerr + 'crd" where
  "parseCRDYaml L unmarshal zero relativePath =
     (case PathToOSFile L relativePath of
        Inl err \<Rightarrow> Inl err
      | Inr manifest \<Rightarrow>
          (case Decode L (file_content L manifest) of
             (docs, end_err) \<Rightarrow>
               (case find_kind L ''CustomResourceDefinition'' docs end_err of
                  (found, err) \<Rightarrow>
                    (let crd = (case found of None \<Rightarrow> zero | Some marshaled \<Rightarrow> unmarshal marshaled)
                     in case err of
                          None \<Rightarrow> Inr crd
                        | Some e \<Rightarrow> if e \<noteq> io_EOF L then Inl e else Inr crd))))"

definition ParseCustomResourceYaml :: "'w test_lib \<Rightarrow> string \<Rightarrow> json gomap \<times> goerr option" where
  "ParseCustomResourceYaml L raw =
     (case yaml_object L raw of Inl err \<Rightarrow> ([], Some err) | Inr obj \<Rightarrow> (obj, None))"

section \<open>Create or replace\<close>

record 'w dynamic_client =
  res_Get :: "GroupVersionResource \<Rightarrow> string \<Rightarrow> string \<Rightarrow> 'w \<Rightarrow> goerr + json gomap"
  res_Create :: "GroupVersionResource \<Rightarrow> string \<Rightarrow> json gomap \<Rightarrow> 'w \<Rightarrow> goerr option \<times> 'w"
  res_Update :: "GroupVersionResource \<Rightarrow> string \<Rightarrow> json gomap \<Rightarrow> 'w \<Rightarrow> goerr option \<times> 'w"
  res_Delete :: "GroupVersionResource \<Rightarrow> string \<Rightarrow> string \<Rightarrow> 'w \<Rightarrow> goerr option \<times> 'w"

definition nil_panic :: string where
  "nil_panic = ''invalid memory address or nil pointer dereference''"

text \<open>Shared by the functions below: the name with its suffix, and the request that stores the object.\<close>

definition with_suffix :: "'w test_lib \<Rightarrow> string \<Rightarrow> json gomap \<Rightarrow> json gomap" where
  "with_suffix L nameSuffix addon = (if nameSuffix \<noteq> [] then put_Name L (un_Name L addon @ nameSuffix) addon else addon)"

definition store_object ::
    "'w test_lib \<Rightarrow> 'w dynamic_client \<Rightarrow> string \<Rightarrow> goerr + json gomap \<Rightarrow> json gomap \<Rightarrow> 'w \<Rightarrow>
     (json gomap \<times> goerr option) \<times> 'w" where
  "store_object L K namespace found addon w =
     (case found of
        Inr addonObject \<Rightarrow>
          (let addon' = un_SetResourceVersion L (un_GetResourceVersion L addonObject) addon
           in case res_Update K AddonGVR namespace addon' w of (err, w') \<Rightarrow> ((addon', err), w'))
      | Inl _ \<Rightarrow> (case res_Create K AddonGVR namespace addon w of (err, w') \<Rightarrow> ((addon, err), w')))"

definition CreateAddon ::
    "'w test_lib \<Rightarrow> 'w dynamic_client \<Rightarrow> string \<Rightarrow> string \<Rightarrow> 'w \<Rightarrow> (json gomap option \<times> goerr option) outcome \<times> 'w" where
  "CreateAddon L K relativePath nameSuffix w =
     (case parseAddonYaml L relativePath of
        Inl err \<Rightarrow> (Ret (None, Some err), w)
      | Inr None \<Rightarrow> (Panic nil_panic, w)
      | Inr (Some addon) \<Rightarrow>
          (let namespace = un_Namespace L addon;
               addon1 = with_suffix L nameSuffix addon;
               found = res_Get K AddonGVR namespace (un_Name L addon1) w
           in case store_object L K namespace found addon1 w of
                ((addon2, err), w') \<Rightarrow> (Ret (Some addon2, err), w')))"

definition DeleteAddon ::
    "'w test_lib \<Rightarrow> 'w dynamic_client \<Rightarrow> string \<Rightarrow> 'w \<Rightarrow> (json gomap option \<times> goerr option) outcome \<times> 'w" where
  "DeleteAddon L K relativePath w =
     (case parseAddonYaml L relativePath of
        Inl err \<Rightarrow> (Ret (None, Some err), w)
      | Inr None \<Rightarrow> (Panic nil_panic, w)
      | Inr (Some addon) \<Rightarrow>
          (case res_Delete K AddonGVR (un_Namespace L addon) (un_Name L addon) w of
             (err, w') \<Rightarrow> (Ret (Some addon, err), w')))"

text \<open>An error of \<open>SetNestedField\<close> is dropped, and the object is then as it was.\<close>

definition put_field :: "'w test_lib \<Rightarrow> string list \<Rightarrow> string \<Rightarrow> json gomap \<Rightarrow> json gomap" where
  "put_field L path v obj = (case set_nested L obj (JStr v) path of Inl _ \<Rightarrow> obj | Inr obj' \<Rightarrow> obj')"

definition load_package :: "'w test_lib \<Rightarrow> string \<Rightarrow> json gomap \<Rightarrow> json gomap" where
  "load_package L nameSuffix addon =
     put_field L [''spec'', ''params'', ''namespace''] (''addon-event-router-ns'' @ nameSuffix)
       (put_field L [''spec'', ''pkgVersion''] (''v'' @ nameSuffix)
         (put_field L [''spec'', ''pkgName''] (un_Name L addon) addon))"

definition CreateLoadTestsAddon ::
    "'w test_lib \<Rightarrow> 'w dynamic_client \<Rightarrow> string \<Rightarrow> string \<Rightarrow> 'w \<Rightarrow> (json gomap option \<times> goerr option) outcome \<times> 'w" where
  "CreateLoadTestsAddon L K relativePath nameSuffix w =
     (case parseAddonYaml L relativePath of
        Inl err \<Rightarrow> (Ret (None, Some err), w)
      | Inr None \<Rightarrow> (Panic nil_panic, w)
      | Inr (Some addon) \<Rightarrow>
          (let namespace = un_Namespace L addon;
               addon1 = with_suffix L nameSuffix addon;
               found = res_Get K AddonGVR namespace (un_Name L addon1) w
           in case store_object L K namespace found (load_package L nameSuffix addon1) w of
                ((addon2, err), w') \<Rightarrow> (Ret (Some addon2, err), w')))"

definition CRDExists :: "(GroupVersionResource \<Rightarrow> string \<Rightarrow> goerr option) \<Rightarrow> string \<Rightarrow> bool" where
  "CRDExists get name = (case get CRDGVR name of Some _ \<Rightarrow> False | None \<Rightarrow> True)"

record ('crd, 'w) crd_client =
  crd_Get :: "string \<Rightarrow> 'w \<Rightarrow> goerr option"
  crd_Create :: "'crd \<Rightarrow> 'w \<Rightarrow> goerr option \<times> 'w"
  crd_Delete :: "string \<Rightarrow> 'w \<Rightarrow> goerr option \<times> 'w"
  CRD_Name :: "'crd \<Rightarrow> string"
  unmarshal_crd :: "string \<Rightarrow> 'crd"
  empty_crd :: 'crd

definition CreateCRD :: "'w test_lib \<Rightarrow> ('crd, 'w) crd_client \<Rightarrow> string \<Rightarrow> 'w \<Rightarrow> goerr option \<times> 'w" where
  "CreateCRD L K relativePath w =
     (case parseCRDYaml L (unmarshal_crd K) (empty_crd K) relativePath of
        Inl err \<Rightarrow> (Some err, w)
      | Inr CRD \<Rightarrow>
          (case crd_Get K (CRD_Name K CRD) w of
             None \<Rightarrow> KubectlApply L relativePath w
           | Some _ \<Rightarrow> crd_Create K CRD w))"

definition DeleteCRD :: "'w test_lib \<Rightarrow> ('crd, 'w) crd_client \<Rightarrow> string \<Rightarrow> 'w \<Rightarrow> goerr option \<times> 'w" where
  "DeleteCRD L K relativePath w =
     (case parseCRDYaml L (unmarshal_crd K) (empty_crd K) relativePath of
        Inl err \<Rightarrow> (Some err, w)
      | Inr CRD \<Rightarrow> crd_Delete K (CRD_Name K CRD) w)"

section \<open>What the helpers do\<close>

lemma isNodeReady_iff: "isNodeReady cs \<longleftrightarrow> (''Ready'', ''True'') \<in> set cs"
  by (induction cs rule: isNodeReady.induct) auto

lemma find_kind_first:
  assumes "\<forall>d \<in> set pre. GetKind L d \<noteq> kind" and "GetKind L d = kind" and "MarshalJSON L d = Inr m"
  shows "find_kind L kind (pre @ d # post) e = (Some m, None)"
  using assms by (induction pre) simp_all

lemma find_kind_none:
  assumes "\<forall>d \<in> set docs. GetKind L d \<noteq> kind"
  shows "find_kind L kind docs e = (None, Some e)"
  using assms by (induction docs) simp_all

text \<open>The first addon of a file is taken, whatever follows it, even a malformed document.\<close>

lemma parseAddonYaml_first:
  assumes "PathToOSFile L path = Inr p" and "test_ReadFile L path = Inr c"
    and "Decode L c = (pre @ d # post, e)" and "\<forall>x \<in> set pre. GetKind L x \<noteq> ''Addon''" and "GetKind L d = ''Addon''"
    and "MarshalJSON L d = Inr m"
  shows "parseAddonYaml L path = Inr (json_Unmarshal_addon L m)"
  using assms find_kind_first [OF assms(4-6), of post e] by (simp add: parseAddonYaml_def ReadFile_def)

text \<open>A readable file without an addon is no error for the parser, and its callers panic.\<close>

lemma no_addon_panics:
  assumes "PathToOSFile L path = Inr p" and "test_ReadFile L path = Inr c"
    and "Decode L c = (docs, io_EOF L)" and "\<forall>d \<in> set docs. GetKind L d \<noteq> ''Addon''"
  shows "CreateAddon L K path sfx w = (Panic nil_panic, w)" and "DeleteAddon L K path w = (Panic nil_panic, w)"
    and "CreateLoadTestsAddon L K path sfx w = (Panic nil_panic, w)"
proof -
  have "parseAddonYaml L path = Inr None"
    using assms find_kind_none [OF assms(4), of "io_EOF L"] by (simp add: parseAddonYaml_def ReadFile_def)
  then show "CreateAddon L K path sfx w = (Panic nil_panic, w)" "DeleteAddon L K path w = (Panic nil_panic, w)"
    "CreateLoadTestsAddon L K path sfx w = (Panic nil_panic, w)"
    by (simp_all add: CreateAddon_def DeleteAddon_def CreateLoadTestsAddon_def)
qed

text \<open>A file without a definition makes the test create an empty one.\<close>

lemma no_crd_creates_empty:
  assumes "PathToOSFile L path = Inr p" and "Decode L (file_content L p) = (docs, io_EOF L)"
    and "\<forall>d \<in> set docs. GetKind L d \<noteq> ''CustomResourceDefinition''"
    and "crd_Get K (CRD_Name K (empty_crd K)) w = Some e"
  shows "CreateCRD L K path w = crd_Create K (empty_crd K) w"
  using assms find_kind_none [OF assms(3), of "io_EOF L"] by (simp add: CreateCRD_def parseCRDYaml_def)

subsection \<open>Stored addons\<close>

text \<open>What a stored object is read back as, and what the setters leave alone.\<close>

definition stored_law :: "'w test_lib \<Rightarrow> 'w dynamic_client \<Rightarrow> bool" where
  "stored_law L K \<longleftrightarrow>
     (\<forall>g ns o1 w w'. res_Create K g ns o1 w = (None, w') \<or> res_Update K g ns o1 w = (None, w') \<longrightarrow>
        (\<exists>o2. res_Get K g ns (un_Name L o1) w' = Inr o2 \<and> map_of o2 ''spec'' = map_of o1 ''spec'')) \<and>
     (\<forall>o1 n. un_Name L (put_Name L n o1) = n \<and> map_of (put_Name L n o1) ''spec'' = map_of o1 ''spec'') \<and>
     (\<forall>o1 v. un_Name L (un_SetResourceVersion L v o1) = un_Name L o1 \<and>
        map_of (un_SetResourceVersion L v o1) ''spec'' = map_of o1 ''spec'')"

lemma store_object_stored:
  assumes "stored_law L K" and "store_object L K ns found a w = ((b, None), w')"
  shows "\<exists>o2. res_Get K AddonGVR ns (un_Name L a) w' = Inr o2 \<and> map_of o2 ''spec'' = map_of a ''spec''"
proof (cases found)
  case (Inl e)
  then have "res_Create K AddonGVR ns a w = (None, w')"
    using assms(2) by (auto simp: store_object_def split: prod.splits)
  then show ?thesis using assms(1) unfolding stored_law_def by blast
next
  case (Inr ob)
  let ?a = "un_SetResourceVersion L (un_GetResourceVersion L ob) a"
  have "res_Update K AddonGVR ns ?a w = (None, w')"
    using Inr assms(2) by (auto simp: store_object_def Let_def split: prod.splits)
  then have "\<exists>o2. res_Get K AddonGVR ns (un_Name L ?a) w' = Inr o2 \<and> map_of o2 ''spec'' = map_of ?a ''spec''"
    using assms(1) unfolding stored_law_def by blast
  then show ?thesis using assms(1) by (simp add: stored_law_def)
qed

lemma CreateAddon_stored:
  assumes "stored_law L K" and "parseAddonYaml L path = Inr (Some a)"
    and "CreateAddon L K path sfx w = (Ret (Some b, None), w')"
  shows "\<exists>o2. res_Get K AddonGVR (un_Namespace L a) (un_Name L a @ sfx) w' = Inr o2 \<and> map_of o2 ''spec'' = map_of a ''spec''"
proof -
  have "un_Name L (with_suffix L sfx a) = un_Name L a @ sfx" "map_of (with_suffix L sfx a) ''spec'' = map_of a ''spec''"
    using assms(1) by (simp_all add: with_suffix_def stored_law_def)
  then show ?thesis
    using assms(2,3) store_object_stored [OF assms(1), of "un_Namespace L a" _ "with_suffix L sfx a" w b w']
    by (auto simp: CreateAddon_def Let_def split: prod.splits)
qed

subsection \<open>Joined words\<close>

definition is_word :: "string \<Rightarrow> bool" where
  "is_word w \<longleftrightarrow> w \<noteq> [] \<and> (\<forall>c \<in> set w. \<not> is_space c)"

lemma fields_from_word: "\<forall>c \<in> set w. \<not> is_space c \<Longrightarrow> fields_from cur (w @ s) = fields_from (cur @ w) s"
  by (induction w arbitrary: cur) simp_all

lemma Fields_Join: "\<forall>w \<in> set ws. is_word w \<Longrightarrow> Fields (Join ws '' '') = ws"
proof (induction ws "'' ''" rule: Join.induct)
  case (2 w)
  then show ?case using fields_from_word [of w "[]" "[]"] by (simp add: Fields_def is_word_def)
next
  case (3 v w ws)
  then show ?case using fields_from_word [of v "[]" "'' '' @ Join (w # ws) '' ''"]
    by (simp add: Fields_def is_word_def is_space_def)
qed (simp add: Fields_def)

lemma Join_first: "p @ Join (x # xs) d = Join ((p @ x) # xs) d"
  by (cases xs) simp_all

lemma Join_last: "Join (xs @ [x]) d @ q = Join (xs @ [x @ q]) d"
  by (induction xs d rule: Join.induct) simp_all

text \<open>The brackets that \<open>fmt.Sprint\<close> prints stick to the first and the last word.\<close>

lemma Sprint_words:
  assumes "ws \<noteq> []"
  obtains vs where "\<And>d. ''['' @ Join ws d @ '']'' = Join vs d" and "(\<forall>w \<in> set ws. is_word w) \<Longrightarrow> (\<forall>v \<in> set vs. is_word v)"
proof -
  obtain xs x where ws: "ws = xs @ [x]" using assms by (cases ws rule: rev_cases) auto
  show thesis
  proof (cases xs)
    case Nil
    then show ?thesis
      by (intro that [of "[''['' @ x @ '']'']"]) (simp_all add: ws is_word_def is_space_def)
  next
    case (Cons y ys)
    have "''['' @ Join ws d @ '']'' = Join ((''['' @ y) # ys @ [x @ '']'']) d" for d
      using Join_last [of xs x d "'']''"] Join_first [of "''[''" y "ys @ [x @ '']'']" d] by (simp add: ws Cons)
    then show ?thesis
      by (rule that [of "(''['' @ y) # ys @ [x @ '']'']"]) (auto simp: ws Cons is_word_def is_space_def)
  qed
qed

lemma Trim_brackets:
  assumes "s \<noteq> []" and "hd s \<notin> set ''[]''" and "last s \<notin> set ''[]''"
  shows "Trim (''['' @ s @ '']'') ''[]'' = s"
proof -
  have "dropWhile (\<lambda>c. c \<in> set ''[]'') (''['' @ s @ '']'') = s @ '']''"
    using assms(1,2) by (cases s) simp_all
  moreover have "dropWhile (\<lambda>c. c \<in> set ''[]'') (rev (s @ '']'')) = rev s"
    using assms(1,3) by (cases s rule: rev_cases) simp_all
  ultimately show ?thesis by (simp add: Trim_def del: append_Cons)
qed

text \<open>
  On words without brackets at the ends the helper is \<open>strings.Join\<close>; a text with a space in it counts as two words.
\<close>

lemma ConcatonateList_words:
  assumes "\<forall>w \<in> set ws. is_word w" and "ws \<noteq> []"
    and "hd (Join ws d) \<notin> set ''[]''" and "last (Join ws d) \<notin> set ''[]''"
  shows "ConcatonateList ws d = Join ws d"
proof -
  obtain vs where vs: "\<And>d. ''['' @ Join ws d @ '']'' = Join vs d" "\<forall>v \<in> set vs. is_word v"
    using Sprint_words [OF assms(2)] assms(1) by metis
  have "Join ws d \<noteq> []"
    using assms(1,2) by (cases ws; cases "tl ws") (auto simp: is_word_def)
  then have "Trim (Join vs d) ''[]'' = Join ws d" using Trim_brackets [OF _ assms(3,4)] vs(1) [of d] by simp
  then show ?thesis using Fields_Join [OF vs(2)] vs(1) [of "'' ''"] by (simp add: ConcatonateList_def Sprint_def)
qed

lemma ConcatonateList_splits: "ConcatonateList [''a b''] '','' = ''a,b''"
  by code_simp

subsection \<open>An instance\<close>

text \<open>Objects with their name at the top level, in a world that maps namespaces and names to objects.\<close>

definition sample_test_lib :: "(string \<times> string \<Rightarrow> json gomap option) test_lib" where
  "sample_test_lib =
     \<lparr>filepath_Abs = Inr, os_Open = (\<lambda>_. None), test_ReadFile = Inr, exec_LookPath = Inr,
      cmd_Start = (\<lambda>_ _ w. (None, w)), cmd_Wait = (\<lambda>_ _ w. (None, w)), file_content = (\<lambda>p. p),
      Decode = (\<lambda>_. ([[(''kind'', JStr ''Namespace'')], [(''kind'', JStr ''Addon''), (''name'', JStr ''a'')]], Errorf ''EOF'')),
      io_EOF = Errorf ''EOF'', GetKind = (\<lambda>x. case map_of x ''kind'' of Some (JStr k) \<Rightarrow> k | _ \<Rightarrow> []),
      MarshalJSON = (\<lambda>_. Inr []), json_Unmarshal_addon = (\<lambda>_. Some [(''kind'', JStr ''Addon''), (''name'', JStr ''a'')]),
      un_Name = (\<lambda>x. case map_of x ''name'' of Some (JStr n) \<Rightarrow> n | _ \<Rightarrow> []), un_Namespace = (\<lambda>_. ''ns''),
      un_GetResourceVersion = (\<lambda>_. []), put_Name = (\<lambda>n. AList.update ''name'' (JStr n)),
      un_SetResourceVersion = (\<lambda>v. AList.update ''resourceVersion'' (JStr v)),
      set_nested = (\<lambda>x v p. Inr (AList.update (last p) v x)), yaml_object = (\<lambda>_. Inr [])\<rparr>"

definition sample_client :: "(string \<times> string \<Rightarrow> json gomap option) dynamic_client" where
  "sample_client =
     \<lparr>res_Get = (\<lambda>g ns n w. case w (ns, n) of None \<Rightarrow> Inl (GoErr ReasonNotFound n) | Some x \<Rightarrow> Inr x),
      res_Create = (\<lambda>g ns x w. (None, w((ns, un_Name sample_test_lib x) := Some x))),
      res_Update = (\<lambda>g ns x w. (None, w((ns, un_Name sample_test_lib x) := Some x))),
      res_Delete = (\<lambda>g ns n w. (None, w((ns, n) := None)))\<rparr>"

lemma sample_stored_law: "stored_law sample_test_lib sample_client"
  by (auto simp: stored_law_def sample_client_def sample_test_lib_def)

lemma sample_created:
  "\<exists>x w. CreateAddon sample_test_lib sample_client ''f'' ''-1'' (\<lambda>_. None) = (Ret (Some x, None), w) \<and>
     res_Get sample_client AddonGVR ''ns'' ''a-1'' w = Inr x"
  by (simp add: CreateAddon_def parseAddonYaml_def PathToOSFile_def ReadFile_def with_suffix_def store_object_def
      sample_test_lib_def sample_client_def Let_def)

end
