(* ===== verification/Load_Test.thy ===== *)
theory Load_Test
  imports Test_Support
begin

text \<open>
  The load test (\<^verbatim>\<open>test-load/main.go\<close>): ten goroutines create addons under a lock and wait for the status of each,
  a further one collects the use of resources, and the main function waits for the ten and then stops the
  collector over an unbuffered channel. The program is a relation between states that interleaves them; the variables
  \<open>addonName\<close> and \<open>addonNamespace\<close> are in the state, since all goroutines share them. The calls under the
  lock are one step, and so is every other call of the API. The API changes at any time by steps of its own.

  The lemmas show that the program never gets stuck and that its goroutines take boundedly many steps, that
  the calls under the lock exclude each other, and that the variables are not protected: a goroutine may wait
  for the status of another one's addon.
\<close>

section \<open>Numbers\<close>

definition numberOfRoutines :: nat where
  "numberOfRoutines = 10"

definition load_numbers :: "nat \<Rightarrow> nat list" where
  "load_numbers i = [i * 100..<i * 100 + 200]"

definition load_suffix :: "nat \<Rightarrow> string" where
  "load_suffix j = ''-'' @ itoa (int j)"

text \<open>
  The goroutines share half of their numbers with their neighbours: 2000 creations make 1100 addons, with the
  numbers 100 to 1199.
\<close>

lemma load_numbers_overlap:
  "length (concat (map load_numbers [1..<Suc numberOfRoutines])) = 2000"
  "set (concat (map load_numbers [1..<Suc numberOfRoutines])) = {100..<1200}"
  "set (load_numbers i) \<inter> set (load_numbers (Suc i)) = {Suc i * 100..<Suc i * 100 + 100}"
proof -
  have routines: "[1..<Suc numberOfRoutines] = [1, 2, 3, 4, 5, 6, 7, 8, 9, 10]"
    by (simp add: numberOfRoutines_def upt_conv_Cons)
  show "length (concat (map load_numbers [1..<Suc numberOfRoutines])) = 2000"
    unfolding routines load_numbers_def by (simp del: upt.simps)
  show "set (concat (map load_numbers [1..<Suc numberOfRoutines])) = {100..<1200}"
  proof (intro subset_antisym subsetI)
    fix x :: nat
    assume "x \<in> {100..<1200}"
    then have "x \<in> set (load_numbers (min 10 (x div 100)))" "min 10 (x div 100) \<in> set [1..<Suc numberOfRoutines]"
      by (auto simp: load_numbers_def numberOfRoutines_def min_def)
    then show "x \<in> set (concat (map load_numbers [1..<Suc numberOfRoutines]))" by auto
  qed (auto simp: load_numbers_def numberOfRoutines_def)
  show "set (load_numbers i) \<inter> set (load_numbers (Suc i)) = {Suc i * 100..<Suc i * 100 + 100}"
    by (auto simp: load_numbers_def)
qed

section \<open>The collector\<close>

text \<open>
  What the program is given: the helpers of the behaviour tests and the client, whether there is a
  configuration for it, the processes that the collector runs, and their numbers. The error of a process in
  the pipe is dropped, so the pipe has a text.
\<close>

record 'w load_env =
  le_lib :: "'w test_lib"
  le_client :: "'w dynamic_client"
  GetConfigOrDie :: "goerr option"
  pipe_output :: "(string \<times> string list) list \<Rightarrow> 'w \<Rightarrow> string"
  cmd_Output :: "string \<Rightarrow> string list \<Rightarrow> 'w \<Rightarrow> goerr + string"
  mgrPid :: string
  ctrlPid :: string

definition relativeAddonPath :: string where
  "relativeAddonPath = ''docs/examples/eventrouter.yaml''"

definition line_end :: string where
  "line_end = [CHR 0x0A]"

text \<open>The error, and what is appended to the file.\<close>

definition Summary :: "'w load_env \<Rightarrow> string \<Rightarrow> string \<Rightarrow> 'w \<Rightarrow> goerr option \<times> string" where
  "Summary E managerPID wfctrlPID w =
     (let AddonsNum = pipe_output E
            [(''kubectl'', [''-n'', ''addon-manager-system'', ''get'', ''addons'']), (''wc'', [''-l''])] w
      in case cmd_Output E ''ps'' [''-p'', managerPID, ''-o'', ''%cpu,%mem''] w of
           Inl err \<Rightarrow> (Some err, [])
         | Inr managerUsage \<Rightarrow>
             (case cmd_Output E ''ps'' [''-p'', wfctrlPID, ''-o'', ''%cpu,%mem''] w of
                Inl err \<Rightarrow> (Some err, [])
              | Inr wfControllerUsage \<Rightarrow>
                  (let oneline = ''<addons-num:'' @ TrimSpace AddonsNum @ ''  '' @ line_end @ '' addon-mgr:''
                         @ TrimSuffix managerUsage line_end @ ''  '' @ line_end @ ''wf-controller:''
                         @ TrimSuffix wfControllerUsage line_end @ ''>''
                   in (None, oneline @ line_end @ ''#############'' @ line_end))))"

section \<open>Goroutines and steps\<close>

text \<open>
  Where the goroutine \<open>i\<close> is: not started, at the head of its loop over the numbers, under the lock, about to
  store the name and then the namespace of the addon that it has created, at the head of its \<open>x\<close>th read, in
  that read with the namespace at hand, or at its end. The receiver and the argument of the read are
  evaluated one after the other.
\<close>

datatype routine =
    Unstarted
  | AtNumber nat
  | Locked nat
  | StoreName nat "json gomap"
  | StoreNamespace nat "json gomap"
  | Poll nat nat
  | PollIn nat nat string
  | Returned

datatype main_pc = Configure | Spawn nat | WaitGroup | SendStop | Closing | Ended | Crashed

datatype collector_pc = Select | Collect | Sleep | Stopped

record 'w load =
  ld_world :: 'w
  addonName_var :: string
  addonNamespace_var :: string
  ld_lock :: "nat option"
  wg :: nat
  ld_routine :: "nat \<Rightarrow> routine"
  ld_main :: main_pc
  ld_collector :: collector_pc
  summary_txt :: string

abbreviation at :: "'w load \<Rightarrow> nat \<Rightarrow> routine \<Rightarrow> 'w load" where
  "at s i pc \<equiv> s\<lparr>ld_routine := (ld_routine s)(i := pc)\<rparr>"

definition running :: "'w load \<Rightarrow> bool" where
  "running s \<longleftrightarrow> ld_main s \<noteq> Ended \<and> ld_main s \<noteq> Crashed"

text \<open>Whether the read has a status in its answer.\<close>

definition has_status :: "goerr + json gomap \<Rightarrow> bool" where
  "has_status r = (case r of Inl _ \<Rightarrow> False | Inr a \<Rightarrow> map_of a ''status'' \<notin> {None, Some JNull})"

definition create_numbered ::
    "'w load_env \<Rightarrow> nat \<Rightarrow> 'w \<Rightarrow> (json gomap option \<times> goerr option) outcome \<times> 'w" where
  "create_numbered E j w = CreateLoadTestsAddon (le_lib E) (le_client E) relativeAddonPath (load_suffix j) w"

text \<open>The steps of the ten goroutines.\<close>

inductive routine_step :: "'w load_env \<Rightarrow> nat \<Rightarrow> 'w load \<Rightarrow> 'w load \<Rightarrow> bool" for E i where
  take_lock: "ld_routine s i = AtNumber j \<Longrightarrow> j < i * 100 + 200 \<Longrightarrow> ld_lock s = None \<Longrightarrow>
    routine_step E i s (at (s\<lparr>ld_lock := Some i\<rparr>) i (Locked j))"
| create: "ld_routine s i = Locked j \<Longrightarrow> create_numbered E j (ld_world s) = (Ret (Some addon, None), w) \<Longrightarrow>
    routine_step E i s (at (s\<lparr>ld_world := w, ld_lock := None\<rparr>) i (StoreName j addon))"
| create_error: "ld_routine s i = Locked j \<Longrightarrow> create_numbered E j (ld_world s) = (Ret (r, Some err), w) \<Longrightarrow>
    routine_step E i s (at (s\<lparr>ld_world := w, ld_lock := None\<rparr>) i (AtNumber (Suc j)))"
| create_panic: "ld_routine s i = Locked j \<Longrightarrow> create_numbered E j (ld_world s) = (Panic p, w) \<Longrightarrow>
    routine_step E i s (s\<lparr>ld_world := w, ld_lock := None, ld_main := Crashed\<rparr>)"
| store_name: "ld_routine s i = StoreName j addon \<Longrightarrow>
    routine_step E i s (at (s\<lparr>addonName_var := un_Name (le_lib E) addon\<rparr>) i (StoreNamespace j addon))"
| store_namespace: "ld_routine s i = StoreNamespace j addon \<Longrightarrow>
    routine_step E i s (at (s\<lparr>addonNamespace_var := un_Namespace (le_lib E) addon\<rparr>) i (Poll j 0))"
| poll: "ld_routine s i = Poll j x \<Longrightarrow> x \<le> 500 \<Longrightarrow> routine_step E i s (at s i (PollIn j x (addonNamespace_var s)))"
| poll_over: "ld_routine s i = Poll j x \<Longrightarrow> 500 < x \<Longrightarrow> routine_step E i s (at s i (AtNumber (Suc j)))"
| read: "ld_routine s i = PollIn j x ns \<Longrightarrow>
    routine_step E i s (at s i (if has_status (res_Get (le_client E) AddonGVR ns (addonName_var s) (ld_world s))
      then AtNumber (Suc j) else Poll j (Suc x)))"
| return: "ld_routine s i = AtNumber j \<Longrightarrow> i * 100 + 200 \<le> j \<Longrightarrow>
    routine_step E i s (at (s\<lparr>wg := wg s - 1\<rparr>) i Returned)"

text \<open>The steps of the main function; the channel has no buffer, so the collector takes the value as it is sent.\<close>

inductive main_step :: "'w load_env \<Rightarrow> 'w load \<Rightarrow> 'w load \<Rightarrow> bool" for E where
  configure: "ld_main s = Configure \<Longrightarrow>
    main_step E s (s\<lparr>ld_main := (if GetConfigOrDie E = None then Spawn 1 else Crashed)\<rparr>)"
| spawn: "ld_main s = Spawn i \<Longrightarrow> i \<le> numberOfRoutines \<Longrightarrow>
    main_step E s (at (s\<lparr>ld_main := Spawn (Suc i)\<rparr>) i (AtNumber (i * 100)))"
| spawned: "ld_main s = Spawn i \<Longrightarrow> numberOfRoutines < i \<Longrightarrow> main_step E s (s\<lparr>ld_main := WaitGroup\<rparr>)"
| waited: "ld_main s = WaitGroup \<Longrightarrow> wg s = 0 \<Longrightarrow> main_step E s (s\<lparr>ld_main := SendStop\<rparr>)"
| stop: "ld_main s = SendStop \<Longrightarrow> ld_collector s = Select \<Longrightarrow>
    main_step E s (s\<lparr>ld_main := Closing, ld_collector := Stopped\<rparr>)"
| close: "ld_main s = Closing \<Longrightarrow> main_step E s (s\<lparr>ld_main := Ended\<rparr>)"

text \<open>
  The steps of the collector: the default branch of its \<open>select\<close> is taken only if nobody is sending.
\<close>

inductive collector_step :: "'w load_env \<Rightarrow> 'w load \<Rightarrow> 'w load \<Rightarrow> bool" for E where
  default: "ld_collector s = Select \<Longrightarrow> ld_main s \<noteq> SendStop \<Longrightarrow> collector_step E s (s\<lparr>ld_collector := Collect\<rparr>)"
| collect: "ld_collector s = Collect \<Longrightarrow> Summary E (mgrPid E) (ctrlPid E) (ld_world s) = (err, txt) \<Longrightarrow>
    collector_step E s (s\<lparr>ld_collector := Sleep, summary_txt := summary_txt s @ txt\<rparr>)"
| wake: "ld_collector s = Sleep \<Longrightarrow> collector_step E s (s\<lparr>ld_collector := Select\<rparr>)"

text \<open>The program proper, and the whole with the collector and the API.\<close>

definition work_step :: "'w load_env \<Rightarrow> 'w load \<Rightarrow> 'w load \<Rightarrow> bool" where
  "work_step E s s' \<longleftrightarrow> running s \<and> (main_step E s s' \<or> (\<exists>i \<in> {1..numberOfRoutines}. routine_step E i s s'))"

inductive load_step :: "'w load_env \<Rightarrow> 'w load \<Rightarrow> 'w load \<Rightarrow> bool" for E where
  work: "work_step E s s' \<Longrightarrow> load_step E s s'"
| collecting: "running s \<Longrightarrow> collector_step E s s' \<Longrightarrow> load_step E s s'"
| api: "load_step E s (s\<lparr>ld_world := w\<rparr>)"

text \<open>If the file cannot be created, the program ends at once.\<close>

definition load_main :: "goerr option \<Rightarrow> 'w \<Rightarrow> 'w load" where
  "load_main os_Create w =
     \<lparr>ld_world = w, addonName_var = [], addonNamespace_var = [], ld_lock = None, wg = numberOfRoutines,
      ld_routine = (\<lambda>_. Unstarted), ld_main = (if os_Create = None then Configure else Ended),
      ld_collector = Select, summary_txt = []\<rparr>"

abbreviation load_reach :: "'w load_env \<Rightarrow> 'w load \<Rightarrow> bool" where
  "load_reach E s \<equiv> \<exists>c w. (load_step E)\<^sup>*\<^sup>* (load_main c w) s"

section \<open>The invariant\<close>

text \<open>The lock is held by the goroutine that is under it.\<close>

definition locked :: "(nat \<Rightarrow> routine) \<Rightarrow> nat set" where
  "locked f = {i. \<exists>j. f i = Locked j}"

definition lock_ok :: "'w load \<Rightarrow> bool" where
  "lock_ok s \<longleftrightarrow> locked (ld_routine s) = set_option (ld_lock s)"

text \<open>The wait group counts the goroutines that have not returned.\<close>

definition unreturned :: "(nat \<Rightarrow> routine) \<Rightarrow> nat set" where
  "unreturned f = {i \<in> {1..numberOfRoutines}. f i \<noteq> Returned}"

definition count_ok :: "'w load \<Rightarrow> bool" where
  "count_ok s \<longleftrightarrow> wg s = card (unreturned (ld_routine s))"

definition poll_ok :: "'w load \<Rightarrow> bool" where
  "poll_ok s \<longleftrightarrow> (\<forall>i j x. (ld_routine s i = Poll j x \<longrightarrow> x \<le> 501) \<and> (\<forall>ns. ld_routine s i = PollIn j x ns \<longrightarrow> x \<le> 500))"

text \<open>Which goroutines have been started.\<close>

definition started :: "main_pc \<Rightarrow> nat set" where
  "started m = (case m of Configure \<Rightarrow> {} | Spawn k \<Rightarrow> {1..<k} | _ \<Rightarrow> {1..numberOfRoutines})"

definition begun :: "(nat \<Rightarrow> routine) \<Rightarrow> nat set" where
  "begun f = {i. f i \<noteq> Unstarted}"

definition spawn_ok :: "'w load \<Rightarrow> bool" where
  "spawn_ok s \<longleftrightarrow> begun (ld_routine s) = started (ld_main s) \<and>
     (\<forall>k. ld_main s = Spawn k \<longrightarrow> 1 \<le> k \<and> k \<le> Suc numberOfRoutines)"

definition stop_ok :: "'w load \<Rightarrow> bool" where
  "stop_ok s \<longleftrightarrow> (ld_collector s = Stopped \<longrightarrow> ld_main s = Closing)"

definition load_ok :: "'w load \<Rightarrow> bool" where
  "load_ok s \<longleftrightarrow> (running s \<longrightarrow> lock_ok s \<and> count_ok s \<and> poll_ok s \<and> spawn_ok s \<and> stop_ok s)"

lemmas load_ok_defs = lock_ok_def count_ok_def poll_ok_def spawn_ok_def stop_ok_def

lemma unreturned_at [simp]: "f i \<noteq> Returned \<Longrightarrow> pc \<noteq> Returned \<Longrightarrow> unreturned (f(i := pc)) = unreturned f"
  by (auto simp: unreturned_def)

lemma begun_at [simp]: "pc \<noteq> Unstarted \<Longrightarrow> begun (f(i := pc)) = insert i (begun f)"
  by (auto simp: begun_def)

lemma begun_insert [simp]: "f i \<noteq> Unstarted \<Longrightarrow> insert i (begun f) = begun f"
  by (auto simp: begun_def)

lemma locked_at [simp]:
  "locked (f(i := Locked j)) = insert i (locked f)"
  "\<nexists>j. pc = Locked j \<Longrightarrow> locked (f(i := pc)) = locked f - {i}"
  by (auto simp: locked_def)

lemma locked_diff [simp]: "\<nexists>j. f i = Locked j \<Longrightarrow> locked f - {i} = locked f"
  by (auto simp: locked_def)

lemma locked_iff: "lock_ok s \<Longrightarrow> ld_lock s = Some i \<longleftrightarrow> (\<exists>j. ld_routine s i = Locked j)"
proof -
  assume "lock_ok s"
  then have "i \<in> set_option (ld_lock s) \<longleftrightarrow> i \<in> locked (ld_routine s)" by (simp add: lock_ok_def)
  then show ?thesis by (simp add: elem_set locked_def)
qed

lemma unreturned_less:
  assumes "f i \<noteq> Returned" and "i \<in> {1..numberOfRoutines}"
  shows "card (unreturned (f(i := Returned))) = card (unreturned f) - 1"
proof -
  have "unreturned (f(i := Returned)) = unreturned f - {i}" by (auto simp: unreturned_def)
  then show ?thesis using assms by (simp add: card_Diff_singleton unreturned_def)
qed

lemma ok_main_step: "main_step E s s' \<Longrightarrow> running s \<Longrightarrow> load_ok s \<Longrightarrow> load_ok s'"
proof (induction rule: main_step.induct)
  case (spawn s i)
  then have "i \<notin> begun (ld_routine s)" by (simp add: load_ok_def spawn_ok_def started_def)
  then have "ld_routine s i = Unstarted" "i \<notin> locked (ld_routine s)" by (simp_all add: begun_def locked_def)
  with spawn show ?case by (auto simp: load_ok_def load_ok_defs started_def)
qed (auto simp: load_ok_def load_ok_defs started_def running_def le_Suc_eq)

lemma ok_routine_step:
  assumes "routine_step E i s s'" and "i \<in> {1..numberOfRoutines}" and "running s" and "load_ok s"
  shows "load_ok s'"
proof -
  have ok: "lock_ok s" "count_ok s" "poll_ok s" "spawn_ok s" "stop_ok s" using assms(3,4) by (simp_all add: load_ok_def)
  have "stop_ok s' \<or> \<not> running s'" using assms(1) ok(5) by cases (simp_all add: stop_ok_def running_def)
  moreover have "begun (ld_routine s') = begun (ld_routine s)" "ld_main s' = ld_main s \<or> ld_main s' = Crashed"
    using assms(1) by (cases, simp_all)+
  then have "spawn_ok s' \<or> \<not> running s'" using ok(4) by (auto simp: spawn_ok_def running_def)
  moreover have "poll_ok s' \<or> \<not> running s'" using assms(1) ok(3) by cases (auto simp: poll_ok_def running_def)
  moreover have "count_ok s' \<or> \<not> running s'"
    using assms(1,2) ok(2) by cases (simp_all add: count_ok_def unreturned_less running_def)
  moreover have "lock_ok s' \<or> \<not> running s'"
    using assms(1) ok(1) by cases (use locked_iff [OF ok(1), of i] in \<open>simp_all add: lock_ok_def running_def elem_set\<close>)
  ultimately show ?thesis by (auto simp: load_ok_def)
qed

lemma load_ok_reach: "load_reach E s \<Longrightarrow> load_ok s"
proof (elim exE)
  fix c w
  assume "(load_step E)\<^sup>*\<^sup>* (load_main c w) s"
  then show "load_ok s"
  proof (induction rule: rtranclp_induct)
    case base
    have "unreturned (\<lambda>_. Unstarted) = {1..numberOfRoutines}" by (auto simp: unreturned_def)
    then show ?case
      by (simp add: load_ok_def load_ok_defs load_main_def locked_def begun_def started_def running_def)
  next
    case (step s s')
    from step(2) show ?case
    proof cases
      case work
      then have "running s" "main_step E s s' \<or> (\<exists>i \<in> {1..numberOfRoutines}. routine_step E i s s')"
        by (simp_all add: work_step_def)
      then show ?thesis using ok_main_step [OF _ _ step(3)] ok_routine_step [OF _ _ _ step(3)] by blast
    next
      case collecting
      from collecting(2) show ?thesis
        using step(3) by cases (auto simp: load_ok_def load_ok_defs running_def)
    next
      case (api w)
      then show ?thesis using step(3) by (simp add: load_ok_def load_ok_defs running_def)
    qed
  qed
qed

text \<open>So the calls under the lock exclude each other.\<close>

lemma creations_exclusive:
  assumes "load_reach E s" and "running s" and "ld_routine s i = Locked j" and "ld_routine s k = Locked m"
  shows "i = k"
proof -
  have "lock_ok s" using load_ok_reach [OF assms(1)] assms(2) by (simp add: load_ok_def)
  then show ?thesis using locked_iff [of s i] locked_iff [of s k] assms(3,4) by auto
qed

section \<open>Progress\<close>

text \<open>
  How many steps the goroutines and the main function have left at most: a number costs two steps for the
  creation, two for the variables, two for each of the 501 reads, and some for the ends of the loops.
\<close>

fun routine_left :: "nat \<Rightarrow> routine \<Rightarrow> nat" where
  "routine_left i Unstarted = 200 * 1010 + 2"
| "routine_left i (AtNumber j) = (i * 100 + 200 - j) * 1010 + 1"
| "routine_left i (Locked j) = (i * 100 + 199 - j) * 1010 + 1010"
| "routine_left i (StoreName j addon) = (i * 100 + 199 - j) * 1010 + 1009"
| "routine_left i (StoreNamespace j addon) = (i * 100 + 199 - j) * 1010 + 1008"
| "routine_left i (Poll j x) = (i * 100 + 199 - j) * 1010 + (1007 - 2 * x)"
| "routine_left i (PollIn j x ns) = (i * 100 + 199 - j) * 1010 + (1006 - 2 * x)"
| "routine_left i Returned = 0"

fun main_left :: "main_pc \<Rightarrow> nat" where
  "main_left Configure = numberOfRoutines + 6"
| "main_left (Spawn i) = numberOfRoutines + 5 - i"
| "main_left WaitGroup = 3"
| "main_left SendStop = 2"
| "main_left Closing = 1"
| "main_left Ended = 0"
| "main_left Crashed = 0"

definition work_left :: "'w load \<Rightarrow> nat" where
  "work_left s = main_left (ld_main s) + (\<Sum>i \<in> {1..numberOfRoutines}. routine_left i (ld_routine s i))"

lemma left_at:
  assumes "i \<in> A" and "finite A" and "routine_left i pc < routine_left i (f i)"
  shows "(\<Sum>k \<in> A. routine_left k ((f(i := pc)) k)) < (\<Sum>k \<in> A. routine_left k (f k))"
  using assms by (intro sum_strict_mono_ex1) auto

lemma poll_bounds:
  assumes "poll_ok s"
  shows "ld_routine s i = Poll j x \<Longrightarrow> x \<le> 501" and "ld_routine s i = PollIn j x ns \<Longrightarrow> x \<le> 500"
  using assms by (auto simp: poll_ok_def)

lemma main_left_pos: "running s \<Longrightarrow> spawn_ok s \<Longrightarrow> 0 < main_left (ld_main s)"
  by (cases "ld_main s") (auto simp: running_def spawn_ok_def)

lemma routine_step_left:
  assumes "routine_step E i s s'" and "i \<in> {1..numberOfRoutines}" and "running s" and "load_ok s"
  shows "work_left s' < work_left s"
proof -
  have ok: "poll_ok s" "spawn_ok s" using assms(3,4) by (simp_all add: load_ok_def)
  show ?thesis
  proof (cases "ld_main s' = Crashed")
    case True
    from assms(1) have "ld_routine s' = ld_routine s" using True assms(3) by cases (simp_all add: running_def)
    then show ?thesis using True main_left_pos [OF assms(3) ok(2)] by (simp add: work_left_def)
  next
    case False
    from assms(1) have main: "ld_main s' = ld_main s" using False by cases simp_all
    from assms(1) have upd: "ld_routine s' = (ld_routine s)(i := ld_routine s' i)" using False by cases simp_all
    from assms(1) have "routine_left i (ld_routine s' i) < routine_left i (ld_routine s i)"
      using False by cases (auto dest!: poll_bounds [OF ok(1)])
    then have "(\<Sum>k \<in> {1..numberOfRoutines}. routine_left k (ld_routine s' k)) <
        (\<Sum>k \<in> {1..numberOfRoutines}. routine_left k (ld_routine s k))"
      using left_at [OF assms(2), where f = "ld_routine s" and pc = "ld_routine s' i"] by (subst upd) simp
    then show ?thesis using main by (simp add: work_left_def)
  qed
qed

lemma main_step_left:
  assumes "main_step E s s'" and "running s" and "load_ok s"
  shows "work_left s' < work_left s"
  using assms(1)
proof cases
  case (spawn i)
  have "i \<notin> begun (ld_routine s)" using assms(2,3) spawn by (simp add: load_ok_def spawn_ok_def started_def)
  then have "routine_left i (AtNumber (i * 100)) < routine_left i (ld_routine s i)" by (simp add: begun_def)
  moreover have "i \<in> {1..numberOfRoutines}" using assms(2,3) spawn by (simp add: load_ok_def spawn_ok_def)
  ultimately show ?thesis using left_at [of i "{1..numberOfRoutines}"] spawn by (fastforce simp: work_left_def)
next
  case (spawned i)
  then have "i = Suc numberOfRoutines" using assms(2,3) by (simp add: load_ok_def spawn_ok_def)
  then show ?thesis using spawned by (simp add: work_left_def)
qed (simp_all add: work_left_def)

lemma create_numbered_cases:
  obtains addon w' where "create_numbered E j w = (Ret (Some addon, None), w')"
    | r err w' where "create_numbered E j w = (Ret (r, Some err), w')"
    | p w' where "create_numbered E j w = (Panic p, w')"
proof -
  have "fst (create_numbered E j w) \<noteq> Ret (None, None)"
    by (simp add: create_numbered_def CreateLoadTestsAddon_def Let_def split: sum.split option.split prod.split)
  then show thesis
    using that by (cases "create_numbered E j w"; cases "fst (create_numbered E j w)") (metis fst_conv option.exhaust prod.exhaust)+
qed

text \<open>A goroutine can go on, unless it waits for the lock.\<close>

lemma unlocked_step:
  assumes "ld_routine s i \<noteq> Unstarted" and "ld_routine s i \<noteq> Returned" and "ld_lock s = None \<or> (\<nexists>j. ld_routine s i = AtNumber j)"
  shows "\<exists>s'. routine_step E i s s'"
proof (cases "ld_routine s i")
  case (AtNumber j)
  then have "ld_lock s = None" using assms(3) by simp
  then show ?thesis
    using routine_step.take_lock [OF AtNumber] routine_step.return [OF AtNumber] by (cases "j < i * 100 + 200") (meson not_less)+
next
  case (Locked j)
  show ?thesis
    by (cases E j "ld_world s" rule: create_numbered_cases)
      (use routine_step.create [OF Locked] routine_step.create_error [OF Locked] routine_step.create_panic [OF Locked] in meson)+
next
  case (StoreName j addon)
  show ?thesis by (rule exI, rule routine_step.store_name [OF StoreName])
next
  case (StoreNamespace j addon)
  show ?thesis by (rule exI, rule routine_step.store_namespace [OF StoreNamespace])
next
  case (Poll j x)
  show ?thesis using routine_step.poll [OF Poll] routine_step.poll_over [OF Poll] by (cases "x \<le> 500") (meson not_le)+
next
  case (PollIn j x ns)
  show ?thesis by (rule exI, rule routine_step.read [OF PollIn])
qed (use assms in simp_all)

text \<open>So some goroutine can go on, unless all have returned.\<close>

lemma routine_progress:
  assumes "load_ok s" and "running s" and "ld_routine s i \<noteq> Unstarted" and "ld_routine s i \<noteq> Returned"
  shows "\<exists>k s'. ld_routine s k \<noteq> Unstarted \<and> routine_step E k s s'"
proof (cases "ld_lock s")
  case None
  then show ?thesis using unlocked_step [OF assms(3,4)] assms(3) by blast
next
  case (Some k)
  then obtain j where "ld_routine s k = Locked j" using assms(1,2) locked_iff [of s k] by (auto simp: load_ok_def)
  then have "ld_routine s k \<noteq> Unstarted" "ld_routine s k \<noteq> Returned" "\<nexists>j. ld_routine s k = AtNumber j" by simp_all
  then show ?thesis using unlocked_step [of s k E] by blast
qed

lemma work_progress:
  assumes "load_ok s" and "running s"
  shows "(\<exists>s'. work_step E s s') \<or> ld_main s = SendStop \<and> ld_collector s \<in> {Collect, Sleep}"
proof (cases "\<exists>s'. main_step E s s'")
  case True
  then show ?thesis using assms(2) by (auto simp: work_step_def)
next
  case False
  then consider "ld_main s = WaitGroup" "wg s \<noteq> 0" | "ld_main s = SendStop" "ld_collector s \<noteq> Select"
    using assms(2) by (cases "ld_main s") (auto simp: main_step.simps running_def not_le)
  then show ?thesis
  proof cases
    case 1
    have ok: "count_ok s" "spawn_ok s" using assms by (simp_all add: load_ok_def)
    then have "unreturned (ld_routine s) \<noteq> {}" using 1(2) by (auto simp: count_ok_def)
    then obtain i where "i \<in> unreturned (ld_routine s)" by blast
    then have "i \<in> begun (ld_routine s)" "ld_routine s i \<noteq> Returned"
      using ok(2) 1(1) by (simp_all add: spawn_ok_def started_def unreturned_def)
    then obtain k s' where "k \<in> begun (ld_routine s)" "routine_step E k s s'"
      using routine_progress [OF assms, where i = i and E = E] by (auto simp: begun_def)
    moreover from this have "k \<in> {1..numberOfRoutines}" using ok(2) 1(1) by (simp add: spawn_ok_def started_def)
    ultimately show ?thesis using assms(2) unfolding work_step_def by blast
  next
    case 2
    then show ?thesis using assms by (cases "ld_collector s") (auto simp: load_ok_def stop_ok_def)
  qed
qed

lemma work_step_left: "work_step E s s' \<Longrightarrow> load_ok s \<Longrightarrow> work_left s' < work_left s"
  unfolding work_step_def using main_step_left routine_step_left by blast

lemma load_step_left: "load_step E s s' \<Longrightarrow> load_ok s \<Longrightarrow> work_left s' \<le> work_left s"
proof (induction rule: load_step.induct)
  case (work s s')
  then show ?case using work_step_left less_imp_le by blast
next
  case (collecting s s')
  then have "work_left s' = work_left s" by (auto simp: work_left_def collector_step.simps)
  then show ?case by simp
qed (simp add: work_left_def)

text \<open>A measure that never grows bounds how often it gets smaller.\<close>

lemma decreases_bounded:
  fixes f :: "nat \<Rightarrow> nat"
  assumes "\<And>k. f (Suc k) \<le> f k" and "\<And>k. k \<in> S \<Longrightarrow> f (Suc k) < f k"
  shows "finite S \<and> card S \<le> f 0"
proof -
  have upto: "card (S \<inter> {..<n}) + f n \<le> f 0" for n
  proof (induction n)
    case (Suc n)
    have "S \<inter> {..<Suc n} = (if n \<in> S then insert n (S \<inter> {..<n}) else S \<inter> {..<n})" by (auto simp: less_Suc_eq)
    then show ?case using Suc assms(1) [of n] assms(2) [of n] by (auto split: if_splits)
  qed simp
  have small: "card T \<le> f 0" if fin: "finite T" and sub: "T \<subseteq> S" for T
  proof -
    obtain n where "T \<subseteq> {..<n}" using fin finite_nat_set_iff_bounded [of T] by blast
    then have "card T \<le> card (S \<inter> {..<n})" using sub by (intro card_mono) auto
    then show ?thesis using upto [of n] by simp
  qed
  have "finite S"
  proof (rule ccontr)
    assume "infinite S"
    then obtain T where "T \<subseteq> S" "finite T" "card T = Suc (f 0)" using infinite_arbitrarily_large by blast
    then show False using small [of T] by simp
  qed
  then show ?thesis using small by blast
qed

lemma work_left_start: "work_left (load_main c w) \<le> 2020036"
  by (simp add: work_left_def load_main_def numberOfRoutines_def)

lemma collector_arrives:
  assumes "ld_main s = SendStop" and "ld_collector s \<in> {Collect, Sleep}"
  shows "\<exists>s1 s2. (collector_step E)\<^sup>*\<^sup>* s s1 \<and> work_step E s1 s2"
proof -
  obtain err line where line: "Summary E (mgrPid E) (ctrlPid E) (ld_world s) = (err, line)" by fastforce
  define s0 where "s0 = (if ld_collector s = Collect then s\<lparr>ld_collector := Sleep, summary_txt := summary_txt s @ line\<rparr> else s)"
  have "(collector_step E)\<^sup>*\<^sup>* s s0"
    using collector_step.collect [OF _ line] by (auto simp: s0_def)
  moreover have sleeping: "ld_collector s0 = Sleep" "ld_main s0 = SendStop" using assms by (auto simp: s0_def)
  ultimately have "(collector_step E)\<^sup>*\<^sup>* s (s0\<lparr>ld_collector := Select\<rparr>)"
    using collector_step.wake [of s0 E] by (auto intro: rtranclp.rtrancl_into_rtrancl)
  moreover have "work_step E (s0\<lparr>ld_collector := Select\<rparr>)
      (s0\<lparr>ld_collector := Select\<rparr>\<lparr>ld_main := Closing, ld_collector := Stopped\<rparr>)"
    using sleeping main_step.stop [of "s0\<lparr>ld_collector := Select\<rparr>" E] by (simp add: work_step_def running_def)
  ultimately show ?thesis by blast
qed

text \<open>
  C40: The load test comes to its end. In every run, however its goroutines, the collector and the API interleave,
  the ten goroutines and the main function take at most 2020036 steps altogether; and as long as the
  program runs, one of them can take a step, at once or after the collector has come back to its
  \<open>select\<close>: no goroutine waits forever for the lock, the main function not for the wait group, and the
  value on the channel is received.
\<close>

theorem load_test_ends:
  assumes "run 0 = load_main c w" and "\<And>k. load_step E (run k) (run (Suc k))"
  shows "finite {k. work_step E (run k) (run (Suc k))} \<and> card {k. work_step E (run k) (run (Suc k))} \<le> 2020036 \<and>
    (\<forall>k. running (run k) \<longrightarrow> (\<exists>s1 s2. (collector_step E)\<^sup>*\<^sup>* (run k) s1 \<and> work_step E s1 s2))"
proof -
  have reach: "(load_step E)\<^sup>*\<^sup>* (load_main c w) (run k)" for k
    using assms by (induction k) (auto intro: rtranclp.rtrancl_into_rtrancl)
  have ok: "load_ok (run k)" for k using reach [of k] by (intro load_ok_reach) blast
  have "finite {k. work_step E (run k) (run (Suc k))} \<and> card {k. work_step E (run k) (run (Suc k))} \<le> work_left (run 0)"
    by (rule decreases_bounded) (use load_step_left [OF assms(2) ok] work_step_left [OF _ ok] in simp_all)
  moreover have "\<exists>s1 s2. (collector_step E)\<^sup>*\<^sup>* (run k) s1 \<and> work_step E s1 s2" if "running (run k)" for k
    using work_progress [OF ok that, of E] collector_arrives [of "run k" E] by blast
  ultimately show ?thesis using work_left_start [of c w] assms(1) by auto
qed

section \<open>A run in memory\<close>

definition sample_load_env :: "(string \<times> string \<Rightarrow> json gomap option) load_env" where
  "sample_load_env = \<lparr>le_lib = sample_test_lib, le_client = sample_client, GetConfigOrDie = None,
     pipe_output = (\<lambda>_ _. ''0''), cmd_Output = (\<lambda>_ _ _. Inr []), mgrPid = ''1'', ctrlPid = ''2''\<rparr>"

theorem load_test_ends_witness:
  "\<exists>s1 s2. (collector_step sample_load_env)\<^sup>*\<^sup>* (load_main None (\<lambda>_. None)) s1 \<and> work_step sample_load_env s1 s2"
proof -
  let ?s = "load_main None (\<lambda>_. None) :: (string \<times> string \<Rightarrow> json gomap option) load"
  have "load_step sample_load_env ?s ?s" using load_step.api [of sample_load_env ?s "ld_world ?s"] by simp
  moreover have "running ?s" by (simp add: running_def load_main_def)
  ultimately show ?thesis using load_test_ends [of "\<lambda>_. ?s" None "\<lambda>_. None" sample_load_env] by simp
qed

text \<open>
  The variables are not protected: after two goroutines have created the addons 100 and 200, the first one reads
  the status of the second one's addon.
\<close>

lemma sample_creates:
  obtains x w' where "create_numbered sample_load_env j w = (Ret (Some x, None), w')"
    and "un_Name sample_test_lib x = ''a'' @ load_suffix j" and "un_Namespace sample_test_lib x = ''ns''"
proof -
  let ?L = sample_test_lib and ?x = "[(''kind'', JStr ''Addon''), (''name'', JStr (''a'' @ load_suffix j))]"
  have parse: "parseAddonYaml ?L relativeAddonPath = Inr (Some [(''kind'', JStr ''Addon''), (''name'', JStr ''a'')])"
    by (simp add: parseAddonYaml_def PathToOSFile_def ReadFile_def sample_test_lib_def)
  have named: "with_suffix ?L (load_suffix j) [(''kind'', JStr ''Addon''), (''name'', JStr ''a'')] = ?x"
    by (simp add: with_suffix_def sample_test_lib_def load_suffix_def)
  have pkg: "un_Name ?L (load_package ?L (load_suffix j) ?x) = ''a'' @ load_suffix j"
    "\<And>v. un_Name ?L (un_SetResourceVersion ?L v (load_package ?L (load_suffix j) ?x)) = ''a'' @ load_suffix j"
    by (simp_all add: load_package_def put_field_def sample_test_lib_def)
  have ns: "un_Namespace ?L x = ''ns''" for x by (simp add: sample_test_lib_def)
  have "\<exists>x w'. create_numbered sample_load_env j w = (Ret (Some x, None), w') \<and> un_Name ?L x = ''a'' @ load_suffix j"
    using parse named pkg
    by (cases "res_Get sample_client AddonGVR ''ns'' (un_Name ?L ?x) w")
      (auto simp: create_numbered_def CreateLoadTestsAddon_def sample_load_env_def store_object_def ns Let_def sample_client_def)
  then show thesis using that ns by blast
qed

lemma load_routine:
  "(load_step E)\<^sup>*\<^sup>* r s \<Longrightarrow> running s \<Longrightarrow> i \<in> {1..numberOfRoutines} \<Longrightarrow> routine_step E i s s' \<Longrightarrow> (load_step E)\<^sup>*\<^sup>* r s'"
  by (erule rtranclp.rtrancl_into_rtrancl, rule load_step.work) (auto simp: work_step_def)

lemma load_by_main: "(load_step E)\<^sup>*\<^sup>* r s \<Longrightarrow> running s \<Longrightarrow> main_step E s s' \<Longrightarrow> (load_step E)\<^sup>*\<^sup>* r s'"
  by (erule rtranclp.rtrancl_into_rtrancl, rule load_step.work) (simp add: work_step_def)

lemma two_started:
  obtains s where "(load_step sample_load_env)\<^sup>*\<^sup>* (load_main None (\<lambda>_. None)) s" and "ld_main s = Spawn 3"
    and "ld_lock s = None" and "ld_routine s 1 = AtNumber 100" and "ld_routine s 2 = AtNumber 200"
proof -
  let ?E = sample_load_env and ?s0 = "load_main None (\<lambda>_. None)"
  let ?s1 = "?s0\<lparr>ld_main := Spawn 1\<rparr>"
  let ?s2 = "at (?s1\<lparr>ld_main := Spawn (Suc 1)\<rparr>) 1 (AtNumber (1 * 100))"
  let ?s3 = "at (?s2\<lparr>ld_main := Spawn (Suc (Suc 1))\<rparr>) (Suc 1) (AtNumber (Suc 1 * 100))"
  have run: "running ?s0" "running ?s1" "running ?s2" by (simp_all add: running_def load_main_def)
  have "main_step ?E ?s0 ?s1"
    using main_step.configure [of ?s0 ?E] by (simp add: load_main_def sample_load_env_def)
  note r1 = load_by_main [OF rtranclp.rtrancl_refl run(1) this]
  have "main_step ?E ?s1 ?s2" by (rule main_step.spawn) (simp_all add: numberOfRoutines_def)
  note r2 = load_by_main [OF r1 run(2) this]
  have "main_step ?E ?s2 ?s3" by (rule main_step.spawn) (simp_all add: numberOfRoutines_def)
  from load_by_main [OF r2 run(3) this] show thesis
    by (rule that) (simp_all add: load_main_def eval_nat_numeral)
qed

lemma shared_variables_race:
  "\<exists>s. load_reach sample_load_env s \<and> ld_routine s 1 = PollIn 100 0 ''ns'' \<and> addonName_var s = ''a-200''"
proof -
  let ?E = sample_load_env and ?L = sample_test_lib
  obtain s where s: "(load_step ?E)\<^sup>*\<^sup>* (load_main None (\<lambda>_. None)) s" "ld_main s = Spawn 3" "ld_lock s = None"
    "ld_routine s 1 = AtNumber 100" "ld_routine s 2 = AtNumber 200"
    by (rule two_started)
  obtain x w where x: "create_numbered ?E 100 (ld_world s) = (Ret (Some x, None), w)"
    "un_Name ?L x = ''a'' @ load_suffix 100" "un_Namespace ?L x = ''ns''"
    by (rule sample_creates)
  obtain y w' where y: "create_numbered ?E 200 w = (Ret (Some y, None), w')"
    "un_Name ?L y = ''a'' @ load_suffix 200" "un_Namespace ?L y = ''ns''"
    by (rule sample_creates)
  have lib: "le_lib ?E = ?L" by (simp add: sample_load_env_def)
  have ten: "(1::nat) \<in> {1..numberOfRoutines}" "(2::nat) \<in> {1..numberOfRoutines}" by (simp_all add: numberOfRoutines_def)
  let ?s1 = "at (s\<lparr>ld_lock := Some 1\<rparr>) 1 (Locked 100)"
  let ?s2 = "at (?s1\<lparr>ld_world := w, ld_lock := None\<rparr>) 1 (StoreName 100 x)"
  let ?s3 = "at (?s2\<lparr>ld_lock := Some 2\<rparr>) 2 (Locked 200)"
  let ?s4 = "at (?s3\<lparr>ld_world := w', ld_lock := None\<rparr>) 2 (StoreName 200 y)"
  let ?s5 = "at (?s4\<lparr>addonName_var := un_Name (le_lib ?E) x\<rparr>) 1 (StoreNamespace 100 x)"
  let ?s6 = "at (?s5\<lparr>addonNamespace_var := un_Namespace (le_lib ?E) x\<rparr>) 1 (Poll 100 0)"
  let ?s7 = "at ?s6 1 (PollIn 100 0 (addonNamespace_var ?s6))"
  let ?s8 = "at (?s7\<lparr>addonName_var := un_Name (le_lib ?E) y\<rparr>) 2 (StoreNamespace 200 y)"
  have go: "running ?s1" "running ?s2" "running ?s3" "running ?s4" "running ?s5" "running ?s6" "running ?s7" "running s"
    using s(2) by (simp_all add: running_def)
  have "routine_step ?E 1 s ?s1" "routine_step ?E 1 ?s1 ?s2" "routine_step ?E 2 ?s2 ?s3" "routine_step ?E 2 ?s3 ?s4"
    "routine_step ?E 1 ?s4 ?s5" "routine_step ?E 1 ?s5 ?s6" "routine_step ?E 1 ?s6 ?s7" "routine_step ?E 2 ?s7 ?s8"
    by (rule routine_step.take_lock routine_step.create routine_step.store_name routine_step.store_namespace
        routine_step.poll; use s x y in \<open>simp; fail\<close>)+
  from load_routine [OF load_routine [OF load_routine [OF load_routine [OF load_routine [OF load_routine
      [OF load_routine [OF load_routine [OF s(1) go(8) ten(1) this(1)] go(1) ten(1) this(2)] go(2) ten(2) this(3)]
        go(3) ten(2) this(4)] go(4) ten(1) this(5)] go(5) ten(1) this(6)] go(6) ten(1) this(7)] go(7) ten(2) this(8)]
  have "load_reach ?E ?s8" by blast
  moreover have "load_suffix 200 = ''-200''" by code_simp
  then have "ld_routine ?s8 1 = PollIn 100 0 ''ns''" "addonName_var ?s8 = ''a-200''" using lib x(3) y(2) by simp_all
  ultimately show ?thesis by blast
qed

end
