(* ===== verification/Spec2Isabelle.thy ===== *)
theory Spec2Isabelle
  imports Status_Lock Dependencies Template_Typing Root_Command Deep_Copy Informers Load_Test
begin

text \<open>
  \<^bold>\<open>The addon manager.\<close> The program is a Kubernetes operator. An \<open>Addon\<close> object describes a
  package with its dependencies, its parameters and a workflow template for each step of its
  life (prereqs, install, delete, validate). Two controllers share one version cache and one
  status updater: the addon controller (\<^verbatim>\<open>controllers/addon_controller.go\<close>) validates an
  addon, submits its workflows to Argo and finalizes it; the workflow controller
  (\<^verbatim>\<open>controllers/workflow_controller.go\<close>) turns the phases of these workflows into the status
  of the addon.

  \<^bold>\<open>Theories, in the order of their imports.\<close>
  \<^item> \<open>Go_Prelude\<close>: panics, error values, maps with an unspecified iteration order (the order is
    an argument \<open>\<rho>\<close> everywhere, \<open>rng_ok\<close> says that it is a permutation), the parts of
    \<open>strings\<close>, \<open>strconv\<close> and \<open>fmt\<close> that the code uses, and the lemmas on them.
  \<^item> \<open>Addon_Types\<close> (\<^verbatim>\<open>api/addon/const.go\<close>, \<^verbatim>\<open>api/addon/v1alpha1/addon_types.go\<close>): the records of
    the API, the phases, the status setters, the checksum and the names of the workflows. The
    locale \<open>status_setter\<close> is what all setters leave alone. Shown: every branch of the setters,
    the invariant on reasons, that the checksum ignores the order of maps, and its form.
  \<^item> \<open>Common\<close> (\<^verbatim>\<open>pkg/common\<close>): string slices, expiry on 64-bit time stamps, phases and names of
    workflows. Shown: the parser inverts the generated workflow names; expiry does not wrap.
  \<^item> \<open>Version_Cache\<close> (\<^verbatim>\<open>pkg/addon/addon_version_cache.go\<close>): the cache as nested maps. The locale
    \<open>version_cache\<close> is its contract over one flat map, interpreted on the nested maps. Shown:
    refinement for every sequence of operations, lookups by constraint and by addon name.
  \<^item> \<open>Addon_Validator\<close> (\<^verbatim>\<open>pkg/addon/addon_validator.go\<close>): the validation of an addon; the walk over
    its dependencies recurses at most 256 deep, as in the code, which panics there. Shown:
    accepted dependencies resolve and have no cycle, the walk does not panic for small caches,
    what a valid addon satisfies.
  \<^item> \<open>Kube_API\<close>: the services outside this repository as a record of functions, with the laws
    that theorems assume as predicates, the manager's state, and an API server in memory.
  \<^item> \<open>Addon_Updater\<close> (\<^verbatim>\<open>pkg/addon/addon_update.go\<close>): status writes with the race guard and retries,
    updates from workflows, removal from the cache.
  \<^item> \<open>Status_Lock\<close>: the updater's mutexes under any interleaving of goroutines, as a step relation.
  \<^item> \<open>Workflow_Lifecycle\<close> (\<^verbatim>\<open>pkg/workflows/workflow.go\<close>): from a template to a submitted workflow.
    The locale \<open>addon_lifecycle\<close> is what the addon controller relies on.
  \<^item> \<open>Template_Typing\<close>: the shape of a template that every type assertion of \<^verbatim>\<open>workflow.go\<close> relies on,
    and that a workflow is built from such a template without a panic.
  \<^item> \<open>Observe\<close> (\<^verbatim>\<open>controllers/objects.go\<close>): the observers of deployed resources; the locale
    \<open>observer\<close> is their shared contract, interpreted on each of them.
  \<^item> \<open>Addon_Controller\<close> (\<^verbatim>\<open>controllers/addon_controller.go\<close>) and \<open>Workflow_Controller\<close>
    (\<^verbatim>\<open>controllers/workflow_controller.go\<close>): one reconciliation each, with all its branches.
  \<^item> \<open>Command_Flags\<close> (\<^verbatim>\<open>main.go\<close>, \<^verbatim>\<open>pkg/version\<close>): the parser of Go's \<open>flag\<close> package and the flags of the manager.
    Shown: flags that are written out are read back, and where the parsing stops.
  \<^item> \<open>Manager_Setup\<close> (\<^verbatim>\<open>main.go\<close>, \<^verbatim>\<open>controllers/controller_manager_setup.go\<close>, the constructors of the
    controllers, \<^verbatim>\<open>pkg/common/scheme.go\<close>): what is registered at the start, the shared initial state,
    and the requests that an event on a watched object leads to.
  \<^item> \<open>Histories\<close>: the step relation \<open>sys_step\<close> of both controllers with changes from outside in between.
    Shown: the invariant in every reachable state, that reconciliations of different addons do not
    interfere, and that completed addons stay completed.
  \<^item> \<open>Installation\<close>: progress. Shown: on an API that answers, two reconciliations install an addon
    without workflows, and two release a deleted addon without a delete workflow.
  \<^item> \<open>Workflow_Install\<close>: progress with a workflow. Shown: two reconciliations submit the install workflow of an
    addon, and when Argo has ended it, the workflow controller records the outcome.
  \<^item> \<open>Dependencies\<close>: an addon that depends on another one. Shown: it waits while the other is pending, and is
    installed once the workflow controller has recorded that the other has succeeded.
  \<^item> \<open>Workflow_Builder\<close> (\<^verbatim>\<open>pkg/workflows/workflow_builder.go\<close>): the builder of workflow objects, whose
    maps are shared by reference, on an explicit heap with dynamic types. Shown: type safety
    without scripts, the shape of the built workflow, that its artifact is read back by
    \<open>Workflow_Lifecycle\<close> as the given resources, and the panic that scripts lead to.
  \<^item> \<open>Addonctl\<close> (\<^verbatim>\<open>pkg/addonctl/addonctl.go\<close>): the command-line client. Its package variables are the
    record \<open>cli\<close>. Shown: what the parsers accept and store, round trips for dependencies and
    resource files, what a successful create command has stored and sent, and that a dry run does not
    talk to the API.
  \<^item> \<open>Root_Command\<close> (\<^verbatim>\<open>pkg/addonctl/addonctl.go\<close>, \<^verbatim>\<open>cmd/addonctl/main.go\<close>): the root command with its flags.
    Shown: what is declared with and without a configuration, and that no flag is required.
  \<^item> \<open>Deep_Copy\<close> (\<^verbatim>\<open>api/addon/v1alpha1/zz_generated.deepcopy.go\<close>): the types of the API as structs whose maps and
    slices are addresses in a store, and the generated copies on it. The locale \<open>deep_copy\<close> is the contract
    of a copy, interpreted on every type; \<open>array_region\<close> is what the arrays of one element type share.
    Shown: a copy is equal to the original, shares nothing with it, and has the same checksum.
  \<^item> \<open>Typed_Client\<close> (\<^verbatim>\<open>register.go\<close>, \<^verbatim>\<open>pkg/client/clientset\<close>): the requests that the typed client builds, the
    actions that the fake client records, the constructors of clients, and the fake clientset on a heap of
    objects. Shown: the fake mirrors the real client; when the timeout of a request wraps around; what the
    clients of a fake clientset share.
  \<^item> \<open>Informers\<close> (\<^verbatim>\<open>pkg/client/informers\<close>, \<^verbatim>\<open>pkg/client/listers\<close>): the informer factory as a state with the
    step relation \<open>factory_step\<close>, and the listers. Shown: informers are shared and run at most once, what
    a lister finds.
  \<^item> \<open>Test_Support\<close> (\<^verbatim>\<open>test-bdd/testutil\<close>): the helpers that read objects from files and store them.
    Shown: what is stored, and which files make the helpers panic.
  \<^item> \<open>Load_Test\<close> (\<^verbatim>\<open>test-load\<close>): the load test as the step relation \<open>load_step\<close> of its goroutines. Shown: it does
    boundedly many steps of work and does not get stuck, the creations exclude each other, and the
    variables that the goroutines share are raced for.

  \<^bold>\<open>State and effects.\<close> \<open>'w mgr\<close> holds the outside world, the version cache, the updater's
  mutexes and the recorded events; \<open>'w ctl\<close> adds the addon instance in memory that the methods
  of the addon controller share through a pointer. A Go error is a \<open>goerr\<close>, returned beside the
  new state; a panic is \<open>Panic\<close>, and \<open>grecover\<close> a deferred \<open>recover\<close>. Logging is left out.

  \<^bold>\<open>Bounds.\<close> Everything is a total function: loops over slices and maps are structural, the
  dependency walk ends at the depth limit of the code. Retries on conflict are
  an inductive relation (\<open>attempts\<close>), so theorems hold for any number of them. A history is any
  finite sequence of steps; a reconciliation is one step there, and what happens between the
  steps of one status update in parallel goroutines is the subject of \<open>Status_Lock\<close>.

  \<^bold>\<open>Laws.\<close> What theorems assume of the API is named: \<open>retry_law\<close>, \<open>get_law\<close>, \<open>status_write_law\<close> and
  \<open>finalizer_law\<close> in \<open>Kube_API\<close>, \<open>frame_law\<close> and \<open>status_law\<close> in \<open>Histories\<close>, \<open>write_law\<close> and \<open>answers\<close> in
  \<open>Installation\<close>, \<open>create_law\<close> and \<open>workflow_frame_law\<close> in \<open>Workflow_Install\<close>, \<open>wf_law\<close> in \<open>Workflow_Lifecycle\<close>,
  \<open>access_law\<close> in \<open>Template_Typing\<close>, \<open>object_law\<close> in \<open>Workflow_Builder\<close>, \<open>meta_law\<close> and \<open>value_law\<close> in
  \<open>Deep_Copy\<close>, \<open>rest_records\<close> and \<open>fake_records\<close> in \<open>Typed_Client\<close>, \<open>indexer_law\<close> in \<open>Informers\<close>, \<open>stored_law\<close> in
  \<open>Test_Support\<close>, \<open>cobra_law\<close> in \<open>Root_Command\<close>; the server in memory, the concrete heap and the sample instances satisfy them.

  \<^bold>\<open>Outside the model.\<close> The Kubernetes and Argo clients, \<open>yaml.v3\<close>, \<open>encoding/json\<close>, the helpers
  of \<open>unstructured\<close> and \<open>controllerutil\<close>, cobra, the file system and the semantic version library are
  arguments. So are the REST client, the informers and indexers, the recorder of fake actions, the object
  tracker and the reactors of \<open>client-go\<close>, and the processes that the tests run. Go interfaces without
  code, the constructor of a workflow informer, printing and logging are not modelled: they only call
  libraries and have no logic of the manager.

  This theory holds the properties that span the controllers.
\<close>

section \<open>The two controllers together\<close>

text \<open>
  C1: The controllers do not overwrite each other's outcome. The addon controller has read a
  running addon; before it writes its status back, the workflow controller records that the
  install workflow has finished. The late, non-terminal write of the addon controller is then
  refused with an error, and neither the API nor the version cache changes: a reader
  sees the outcome of the workflow.
\<close>

theorem late_write_keeps_workflow_outcome:
  assumes "retry_law K" and "status_write_law K" and "get_law K" and "mgr_ok t"
    and "kube_GetWorkflow K ns name (world t) = Inr wfobj"
    and "Workflow_DeletionTimestamp wfobj = None"
    and "Workflow_Controller wfobj = Some owner" and "Owner_Kind owner = ''Addon''"
    and "kube_Get K (Workflow_Namespace wfobj) (Owner_Name owner) (world t) = Inr a"
    and "\<not> phase_Completed (GetInstallStatus a)"
    and "Workflow_Name wfobj = GetFormattedWorkflowName a Install"
    and "Workflow_Phase wfobj \<in> {WorkflowSucceeded, WorkflowFailed, WorkflowError}"
    and "WorkflowReconciler_Reconcile K gofmt ns name t = (None, t1)"
    and "GetNamespace late = Workflow_Namespace wfobj" and "GetName late = Owner_Name owner"
    and "phase_Running (GetInstallStatus late)" and "Checksum (Status late) = Checksum (Status a)"
  shows "\<exists>e t2 b. UpdateStatus K late t1 = (Some e, t2) \<and> world t2 = world t1 \<and>
    versionCache t2 = versionCache t1 \<and>
    kube_Get K (Workflow_Namespace wfobj) (Owner_Name owner) (world t2) = Inr b \<and>
    GetInstallStatus b = (if Workflow_Phase wfobj = WorkflowSucceeded then Succeeded else Failed)"
proof -
  have "UpdateAddonStatusLifecycleFromWorkflow K (Workflow_Namespace wfobj) (Owner_Name owner) wfobj t
      = (None, t1)"
    using assms(5-8,12,13) by (auto simp: WorkflowReconciler_Reconcile_def)
  then obtain b where get: "kube_Get K (Workflow_Namespace wfobj) (Owner_Name owner) (world t1) = Inr b"
    and st: "Status b = Status (finished_install wfobj a)"
    using install_recorded [OF assms(1-4,9-12)] by blast
  have phase: "GetInstallStatus b = (if Workflow_Phase wfobj = WorkflowSucceeded then Succeeded else Failed)"
    using st finished_install_status(1) [of wfobj a] by (simp add: GetInstallStatus_def)
  have "race_guard b late"
    using st phase assms(16,17) finished_install_status(3) [of wfobj a]
    by (auto simp: race_guard_def GetInstallStatus_def phase_pred_defs split: if_splits)
  moreover have "kube_Get K (GetNamespace late) (GetName late) (world t1) = Inr b"
    using get assms(14,15) by simp
  ultimately show ?thesis
    using UpdateStatus_guard [OF assms(1)] get phase by auto
qed

definition racing_mgr :: "mem mgr" where
  "racing_mgr = (start_mgr [with_phase Pending])\<lparr>world :=
     (world (start_mgr [with_phase Pending]))\<lparr>mem_workflows := [installed_ok]\<rparr>\<rparr>"

theorem late_write_keeps_workflow_outcome_witness:
  "\<exists>e t2 b. UpdateStatus mem_kube (with_phase Pending)
      (snd (WorkflowReconciler_Reconcile mem_kube Error ''ns'' (Workflow_Name installed_ok) racing_mgr)) =
        (Some e, t2) \<and>
     kube_Get mem_kube ''ns'' ''a'' (world t2) = Inr b \<and> GetInstallStatus b = Succeeded"
proof -
  let ?n = "Workflow_Name installed_ok"
  let ?r = "WorkflowReconciler_Reconcile mem_kube Error ''ns'' ?n racing_mgr"
  have w: "Workflow_Name installed_ok = GetFormattedWorkflowName (with_phase Pending) Install"
    "Workflow_Phase installed_ok = WorkflowSucceeded" "Workflow_DeletionTimestamp installed_ok = None"
    "Workflow_Controller installed_ok = Some \<lparr>Owner_Kind = ''Addon'', Owner_Name = ''a''\<rparr>"
    "Workflow_Namespace installed_ok = ''ns''"
    by (simp_all add: installed_ok_def sample_workflow_def)
  have getw: "kube_GetWorkflow mem_kube ''ns'' ?n (world racing_mgr) = Inr installed_ok"
    by (simp add: racing_mgr_def mem_kube_def mem_wf_get_def w(5))
  have get: "kube_Get mem_kube ''ns'' ''a'' (world racing_mgr) = Inr (with_phase Pending)"
    using start_mgr_get [of Pending] by (simp add: racing_mgr_def mem_kube_def mem_get_def)
  have ok: "mgr_ok racing_mgr" using start_mgr_ok by (simp add: racing_mgr_def)
  have nc: "\<not> phase_Completed (GetInstallStatus (with_phase Pending))"
    and run: "phase_Running (GetInstallStatus (with_phase Pending))"
    by (simp_all add: with_phase_def phase_pred_defs)
  have step: "Install \<in> lifecycle_steps" by (simp add: lifecycle_steps_def)
  have p: "Succeeded = ConvertWorkflowPhaseToAddonPhase Install (Workflow_Phase installed_ok)"
    by (simp add: w ConvertWorkflowPhaseToAddonPhase_def)
  have "?r = UpdateStatus mem_kube (SetInstallStatus Succeeded [[]] (with_phase Pending)) racing_mgr"
    using getw w UpdateFromWorkflow_applied [OF get nc step w(1) p phase_not_empty(2)]
    by (simp add: WorkflowReconciler_Reconcile_def SetStatusByLifecyleStep_def phase_pred_defs)
  moreover have "fst (UpdateStatus mem_kube (SetInstallStatus Succeeded [[]] (with_phase Pending)) racing_mgr) = None"
  proof (rule mem_UpdateStatus_ok)
    show "mem_get (GetNamespace (SetInstallStatus Succeeded [[]] (with_phase Pending)))
        (GetName (SetInstallStatus Succeeded [[]] (with_phase Pending))) (world racing_mgr) = Inr (with_phase Pending)"
      using get by (simp add: mem_kube_def with_phase_def zero_Addon_def)
    show "\<not> race_guard (with_phase Pending) (SetInstallStatus Succeeded [[]] (with_phase Pending))"
      using nc by (simp add: race_guard_def GetInstallStatus_def)
  qed
  ultimately have rec: "?r = (None, snd ?r)" by (metis prod.collapse)
  have meta: "GetNamespace (with_phase Pending) = ''ns''" "GetName (with_phase Pending) = ''a''"
    by (simp_all add: with_phase_def zero_Addon_def)
  show ?thesis
    using late_write_keeps_workflow_outcome [OF mem_retry_law mem_status_write_law mem_get_law ok getw w(3,4) _ _ nc w(1) _ rec,
        of "with_phase Pending"] get run meta w by auto
qed

end
